(* ===== verification/Prelude.thy ===== *)
theory Prelude
  imports Complex_Main "HOL-Library.Signed_Division"
begin

text \<open>
  Shared vocabulary of the PulseRoute development: the types that name what Go and PostgreSQL
  values are, Go's 64-bit integer arithmetic, result values, the outcome of a call to the database,
  the list-of-rows reading of an SQL table with its statements, and the generic lemmas the
  components use. Nothing here models a particular component.

  \<^item> A Go \<^verbatim>\<open>string\<close> or \<^verbatim>\<open>[]byte\<close> is a list of bytes, so \<open>length\<close> is Go's \<^verbatim>\<open>len\<close>.
  \<^item> A \<^verbatim>\<open>time.Duration\<close> is a signed 64-bit count of nanoseconds; an SQL \<^verbatim>\<open>timestamptz\<close> is a count of
    microseconds.
  \<^item> A table is the list of its rows in an unspecified order. \<open>tbl_update\<close> is \<^verbatim>\<open>UPDATE\<close>, \<open>tbl_count\<close>
    the number of rows a statement matches (\<^verbatim>\<open>RowsAffected\<close>), \<open>tbl_delete\<close> is \<^verbatim>\<open>DELETE\<close>, \<open>lookup_by\<close> a
    query by primary key, \<open>first_by\<close> is \<^verbatim>\<open>ORDER BY ... LIMIT 1\<close> and \<open>sort_by\<close> is \<^verbatim>\<open>ORDER BY\<close>.
  \<^item> \<open>run_tx\<close> is a transaction: \<^verbatim>\<open>Begin\<close>, a body, \<^verbatim>\<open>Commit\<close>, with the deferred \<^verbatim>\<open>Rollback\<close> on every
    other way out.
\<close>

type_synonym bytes = string
type_synonym duration = int
type_synonym time = int

named_theorems go_defs "definitions of Go's integer operations"
named_theorems row_defs "definitions of the row updates the SQL statements make"
named_theorems tbl_simps "rewriting of table statements"

section \<open>Go's signed 64-bit integers\<close>

definition int64_wrap :: "int \<Rightarrow> int" where
  [go_defs]: "int64_wrap x = (x + 2 ^ 63) mod 2 ^ 64 - 2 ^ 63"

definition int64_range :: "int \<Rightarrow> bool" where
  [go_defs]: "int64_range x \<longleftrightarrow> - (2 ^ 63) \<le> x \<and> x < 2 ^ 63"

definition go_mul :: "int \<Rightarrow> int \<Rightarrow> int" where
  [go_defs]: "go_mul a b = int64_wrap (a * b)"

definition go_add :: "int \<Rightarrow> int \<Rightarrow> int" where
  [go_defs]: "go_add a b = int64_wrap (a + b)"

definition go_quot :: "int \<Rightarrow> int \<Rightarrow> int" where
  [go_defs]: "go_quot a b = a sdiv b"

definition int4_range :: "int \<Rightarrow> bool" where
  "int4_range x \<longleftrightarrow> - (2 ^ 31) \<le> x \<and> x < 2 ^ 31"

lemma int64_wrap_id [simp]: "int64_range x \<Longrightarrow> int64_wrap x = x"
  by (simp add: int64_wrap_def int64_range_def)

lemma int64_wrap_range [simp]: "int64_range (int64_wrap x)"
proof -
  have "0 \<le> (x + 2 ^ 63) mod 2 ^ 64" and "(x + 2 ^ 63) mod 2 ^ 64 < 2 ^ 64"
    by simp_all
  then show ?thesis
    by (simp add: int64_wrap_def int64_range_def)
qed

lemma go_quot_nonneg: "0 \<le> a \<Longrightarrow> 0 < b \<Longrightarrow> go_quot a b = a div b"
  by (cases "a = 0") (simp_all add: go_quot_def signed_divide_int_def)

section \<open>Results and outcomes of calls\<close>

text \<open>
  A database call returns (\<open>Done\<close>), fails without effect (\<open>Failed\<close>), or takes effect while its
  response is lost and the caller sees an error (\<open>Lost\<close>: the connection broke after the server
  applied it). A handler makes its calls in a fixed order; a \<open>plan\<close> gives the outcome of the call
  with each number.
\<close>

datatype outcome = Done | Failed | Lost

type_synonym plan = "nat \<Rightarrow> outcome"

abbreviation all_done :: plan where
  "all_done \<equiv> (\<lambda>_. Done)"

datatype db_error = ErrNoRows | UniqueViolation | ForeignKeyViolation | CheckViolation
  | DataException | Unavailable

fun res_bind :: "'e + 'a \<Rightarrow> ('a \<Rightarrow> 'e + 'b) \<Rightarrow> 'e + 'b" where
  "res_bind (Inl e) f = Inl e"
| "res_bind (Inr a) f = f a"

fun map_err :: "('e \<Rightarrow> 'f) \<Rightarrow> 'e + 'a \<Rightarrow> 'f + 'a" where
  "map_err g (Inl e) = Inl (g e)"
| "map_err g (Inr a) = Inr a"

text \<open>
  \<open>stmt\<close> is a statement inside a transaction: it runs, or it fails and the transaction is rolled back.
  \<open>apply_out\<close> is the state a statement leaves that commits by itself, or the commit of a transaction.

  \<^verbatim>\<open>tx.Begin\<close>, the body, \<^verbatim>\<open>tx.Commit\<close>; the body leaves early with \<open>Inl\<close>, and the deferred
  \<^verbatim>\<open>tx.Rollback\<close> then discards its changes. \<open>un\<close> is what the caller makes of an error of
  \<^verbatim>\<open>Begin\<close> or \<^verbatim>\<open>Commit\<close>.
\<close>

definition stmt :: "outcome \<Rightarrow> db_error + 'a \<Rightarrow> db_error + 'a" where
  "stmt oc r = (if oc = Done then r else Inl Unavailable)"

definition apply_out :: "outcome \<Rightarrow> 's \<Rightarrow> 's \<Rightarrow> 's" where
  "apply_out oc s s' = (if oc = Failed then s else s')"

definition run_tx :: "outcome \<Rightarrow> outcome \<Rightarrow> 'e \<Rightarrow> ('s \<Rightarrow> 'e + ('s \<times> 'a)) \<Rightarrow> 's \<Rightarrow> 's \<times> ('e + 'a)" where
  "run_tx bg cm un body s =
     (if bg \<noteq> Done then (s, Inl un)
      else case body s of
             Inl e \<Rightarrow> (s, Inl e)
           | Inr (s', a) \<Rightarrow>
               (if cm = Done then (s', Inr a) else (apply_out cm s s', Inl un)))"

lemma res_bind_Inr [simp]:
  "res_bind x f = Inr b \<longleftrightarrow> (\<exists>a. x = Inr a \<and> f a = Inr b)"
  by (cases x) auto

lemma res_bind_Inl:
  "res_bind x f = Inl e \<longleftrightarrow> x = Inl e \<or> (\<exists>a. x = Inr a \<and> f a = Inl e)"
  by (cases x) auto

lemma map_err_Inr [simp]: "map_err g x = Inr a \<longleftrightarrow> x = Inr a"
  by (cases x) auto

lemma stmt_Inr [simp]: "stmt oc r = Inr a \<longleftrightarrow> oc = Done \<and> r = Inr a"
  by (simp add: stmt_def)

lemma stmt_Done [simp]: "stmt Done r = r"
  by (simp add: stmt_def)

lemma run_tx_Inr:
  "run_tx bg cm un body s = (s', Inr a) \<longleftrightarrow> bg = Done \<and> cm = Done \<and> body s = Inr (s', a)"
  by (auto simp: run_tx_def split: sum.splits)

lemma run_tx_atomic:
  "fst (run_tx bg cm un body s) = s \<or> (\<exists>a. body s = Inr (fst (run_tx bg cm un body s), a))"
  by (auto simp: run_tx_def apply_out_def split: sum.splits)

text \<open>A transaction keeps whatever its body keeps, however its calls turn out.\<close>

locale tx_invariant =
  fixes Inv :: "'s \<Rightarrow> bool" and body :: "'s \<Rightarrow> 'e + ('s \<times> 'a)"
  assumes body_keeps: "Inv s \<Longrightarrow> body s = Inr (s', a) \<Longrightarrow> Inv s'"
begin

lemma run_tx_keeps: "Inv s \<Longrightarrow> Inv (fst (run_tx bg cm un body s))"
  using run_tx_atomic [of bg cm un body s] body_keeps by fastforce

end

section \<open>Tables\<close>

definition tbl_update :: "('r \<Rightarrow> bool) \<Rightarrow> ('r \<Rightarrow> 'r) \<Rightarrow> 'r list \<Rightarrow> 'r list" where
  "tbl_update P f t = map (\<lambda>r. if P r then f r else r) t"

definition tbl_count :: "('r \<Rightarrow> bool) \<Rightarrow> 'r list \<Rightarrow> nat" where
  "tbl_count P t = length (filter P t)"

definition tbl_delete :: "('r \<Rightarrow> bool) \<Rightarrow> 'r list \<Rightarrow> 'r list" where
  "tbl_delete P t = filter (\<lambda>r. \<not> P r) t"

definition lookup_by :: "('r \<Rightarrow> 'k) \<Rightarrow> 'r list \<Rightarrow> 'k \<Rightarrow> 'r option" where
  "lookup_by key t k = find (\<lambda>r. key r = k) t"

fun first_by :: "('r \<Rightarrow> 'r \<Rightarrow> bool) \<Rightarrow> 'r list \<Rightarrow> 'r option" where
  "first_by le [] = None"
| "first_by le (x # xs) =
     (case first_by le xs of None \<Rightarrow> Some x | Some y \<Rightarrow> Some (if le x y then x else y))"

fun insert_by :: "('r \<Rightarrow> 'r \<Rightarrow> bool) \<Rightarrow> 'r \<Rightarrow> 'r list \<Rightarrow> 'r list" where
  "insert_by le x [] = [x]"
| "insert_by le x (y # ys) = (if le x y then x # y # ys else y # insert_by le x ys)"

fun sort_by :: "('r \<Rightarrow> 'r \<Rightarrow> bool) \<Rightarrow> 'r list \<Rightarrow> 'r list" where
  "sort_by le [] = []"
| "sort_by le (x # xs) = insert_by le x (sort_by le xs)"

lemma set_tbl_update [tbl_simps]:
  "set (tbl_update P f t) = {r \<in> set t. \<not> P r} \<union> f ` {r \<in> set t. P r}"
  by (auto simp: tbl_update_def)

lemma tbl_update_memE:
  assumes "r \<in> set (tbl_update P f t)"
  obtains "r \<in> set t" "\<not> P r" | r0 where "r0 \<in> set t" "P r0" "r = f r0"
  using assms by (auto simp: tbl_update_def)

lemma tbl_update_append [tbl_simps]:
  "tbl_update P f (t @ u) = tbl_update P f t @ tbl_update P f u"
  by (simp add: tbl_update_def)

lemma tbl_update_none [tbl_simps]: "(\<And>r. r \<in> set t \<Longrightarrow> \<not> P r) \<Longrightarrow> tbl_update P f t = t"
  by (simp add: tbl_update_def map_idI)

lemma length_tbl_update [simp]: "length (tbl_update P f t) = length t"
  by (simp add: tbl_update_def)

lemma tbl_count_0 [simp]: "tbl_count P t = 0 \<longleftrightarrow> (\<forall>r \<in> set t. \<not> P r)"
  by (auto simp: tbl_count_def filter_empty_conv)

lemma set_tbl_delete [simp]: "set (tbl_delete P t) = {r \<in> set t. \<not> P r}"
  by (simp add: tbl_delete_def)

lemma distinct_tbl_delete: "distinct (map key t) \<Longrightarrow> distinct (map key (tbl_delete P t))"
  by (simp add: tbl_delete_def distinct_map_filter)

lemma pair_image_mem [tbl_simps]:
  "(a, b) \<in> (\<lambda>r. (f r, g r)) ` A \<longleftrightarrow> (\<exists>r \<in> A. f r = a \<and> g r = b)"
  by auto

lemma triple_image_mem [tbl_simps]:
  "(a, b, c) \<in> (\<lambda>r. (f r, g r, h r)) ` A \<longleftrightarrow> (\<exists>r \<in> A. f r = a \<and> g r = b \<and> h r = c)"
  by auto

lemma lookup_by_None: "lookup_by key t k = None \<longleftrightarrow> k \<notin> key ` set t"
  by (auto simp: lookup_by_def find_None_iff)

lemma lookup_by_SomeD: "lookup_by key t k = Some r \<Longrightarrow> r \<in> set t \<and> key r = k"
  by (auto simp: lookup_by_def find_Some_iff)

lemma lookup_by_mem: "distinct (map key t) \<Longrightarrow> r \<in> set t \<Longrightarrow> lookup_by key t (key r) = Some r"
  by (induction t) (auto simp: lookup_by_def)

lemma lookup_by_iff:
  "distinct (map key t) \<Longrightarrow> lookup_by key t k = Some r \<longleftrightarrow> r \<in> set t \<and> key r = k"
  using lookup_by_SomeD lookup_by_mem by fastforce

lemma find_Some_mem: "find P xs = Some x \<Longrightarrow> x \<in> set xs \<and> P x"
  by (auto simp: find_Some_iff)

lemma key_unique: "distinct (map key t) \<Longrightarrow> r \<in> set t \<Longrightarrow> r' \<in> set t \<Longrightarrow> key r = key r' \<Longrightarrow> r = r'"
  by (auto simp: distinct_map dest: inj_onD)

text \<open>
  An \<^verbatim>\<open>UPDATE\<close> that does not write the primary key: the keys stay as they are, and a query by key
  sees the updated row exactly where the condition held.
\<close>

locale pk_update =
  fixes key :: "'r \<Rightarrow> 'k" and f :: "'r \<Rightarrow> 'r"
  assumes key_kept: "key (f r) = key r"
begin

lemma map_key_update: "map key (tbl_update P f t) = map key t"
  by (simp add: tbl_update_def key_kept)

lemma keys_update: "key ` set (tbl_update P f t) = key ` set t"
  by (metis list.set_map map_key_update)

lemma lookup_update:
  "lookup_by key (tbl_update P f t) k =
     map_option (\<lambda>r. if P r then f r else r) (lookup_by key t k)"
  by (induction t) (auto simp: lookup_by_def tbl_update_def key_kept)

end

lemma first_by_None [simp]: "first_by le xs = None \<longleftrightarrow> xs = []"
  by (cases xs) (auto split: option.splits)

lemma first_by_mem: "first_by le xs = Some x \<Longrightarrow> x \<in> set xs"
  by (induction xs arbitrary: x) (auto split: option.splits if_splits)

lemma set_insert_by [simp]: "set (insert_by le x xs) = insert x (set xs)"
  by (induction xs) auto

lemma set_sort_by [simp]: "set (sort_by le xs) = set xs"
  by (induction xs) auto

lemma length_insert_by [simp]: "length (insert_by le x xs) = Suc (length xs)"
  by (induction xs) auto

lemma length_sort_by [simp]: "length (sort_by le xs) = length xs"
  by (induction xs) auto

lemma distinct_insert_by [simp]: "distinct (map f (insert_by le x xs)) \<longleftrightarrow> distinct (map f (x # xs))"
  by (induction xs) auto

lemma distinct_sort_by [simp]: "distinct (map f (sort_by le xs)) \<longleftrightarrow> distinct (map f xs)"
  by (induction xs) auto

text \<open>The order of an \<^verbatim>\<open>ORDER BY\<close> clause is a total preorder on the rows.\<close>

locale row_order =
  fixes le :: "'r \<Rightarrow> 'r \<Rightarrow> bool"
  assumes le_total: "le x y \<or> le y x" and le_trans: "le x y \<Longrightarrow> le y z \<Longrightarrow> le x z"
begin

lemma first_by_least: "first_by le xs = Some x \<Longrightarrow> y \<in> set xs \<Longrightarrow> le x y"
proof (induction xs arbitrary: x)
  case (Cons a xs)
  show ?case
  proof (cases "first_by le xs")
    case None
    with Cons.prems le_total show ?thesis by auto
  next
    case (Some b)
    with Cons.IH Cons.prems have "y = a \<or> le b y" by auto
    with Some Cons.prems le_total le_trans show ?thesis
      by (auto split: if_splits)
  qed
qed simp

lemma sorted_insert_by: "sorted_wrt le xs \<Longrightarrow> sorted_wrt le (insert_by le x xs)"
proof (induction xs)
  case (Cons y ys)
  then show ?case using le_total le_trans by (cases "le x y") auto
qed simp

lemma sorted_sort_by: "sorted_wrt le (sort_by le xs)"
  by (induction xs) (auto intro: sorted_insert_by)

end

end
