(* ===== verification/Schema.thy ===== *)
theory Schema
  imports Prelude
begin

text \<open>
  The database: \<^verbatim>\<open>src/migrations/001_initial.sql\<close>. One record per table, the whole database as a
  record of tables, the constraints an \<^verbatim>\<open>INSERT\<close> is checked against, and \<open>db_wf\<close>, the conjunction of
  every primary key, unique, foreign key and check constraint of the schema.

  What the server itself decides is the record \<open>pg\<close>: the value of a Go duration cast to
  \<^verbatim>\<open>interval\<close>, the collation that \<^verbatim>\<open>ORDER BY id\<close> uses, \<^verbatim>\<open>md5\<close>, and the text a \<^verbatim>\<open>jsonb\<close> column returns for
  the text stored in it (\<open>None\<close> where the server refuses the document), which strings it accepts as \<^verbatim>\<open>text\<close>
  (valid UTF-8 without a zero byte), and how it writes timestamps and numerics in JSON.
\<close>

section \<open>Rows\<close>

datatype delivery_status = Pending | Processing | Retrying | Succeeded | Dead | Cancelled

definition status_text :: "delivery_status \<Rightarrow> string" where
  "status_text st =
     (case st of Pending \<Rightarrow> ''pending'' | Processing \<Rightarrow> ''processing'' | Retrying \<Rightarrow> ''retrying''
      | Succeeded \<Rightarrow> ''succeeded'' | Dead \<Rightarrow> ''dead'' | Cancelled \<Rightarrow> ''cancelled'')"

definition status_of_text :: "string \<Rightarrow> delivery_status option" where
  "status_of_text t =
     find (\<lambda>st. status_text st = t) [Pending, Processing, Retrying, Succeeded, Dead, Cancelled]"

record user_row =
  u_id :: string
  u_email :: string
  u_password_hash :: string
  u_created_at :: time

record session_row =
  s_token_hash :: string
  s_user_id :: string
  s_expires_at :: time

record project_row =
  p_id :: string
  p_owner_id :: string
  p_name :: string
  p_created_at :: time

record api_key_row =
  k_id :: string
  k_project_id :: string
  k_name :: string
  k_key_hash :: string
  k_prefix :: string
  k_revoked_at :: "time option"
  k_created_at :: time

record endpoint_row =
  ep_id :: string
  ep_project_id :: string
  ep_name :: string
  ep_url :: string
  ep_secret_cipher :: string
  ep_active :: bool
  ep_max_attempts :: int
  ep_base_delay_seconds :: int
  ep_rate_per_second :: int
  ep_created_at :: time
  ep_deleted_at :: "time option"

record event_row =
  ev_id :: string
  ev_project_id :: string
  ev_event_id :: string
  ev_type :: string
  ev_payload :: bytes
  ev_payload_hash :: string
  ev_created_at :: time

record delivery_row =
  d_id :: string
  d_event_id :: string
  d_endpoint_id :: string
  d_status :: delivery_status
  d_attempt_count :: int
  d_generation :: int
  d_next_attempt_at :: time
  d_lease_until :: "time option"
  d_lease_token :: "string option"
  d_created_at :: time
  d_updated_at :: time

record attempt_row =
  a_id :: string
  a_delivery_id :: string
  a_generation :: int
  a_attempt :: int
  a_status_code :: int
  a_duration_ms :: int
  a_error :: string
  a_created_at :: time

record dead_letter_row =
  dl_delivery_id :: string
  dl_reason :: string
  dl_created_at :: time

record db =
  users :: "user_row list"
  sessions :: "session_row list"
  projects :: "project_row list"
  api_keys :: "api_key_row list"
  endpoints :: "endpoint_row list"
  events :: "event_row list"
  deliveries :: "delivery_row list"
  delivery_attempts :: "attempt_row list"
  dead_letters :: "dead_letter_row list"

definition empty_db :: db where
  "empty_db = \<lparr>users = [], sessions = [], projects = [], api_keys = [], endpoints = [], events = [],
     deliveries = [], delivery_attempts = [], dead_letters = []\<rparr>"

record pg =
  pg_interval :: "duration \<Rightarrow> int"
  pg_id_le :: "string \<Rightarrow> string \<Rightarrow> bool"
  pg_md5 :: "string \<Rightarrow> string"
  pg_jsonb :: "bytes \<Rightarrow> bytes option"
  pg_text :: "string \<Rightarrow> bool"
  pg_time :: "time \<Rightarrow> string"
  pg_numeric :: "rat \<Rightarrow> string"

section \<open>INSERT statements and their constraints\<close>

definition policy_check :: "endpoint_row \<Rightarrow> bool" where
  "policy_check r \<longleftrightarrow>
     1 \<le> ep_max_attempts r \<and> ep_max_attempts r \<le> 10 \<and>
     1 \<le> ep_base_delay_seconds r \<and> ep_base_delay_seconds r \<le> 3600 \<and>
     1 \<le> ep_rate_per_second r \<and> ep_rate_per_second r \<le> 1000"

definition insert_user :: "user_row \<Rightarrow> db \<Rightarrow> db_error + db" where
  "insert_user r s =
     (if u_id r \<in> u_id ` set (users s) \<or> u_email r \<in> u_email ` set (users s)
      then Inl UniqueViolation else Inr (s\<lparr>users := users s @ [r]\<rparr>))"

definition insert_session :: "session_row \<Rightarrow> db \<Rightarrow> db_error + db" where
  "insert_session r s =
     (if s_token_hash r \<in> s_token_hash ` set (sessions s) then Inl UniqueViolation
      else if s_user_id r \<notin> u_id ` set (users s) then Inl ForeignKeyViolation
      else Inr (s\<lparr>sessions := sessions s @ [r]\<rparr>))"

definition insert_project :: "project_row \<Rightarrow> db \<Rightarrow> db_error + db" where
  "insert_project r s =
     (if p_id r \<in> p_id ` set (projects s) then Inl UniqueViolation
      else if p_owner_id r \<notin> u_id ` set (users s) then Inl ForeignKeyViolation
      else Inr (s\<lparr>projects := projects s @ [r]\<rparr>))"

definition insert_api_key :: "api_key_row \<Rightarrow> db \<Rightarrow> db_error + db" where
  "insert_api_key r s =
     (if k_id r \<in> k_id ` set (api_keys s) \<or> k_key_hash r \<in> k_key_hash ` set (api_keys s)
      then Inl UniqueViolation
      else if k_project_id r \<notin> p_id ` set (projects s) then Inl ForeignKeyViolation
      else Inr (s\<lparr>api_keys := api_keys s @ [r]\<rparr>))"

definition insert_endpoint :: "endpoint_row \<Rightarrow> db \<Rightarrow> db_error + db" where
  "insert_endpoint r s =
     (if \<not> policy_check r then Inl CheckViolation
      else if ep_id r \<in> ep_id ` set (endpoints s) then Inl UniqueViolation
      else if ep_project_id r \<notin> p_id ` set (projects s) then Inl ForeignKeyViolation
      else Inr (s\<lparr>endpoints := endpoints s @ [r]\<rparr>))"

text \<open>
  \<^verbatim>\<open>ON CONFLICT(project_id,event_id) DO NOTHING\<close>: the flag says whether the row was inserted
  (\<^verbatim>\<open>RowsAffected() = 1\<close>); a clash on the primary key alone is an error.
\<close>

definition insert_event :: "event_row \<Rightarrow> db \<Rightarrow> db_error + (db \<times> bool)" where
  "insert_event r s =
     (if \<exists>e \<in> set (events s). ev_project_id e = ev_project_id r \<and> ev_event_id e = ev_event_id r
      then Inr (s, False)
      else if ev_id r \<in> ev_id ` set (events s) then Inl UniqueViolation
      else if ev_project_id r \<notin> p_id ` set (projects s) then Inl ForeignKeyViolation
      else Inr (s\<lparr>events := events s @ [r]\<rparr>, True))"

definition insert_delivery :: "delivery_row \<Rightarrow> db \<Rightarrow> db_error + db" where
  "insert_delivery r s =
     (if \<not> (int4_range (d_attempt_count r) \<and> int4_range (d_generation r)) then Inl DataException
      else if d_id r \<in> d_id ` set (deliveries s) \<or>
         (\<exists>d \<in> set (deliveries s). d_event_id d = d_event_id r \<and> d_endpoint_id d = d_endpoint_id r)
      then Inl UniqueViolation
      else if d_event_id r \<notin> ev_id ` set (events s) \<or> d_endpoint_id r \<notin> ep_id ` set (endpoints s)
      then Inl ForeignKeyViolation
      else Inr (s\<lparr>deliveries := deliveries s @ [r]\<rparr>))"

fun insert_deliveries :: "delivery_row list \<Rightarrow> db \<Rightarrow> db_error + db" where
  "insert_deliveries [] s = Inr s"
| "insert_deliveries (r # rs) s = res_bind (insert_delivery r s) (insert_deliveries rs)"

definition insert_attempt :: "attempt_row \<Rightarrow> db \<Rightarrow> db_error + db" where
  "insert_attempt r s =
     (if \<not> (int4_range (a_generation r) \<and> int4_range (a_attempt r) \<and> int4_range (a_status_code r))
      then Inl DataException
      else if a_id r \<in> a_id ` set (delivery_attempts s) \<or>
         (\<exists>a \<in> set (delivery_attempts s). a_delivery_id a = a_delivery_id r \<and>
            a_generation a = a_generation r \<and> a_attempt a = a_attempt r)
      then Inl UniqueViolation
      else if a_delivery_id r \<notin> d_id ` set (deliveries s) then Inl ForeignKeyViolation
      else Inr (s\<lparr>delivery_attempts := delivery_attempts s @ [r]\<rparr>))"

text \<open>\<^verbatim>\<open>ON CONFLICT(delivery_id) DO UPDATE SET reason=excluded.reason,created_at=now()\<close>\<close>

definition upsert_dead_letter :: "dead_letter_row \<Rightarrow> db \<Rightarrow> db_error + db" where
  "upsert_dead_letter r s =
     (if dl_delivery_id r \<in> dl_delivery_id ` set (dead_letters s)
      then Inr (s\<lparr>dead_letters := tbl_update (\<lambda>x. dl_delivery_id x = dl_delivery_id r)
                   (\<lambda>x. x\<lparr>dl_reason := dl_reason r, dl_created_at := dl_created_at r\<rparr>)
                   (dead_letters s)\<rparr>)
      else if dl_delivery_id r \<notin> d_id ` set (deliveries s) then Inl ForeignKeyViolation
      else Inr (s\<lparr>dead_letters := dead_letters s @ [r]\<rparr>))"

section \<open>The constraints of the schema\<close>

definition wf_accounts :: "db \<Rightarrow> bool" where
  "wf_accounts s \<longleftrightarrow>
     distinct (map u_id (users s)) \<and> distinct (map u_email (users s)) \<and>
     distinct (map s_token_hash (sessions s)) \<and>
     s_user_id ` set (sessions s) \<subseteq> u_id ` set (users s)"

definition wf_projects :: "db \<Rightarrow> bool" where
  "wf_projects s \<longleftrightarrow>
     distinct (map p_id (projects s)) \<and> p_owner_id ` set (projects s) \<subseteq> u_id ` set (users s) \<and>
     distinct (map k_id (api_keys s)) \<and> distinct (map k_key_hash (api_keys s)) \<and>
     k_project_id ` set (api_keys s) \<subseteq> p_id ` set (projects s)"

definition wf_endpoints :: "db \<Rightarrow> bool" where
  "wf_endpoints s \<longleftrightarrow>
     distinct (map ep_id (endpoints s)) \<and>
     ep_project_id ` set (endpoints s) \<subseteq> p_id ` set (projects s) \<and>
     (\<forall>r \<in> set (endpoints s). policy_check r)"

definition wf_events :: "db \<Rightarrow> bool" where
  "wf_events s \<longleftrightarrow>
     distinct (map ev_id (events s)) \<and>
     distinct (map (\<lambda>e. (ev_project_id e, ev_event_id e)) (events s)) \<and>
     ev_project_id ` set (events s) \<subseteq> p_id ` set (projects s)"

definition wf_deliveries :: "db \<Rightarrow> bool" where
  "wf_deliveries s \<longleftrightarrow>
     distinct (map d_id (deliveries s)) \<and>
     distinct (map (\<lambda>d. (d_event_id d, d_endpoint_id d)) (deliveries s)) \<and>
     d_event_id ` set (deliveries s) \<subseteq> ev_id ` set (events s) \<and>
     d_endpoint_id ` set (deliveries s) \<subseteq> ep_id ` set (endpoints s) \<and>
     (\<forall>d \<in> set (deliveries s). int4_range (d_attempt_count d) \<and> int4_range (d_generation d))"

definition wf_history :: "db \<Rightarrow> bool" where
  "wf_history s \<longleftrightarrow>
     distinct (map a_id (delivery_attempts s)) \<and>
     distinct (map (\<lambda>a. (a_delivery_id a, a_generation a, a_attempt a)) (delivery_attempts s)) \<and>
     a_delivery_id ` set (delivery_attempts s) \<subseteq> d_id ` set (deliveries s) \<and>
     distinct (map dl_delivery_id (dead_letters s)) \<and>
     dl_delivery_id ` set (dead_letters s) \<subseteq> d_id ` set (deliveries s)"

definition db_wf :: "db \<Rightarrow> bool" where
  "db_wf s \<longleftrightarrow> wf_accounts s \<and> wf_projects s \<and> wf_endpoints s \<and> wf_events s \<and> wf_deliveries s \<and>
     wf_history s"

lemmas wf_defs = wf_accounts_def wf_projects_def wf_endpoints_def wf_events_def wf_deliveries_def
  wf_history_def

section \<open>Lemmas\<close>

lemma status_of_text_text [simp]: "status_of_text (status_text st) = Some st"
  by (cases st) (simp_all add: status_of_text_def status_text_def)

lemma status_of_text_Some: "status_of_text t = Some st \<longleftrightarrow> t = status_text st"
proof
  assume "status_of_text t = Some st"
  then show "t = status_text st"
    unfolding status_of_text_def find_Some_iff by blast
qed simp

lemma empty_db_wf: "db_wf empty_db"
  by (simp add: db_wf_def wf_defs empty_db_def)

lemma insert_user_wf: "db_wf s \<Longrightarrow> insert_user r s = Inr s' \<Longrightarrow> db_wf s'"
  by (clarsimp simp: insert_user_def db_wf_def wf_defs subset_insertI2 split: if_split_asm)

lemma insert_session_wf: "db_wf s \<Longrightarrow> insert_session r s = Inr s' \<Longrightarrow> db_wf s'"
  by (clarsimp simp: insert_session_def db_wf_def wf_defs subset_insertI2 tbl_simps
      split: if_split_asm)

lemma insert_project_wf: "db_wf s \<Longrightarrow> insert_project r s = Inr s' \<Longrightarrow> db_wf s'"
  by (clarsimp simp: insert_project_def db_wf_def wf_defs subset_insertI2 tbl_simps
      split: if_split_asm)

lemma insert_api_key_wf: "db_wf s \<Longrightarrow> insert_api_key r s = Inr s' \<Longrightarrow> db_wf s'"
  by (clarsimp simp: insert_api_key_def db_wf_def wf_defs subset_insertI2 tbl_simps
      split: if_split_asm)

lemma insert_endpoint_wf: "db_wf s \<Longrightarrow> insert_endpoint r s = Inr s' \<Longrightarrow> db_wf s'"
  by (clarsimp simp: insert_endpoint_def db_wf_def wf_defs subset_insertI2 tbl_simps
      split: if_split_asm)

lemma insert_event_wf: "db_wf s \<Longrightarrow> insert_event r s = Inr (s', b) \<Longrightarrow> db_wf s'"
  by (clarsimp simp: insert_event_def db_wf_def wf_defs subset_insertI2 tbl_simps
      split: if_split_asm)

lemma insert_delivery_wf: "db_wf s \<Longrightarrow> insert_delivery r s = Inr s' \<Longrightarrow> db_wf s'"
  by (clarsimp simp: insert_delivery_def db_wf_def wf_defs subset_insertI2 tbl_simps
      split: if_split_asm)

lemma insert_deliveries_wf: "db_wf s \<Longrightarrow> insert_deliveries rs s = Inr s' \<Longrightarrow> db_wf s'"
  by (induction rs arbitrary: s) (auto intro: insert_delivery_wf)

lemma insert_attempt_wf: "db_wf s \<Longrightarrow> insert_attempt r s = Inr s' \<Longrightarrow> db_wf s'"
  by (clarsimp simp: insert_attempt_def db_wf_def wf_defs subset_insertI2 tbl_simps
      split: if_split_asm)

interpretation dead_letter_touch: pk_update dl_delivery_id
  "\<lambda>x. x\<lparr>dl_reason := reason, dl_created_at := now\<rparr>" for reason now
  by unfold_locales simp

lemma upsert_dead_letter_wf: "db_wf s \<Longrightarrow> upsert_dead_letter r s = Inr s' \<Longrightarrow> db_wf s'"
  by (clarsimp simp: upsert_dead_letter_def db_wf_def wf_defs dead_letter_touch.map_key_update
      dead_letter_touch.keys_update split: if_split_asm)

lemmas insert_wf = insert_user_wf insert_session_wf insert_project_wf insert_api_key_wf
  insert_endpoint_wf insert_event_wf insert_delivery_wf insert_deliveries_wf insert_attempt_wf
  upsert_dead_letter_wf

lemma insert_deliveries_frame:
  "insert_deliveries rs s = Inr s' \<Longrightarrow> s' = s\<lparr>deliveries := deliveries s @ rs\<rparr>"
proof (induction rs arbitrary: s)
  case (Cons r rs)
  then obtain s1 where s1: "insert_delivery r s = Inr s1" and "insert_deliveries rs s1 = Inr s'"
    by auto
  then have "s' = s1\<lparr>deliveries := deliveries s1 @ rs\<rparr>" using Cons.IH by simp
  with s1 show ?case by (clarsimp simp: insert_delivery_def split: if_split_asm)
qed simp

text \<open>
  An \<^verbatim>\<open>UPDATE\<close> of \<^verbatim>\<open>deliveries\<close> that writes none of the key columns keeps the schema's constraints.
\<close>

locale delivery_update =
  fixes f :: "delivery_row \<Rightarrow> delivery_row"
  assumes f_id: "d_id (f r) = d_id r" and f_event: "d_event_id (f r) = d_event_id r"
    and f_endpoint: "d_endpoint_id (f r) = d_endpoint_id r"
begin

sublocale pk: pk_update d_id f
  by unfold_locales (rule f_id)

sublocale ev: pk_update d_event_id f
  by unfold_locales (rule f_event)

sublocale ep: pk_update d_endpoint_id f
  by unfold_locales (rule f_endpoint)

sublocale pair: pk_update "\<lambda>d. (d_event_id d, d_endpoint_id d)" f
  by unfold_locales (simp add: f_event f_endpoint)

lemma update_wf:
  assumes "db_wf s"
    and "\<And>r. r \<in> set (deliveries s) \<Longrightarrow> P r \<Longrightarrow>
      int4_range (d_attempt_count (f r)) \<and> int4_range (d_generation (f r))"
  shows "db_wf (s\<lparr>deliveries := tbl_update P f (deliveries s)\<rparr>)"
proof -
  have "\<forall>r \<in> set (tbl_update P f (deliveries s)).
      int4_range (d_attempt_count r) \<and> int4_range (d_generation r)"
    using assms unfolding db_wf_def wf_deliveries_def by (blast elim: tbl_update_memE)
  with assms(1) show ?thesis
    by (simp add: db_wf_def wf_defs pk.map_key_update pk.keys_update ev.keys_update ep.keys_update
        pair.map_key_update)
qed

end

end
