(* ===== verification/Go_Text.thy ===== *)
theory Go_Text
  imports Prelude
begin

text \<open>
  The parts of Go's standard library the program applies to text and bytes: \<^verbatim>\<open>encoding/hex\<close>,
  \<^verbatim>\<open>encoding/base64\<close> (the unpadded alphabets), \<^verbatim>\<open>strconv\<close>'s decimal conversions with their range
  errors, \<^verbatim>\<open>strings.TrimPrefix\<close>, \<^verbatim>\<open>TrimSpace\<close> and \<^verbatim>\<open>Contains\<close>, and a \<^verbatim>\<open>time.Time\<close> made from Unix
  seconds. The lemmas are the round trips the components rely on.
\<close>

section \<open>Prefixes, white space, search\<close>

definition has_prefix :: "string \<Rightarrow> string \<Rightarrow> bool" where
  "has_prefix s p \<longleftrightarrow> take (length p) s = p"

definition trim_prefix :: "string \<Rightarrow> string \<Rightarrow> string" where
  "trim_prefix s p = (if has_prefix s p then drop (length p) s else s)"

fun contains :: "string \<Rightarrow> string \<Rightarrow> bool" where
  "contains [] p \<longleftrightarrow> p = []"
| "contains (c # s) p \<longleftrightarrow> has_prefix (c # s) p \<or> contains s p"

text \<open>The UTF-8 encodings of the runes \<^verbatim>\<open>unicode.IsSpace\<close> accepts.\<close>

definition space_runes :: "string list" where
  "space_runes = map (map char_of)
     ([[9], [10], [11], [12], [13], [32], [194, 133], [194, 160], [225, 154, 128]] @
      map (\<lambda>b. [226, 128, b]) [128, 129, 130, 131, 132, 133, 134, 135, 136, 137, 138, 168, 169, 175] @
      [[226, 129, 159], [227, 128, 128 :: nat]])"

lemma drop_prefix_shorter:
  "p \<noteq> [] \<Longrightarrow> has_prefix s p \<Longrightarrow> length (drop (length p) s) < length s"
  by (cases s; cases p) (auto simp: has_prefix_def)

lemma find_SomeD: "find P xs = Some x \<Longrightarrow> P x"
  by (auto simp: find_Some_iff)

function trim_left :: "string list \<Rightarrow> string \<Rightarrow> string" where
  "trim_left ps s =
     (case find (\<lambda>p. p \<noteq> [] \<and> has_prefix s p) ps of
        None \<Rightarrow> s | Some p \<Rightarrow> trim_left ps (drop (length p) s))"
  by pat_completeness auto
termination
  by (relation "measure (\<lambda>(ps, s). length s)")
    (auto simp del: length_drop dest!: find_SomeD intro: drop_prefix_shorter)

declare trim_left.simps [simp del]

definition trim_space :: "string \<Rightarrow> string" where
  "trim_space s = rev (trim_left (map rev space_runes) (rev (trim_left space_runes s)))"

section \<open>Hexadecimal\<close>

definition hex_digit :: "nat \<Rightarrow> char" where
  "hex_digit n = ''0123456789abcdef'' ! n"

definition hex_encode :: "bytes \<Rightarrow> string" where
  "hex_encode bs = concat (map (\<lambda>b. [hex_digit (of_char b div 16), hex_digit (of_char b mod 16)]) bs)"

definition from_hex :: "char \<Rightarrow> nat option" where
  "from_hex c =
     (let n = of_char c :: nat in
      if 48 \<le> n \<and> n \<le> 57 then Some (n - 48)
      else if 97 \<le> n \<and> n \<le> 102 then Some (n - 87)
      else if 65 \<le> n \<and> n \<le> 70 then Some (n - 55) else None)"

fun hex_decode :: "string \<Rightarrow> bytes option" where
  "hex_decode [] = Some []"
| "hex_decode [c] = None"
| "hex_decode (a # b # r) =
     (case (from_hex a, from_hex b) of
        (Some p, Some q) \<Rightarrow> map_option (Cons (char_of (16 * p + q))) (hex_decode r)
      | _ \<Rightarrow> None)"

section \<open>Base64 without padding\<close>

definition b64_url :: string where
  "b64_url = ''ABCDEFGHIJKLMNOPQRSTUVWXYZabcdefghijklmnopqrstuvwxyz0123456789-_''"

definition b64_std :: string where
  "b64_std = ''ABCDEFGHIJKLMNOPQRSTUVWXYZabcdefghijklmnopqrstuvwxyz0123456789+/''"

fun b64_encode :: "string \<Rightarrow> bytes \<Rightarrow> string" where
  "b64_encode al [] = []"
| "b64_encode al [x] =
     (let a = of_char x in [al ! (a div 4), al ! (a mod 4 * 16)])"
| "b64_encode al [x, y] =
     (let a = of_char x; b = of_char y
      in [al ! (a div 4), al ! (a mod 4 * 16 + b div 16), al ! (b mod 16 * 4)])"
| "b64_encode al (x # y # z # r) =
     (let a = of_char x; b = of_char y; c = of_char z
      in [al ! (a div 4), al ! (a mod 4 * 16 + b div 16), al ! (b mod 16 * 4 + c div 64), al ! (c mod 64)] @
         b64_encode al r)"

definition b64_value :: "string \<Rightarrow> char \<Rightarrow> nat option" where
  "b64_value al c = find (\<lambda>i. al ! i = c) [0..<64]"

fun b64_values :: "string \<Rightarrow> string \<Rightarrow> nat list option" where
  "b64_values al [] = Some []"
| "b64_values al (c # cs) =
     (case (b64_value al c, b64_values al cs) of (Some v, Some vs) \<Rightarrow> Some (v # vs) | _ \<Rightarrow> None)"

fun b64_quanta :: "nat list \<Rightarrow> bytes option" where
  "b64_quanta [] = Some []"
| "b64_quanta [p] = None"
| "b64_quanta [p, q] = Some [char_of (p * 4 + q div 16)]"
| "b64_quanta [p, q, r] = Some [char_of (p * 4 + q div 16), char_of (q mod 16 * 16 + r div 4)]"
| "b64_quanta (p # q # r # t # rest) =
     map_option (\<lambda>bs. [char_of (p * 4 + q div 16), char_of (q mod 16 * 16 + r div 4),
       char_of (r mod 4 * 64 + t)] @ bs) (b64_quanta rest)"

definition b64_decode :: "string \<Rightarrow> string \<Rightarrow> bytes option" where
  "b64_decode al s =
     Option.bind (b64_values al (filter (\<lambda>c. c \<noteq> CHR 0x0A \<and> c \<noteq> CHR 0x0D) s)) b64_quanta"

section \<open>Decimal integers\<close>

fun nat_digits :: "nat \<Rightarrow> string" where
  "nat_digits n = (if n < 10 then [char_of (48 + n)] else nat_digits (n div 10) @ [char_of (48 + n mod 10)])"

declare nat_digits.simps [simp del]

definition FormatInt :: "int \<Rightarrow> string" where
  "FormatInt n = (if n < 0 then CHR ''-'' # nat_digits (nat (- n)) else nat_digits (nat n))"

datatype parse_result = ParseOk int | ParseSyntax | ParseRange int

datatype uint_result = UOk nat | USyntax | URange

fun uint_loop :: "nat \<Rightarrow> string \<Rightarrow> uint_result" where
  "uint_loop acc [] = UOk acc"
| "uint_loop acc (c # cs) =
     (let d = of_char c :: nat in
      if d < 48 \<or> 57 < d then USyntax
      else if acc \<ge> 1844674407370955162 then URange
      else let n = acc * 10 + (d - 48)
           in if n \<ge> 18446744073709551616 then URange else uint_loop n cs)"

definition ParseInt :: "string \<Rightarrow> parse_result" where
  "ParseInt s =
     (let neg = (s \<noteq> [] \<and> hd s = CHR ''-'');
          ds = (if s \<noteq> [] \<and> (hd s = CHR ''-'' \<or> hd s = CHR ''+'') then tl s else s)
      in if ds = [] then ParseSyntax
         else case uint_loop 0 ds of
                USyntax \<Rightarrow> ParseSyntax
              | URange \<Rightarrow> ParseRange (if neg then - (2 ^ 63) else 2 ^ 63 - 1)
              | UOk v \<Rightarrow>
                  (if neg then (if v > 2 ^ 63 then ParseRange (- (2 ^ 63)) else ParseOk (- int v))
                   else if v \<ge> 2 ^ 63 then ParseRange (2 ^ 63 - 1) else ParseOk (int v)))"

text \<open>The value \<^verbatim>\<open>strconv.Atoi\<close> returns when its error is ignored.\<close>

definition atoi_value :: "string \<Rightarrow> int" where
  "atoi_value s = (case ParseInt s of ParseOk n \<Rightarrow> n | ParseSyntax \<Rightarrow> 0 | ParseRange n \<Rightarrow> n)"

text \<open>
  \<^verbatim>\<open>time.Unix(seconds, 0)\<close>: a \<^verbatim>\<open>time.Time\<close> counts from year 1, in nanoseconds here; the conversion from Unix
  seconds wraps in 64 bits.
\<close>

definition unix_epoch :: int where
  "unix_epoch = 62135596800"

definition time_Unix :: "int \<Rightarrow> int" where
  "time_Unix seconds = int64_wrap (seconds + unix_epoch) * 1000000000"

definition unix_of :: "int \<Rightarrow> int" where
  "unix_of t = t div 1000000000 - unix_epoch"

section \<open>Round trips\<close>

lemma trim_prefix_append [simp]: "trim_prefix (p @ s) p = s" and has_prefix_append [simp]: "has_prefix (p @ s) p"
  by (simp_all add: trim_prefix_def has_prefix_def)

lemma from_hex_digit: "n < 16 \<Longrightarrow> from_hex (hex_digit n) = Some n"
proof -
  have "\<forall>n \<in> {0..<16}. from_hex (hex_digit n) = Some n" by code_simp
  then show "n < 16 \<Longrightarrow> from_hex (hex_digit n) = Some n" by simp
qed

lemma hex_decode_encode [simp]: "hex_decode (hex_encode bs) = Some bs"
proof (induction bs)
  case (Cons b bs)
  have "(of_char b :: nat) div 16 < 16" using nat_of_char_less_256 [of b] by linarith
  with Cons show ?case by (simp add: hex_encode_def from_hex_digit)
qed (simp add: hex_encode_def)

lemma hex_encode_length: "length (hex_encode bs) = 2 * length bs"
  by (induction bs) (simp_all add: hex_encode_def)

lemma list3_induct [case_names Nil One Two More]:
  fixes P :: "bytes \<Rightarrow> bool"
  assumes "P []" and "\<And>x. P [x]" and "\<And>x y. P [x, y]" and "\<And>x y z r. P r \<Longrightarrow> P (x # y # z # r)"
  shows "P bs"
  by (induction "[] :: string" bs rule: b64_encode.induct) (use assms in auto)

lemma sextets:
  "(of_char x :: nat) div 4 < 64" "(of_char x :: nat) mod 4 * 16 < 64"
  "(of_char x :: nat) mod 4 * 16 + of_char y div 16 < 64" "(of_char x :: nat) mod 16 * 4 < 64"
  "(of_char x :: nat) mod 16 * 4 + of_char y div 64 < 64"
  using nat_of_char_less_256 [of x] nat_of_char_less_256 [of y] by linarith+

lemma high_bits [simp]: "(of_char x :: nat) div 16 < 16" "(of_char x :: nat) div 64 < 4"
  using nat_of_char_less_256 [of x] by linarith+

text \<open>An alphabet of 64 distinct characters, none of them a line break, encodes injectively.\<close>

locale b64_alphabet =
  fixes al :: string
  assumes al_length: "length al = 64" and al_distinct: "distinct al"
    and al_breaks: "CHR 0x0A \<notin> set al" "CHR 0x0D \<notin> set al"
begin

lemma value_nth: "i < 64 \<Longrightarrow> b64_value al (al ! i) = Some i"
  using al_length nth_eq_iff_index_eq [OF al_distinct]
  by (auto simp: b64_value_def find_Some_iff intro!: exI [of _ i])

lemma encode_chars: "set (b64_encode al bs) \<subseteq> set al"
  by (induction bs rule: list3_induct) (simp_all add: Let_def sextets al_length)

lemma values_encode: "\<exists>vs. b64_values al (b64_encode al bs) = Some vs \<and> b64_quanta vs = Some bs"
proof (induction bs rule: list3_induct)
  case (More x y z r)
  then obtain vs where "b64_values al (b64_encode al r) = Some vs" "b64_quanta vs = Some r" by blast
  then show ?case by (simp add: Let_def value_nth sextets)
qed (simp_all add: Let_def value_nth sextets)

lemma decode_encode: "b64_decode al (b64_encode al bs) = Some bs"
proof -
  have "filter (\<lambda>c. c \<noteq> CHR 0x0A \<and> c \<noteq> CHR 0x0D) (b64_encode al bs) = b64_encode al bs"
    using encode_chars [of bs] al_breaks by (auto intro!: filter_True)
  then show ?thesis using values_encode [of bs] by (auto simp: b64_decode_def)
qed

end

interpretation b64_url: b64_alphabet b64_url
  by unfold_locales (simp_all add: b64_url_def)
interpretation b64_std: b64_alphabet b64_std
  by unfold_locales (simp_all add: b64_std_def)

lemma uint_loop_append:
  "uint_loop acc (xs @ ys) = (case uint_loop acc xs of UOk m \<Rightarrow> uint_loop m ys | r \<Rightarrow> r)"
  by (induction xs arbitrary: acc) (simp_all add: Let_def)

lemma uint_loop_digits: "n < 18446744073709551616 \<Longrightarrow> uint_loop 0 (nat_digits n) = UOk n"
proof (induction n rule: nat_digits.induct)
  case (1 n)
  show ?case
  proof (cases "n < 10")
    case True
    then show ?thesis by (simp add: nat_digits.simps [of n] Let_def)
  next
    case False
    with 1 have "uint_loop 0 (nat_digits (n div 10)) = UOk (n div 10)" by simp
    moreover have "n div 10 < 1844674407370955162" using "1.prems" by simp
    moreover have "(48 + n mod 10) mod 256 = 48 + n mod 10" by simp
    ultimately show ?thesis
      using False "1.prems" by (simp add: nat_digits.simps [of n] uint_loop_append Let_def)
  qed
qed

lemma nat_digits_nonempty [simp]: "nat_digits n \<noteq> []"
  by (subst nat_digits.simps) simp

lemma digit_char_neq:
  fixes n :: nat
  assumes "n < 10" and "of_char c < (48::nat)"
  shows "char_of (48 + n) \<noteq> c"
proof
  assume "char_of (48 + n) = c"
  then have "(48 + n) mod 256 = of_char c" by (metis of_char_of)
  with assms show False by simp
qed

lemma hd_nat_digits: "hd (nat_digits n) \<noteq> CHR ''-'' \<and> hd (nat_digits n) \<noteq> CHR ''+''"
proof (induction n rule: nat_digits.induct)
  case (1 n)
  show ?case
  proof (cases "n < 10")
    case True
    then show ?thesis by (simp add: nat_digits.simps [of n] digit_char_neq)
  next
    case False
    with 1 show ?thesis by (simp add: nat_digits.simps [of n])
  qed
qed

lemma ParseInt_FormatInt: "int64_range n \<Longrightarrow> ParseInt (FormatInt n) = ParseOk n"
  using hd_nat_digits [of "nat n"]
  by (auto simp: ParseInt_def FormatInt_def int64_range_def uint_loop_digits Let_def nat_less_iff)

end
