(* ===== verification/Json.thy ===== *)
theory Json
  imports Go_Text
begin

text \<open>
  \<^verbatim>\<open>encoding/json\<close> as the program uses it. \<open>json\<close> is the tree \<^verbatim>\<open>Decode\<close> builds in an \<^verbatim>\<open>any\<close> with
  \<^verbatim>\<open>UseNumber\<close> (a number keeps its literal; an object here still lists its members in textual order,
  duplicates included). \<open>json_value\<close> is the scanner together with \<^verbatim>\<open>unquote\<close>: it reads one value and returns the
  rest of the input, with the nesting limit of 10000. \<open>go_value\<close> turns member lists into Go maps (the last
  duplicate wins, keys sorted as \<^verbatim>\<open>Marshal\<close> emits them), \<open>json_print\<close> is \<^verbatim>\<open>Marshal\<close> with HTML escaping.
  \<open>json_fields\<close> splits a top-level object into its members with their raw text, which is what decoding into
  a struct consumes.

  The parser carries fuel; \<open>json_next_fuel\<close> in \<open>Json_Props\<close> shows that what \<open>json_next\<close> provides is always enough.
\<close>

datatype json = JNull | JBool bool | JNum string | JStr string | JArr "json list" | JObj "(string \<times> json) list"

abbreviation byte :: "char \<Rightarrow> nat" where
  "byte c \<equiv> of_char c"

section \<open>UTF-8\<close>

definition between :: "nat \<Rightarrow> nat \<Rightarrow> char \<Rightarrow> bool" where
  "between lo hi c \<longleftrightarrow> lo \<le> byte c \<and> byte c \<le> hi"

abbreviation cont :: "char \<Rightarrow> bool" where
  "cont \<equiv> between 0x80 0xBF"

text \<open>The size of the rune a byte string starts with; 0 where \<^verbatim>\<open>utf8.DecodeRune\<close> reports an encoding error.\<close>

fun rune_size :: "bytes \<Rightarrow> nat" where
  "rune_size [] = 0"
| "rune_size (a # s) =
     (if byte a < 0x80 then 1
      else case s of
        [] \<Rightarrow> 0
      | b # s' \<Rightarrow>
         (if between 0xC2 0xDF a then (if cont b then 2 else 0)
          else case s' of
            [] \<Rightarrow> 0
          | c # s'' \<Rightarrow>
             (if between 0xE0 0xEF a
              then (if (if byte a = 0xE0 then between 0xA0 0xBF b
                        else if byte a = 0xED then between 0x80 0x9F b else cont b) \<and> cont c then 3 else 0)
              else case s'' of
                [] \<Rightarrow> 0
              | d # _ \<Rightarrow>
                 (if between 0xF0 0xF4 a
                  then (if (if byte a = 0xF0 then between 0x90 0xBF b
                            else if byte a = 0xF4 then between 0x80 0x8F b else cont b) \<and> cont c \<and> cont d
                        then 4 else 0)
                  else 0))))"

definition encode_rune :: "nat \<Rightarrow> bytes" where
  "encode_rune r =
     (if r < 0x80 then [char_of r]
      else if r < 0x800 then [char_of (0xC0 + r div 64), char_of (0x80 + r mod 64)]
      else if r < 0x10000 then [char_of (0xE0 + r div 4096), char_of (0x80 + r div 64 mod 64), char_of (0x80 + r mod 64)]
      else [char_of (0xF0 + r div 262144), char_of (0x80 + r div 4096 mod 64), char_of (0x80 + r div 64 mod 64),
            char_of (0x80 + r mod 64)])"

definition replacement :: bytes where
  "replacement = [CHR 0xEF, CHR 0xBF, CHR 0xBD]"

section \<open>Reading\<close>

definition json_space :: "char \<Rightarrow> bool" where
  "json_space c \<longleftrightarrow> c = CHR '' '' \<or> c = CHR 0x09 \<or> c = CHR 0x0A \<or> c = CHR 0x0D"

abbreviation skip_space :: "bytes \<Rightarrow> bytes" where
  "skip_space \<equiv> dropWhile json_space"

fun hex4 :: "bytes \<Rightarrow> (nat \<times> bytes) option" where
  "hex4 (a # b # c # d # s) =
     (case (from_hex a, from_hex b, from_hex c, from_hex d) of
        (Some w, Some x, Some y, Some z) \<Rightarrow> Some (((w * 16 + x) * 16 + y) * 16 + z, s)
      | _ \<Rightarrow> None)"
| "hex4 _ = None"

text \<open>The rune of \<^verbatim>\<open>\uXXXX\<close>: a surrogate pair is joined, a lone surrogate becomes U+FFFD.\<close>

definition low_surrogate :: "bytes \<Rightarrow> (nat \<times> bytes) option" where
  "low_surrogate s =
     (if has_prefix s [CHR 0x5C, CHR ''u'']
      then case hex4 (drop 2 s) of
             Some (l, rest) \<Rightarrow> if 0xDC00 \<le> l \<and> l \<le> 0xDFFF then Some (l, rest) else None
           | None \<Rightarrow> None
      else None)"

definition unicode_escape :: "bytes \<Rightarrow> (bytes \<times> bytes) option" where
  "unicode_escape s =
     (case hex4 s of
        None \<Rightarrow> None
      | Some (r, rest) \<Rightarrow>
          (if 0xD800 \<le> r \<and> r \<le> 0xDBFF
           then case low_surrogate rest of
                  Some (l, rest') \<Rightarrow> Some (encode_rune ((r - 0xD800) * 1024 + (l - 0xDC00) + 0x10000), rest')
                | None \<Rightarrow> Some (replacement, rest)
           else if 0xDC00 \<le> r \<and> r \<le> 0xDFFF then Some (replacement, rest)
           else Some (encode_rune r, rest)))"

definition simple_escape :: "char \<Rightarrow> char option" where
  "simple_escape c =
     map_of [(CHR 0x22, CHR 0x22), (CHR 0x5C, CHR 0x5C), (CHR ''/'', CHR ''/''), (CHR ''b'', CHR 0x08),
       (CHR ''f'', CHR 0x0C), (CHR ''n'', CHR 0x0A), (CHR ''r'', CHR 0x0D), (CHR ''t'', CHR 0x09)] c"

text \<open>The text of a string literal, its opening quote already read.\<close>

fun json_string :: "nat \<Rightarrow> bytes \<Rightarrow> (string \<times> bytes) option" where
  "json_string 0 s = None"
| "json_string (Suc n) [] = None"
| "json_string (Suc n) (c # s) =
     (if c = CHR 0x22 then Some ([], s)
      else if c = CHR 0x5C then
        (case s of
           [] \<Rightarrow> None
         | e # s' \<Rightarrow>
             (case (if e = CHR ''u'' then unicode_escape s' else map_option (\<lambda>x. ([x], s')) (simple_escape e)) of
                None \<Rightarrow> None
              | Some (t, rest) \<Rightarrow> map_option (\<lambda>(u, r). (t @ u, r)) (json_string n rest)))
      else if byte c < 0x20 then None
      else let k = rune_size (c # s) in
        if k = 0 then map_option (\<lambda>(u, r). (replacement @ u, r)) (json_string n s)
        else map_option (\<lambda>(u, r). (take k (c # s) @ u, r)) (json_string n (drop k (c # s))))"

definition digit :: "char \<Rightarrow> bool" where
  "digit c \<longleftrightarrow> between 48 57 c"

definition split_digits :: "bytes \<Rightarrow> bytes \<times> bytes" where
  "split_digits s = (takeWhile digit s, dropWhile digit s)"

definition int_part :: "bytes \<Rightarrow> (bytes \<times> bytes) option" where
  "int_part s =
     (case s of
        [] \<Rightarrow> None
      | c # s' \<Rightarrow> if c = CHR ''0'' then Some ([c], s') else if digit c then Some (split_digits s) else None)"

definition frac_part :: "bytes \<Rightarrow> (bytes \<times> bytes) option" where
  "frac_part s =
     (case s of
        [] \<Rightarrow> Some ([], s)
      | c # s' \<Rightarrow>
          (if c \<noteq> CHR ''.'' then Some ([], s)
           else let (d, r) = split_digits s' in if d = [] then None else Some (c # d, r)))"

definition exp_part :: "bytes \<Rightarrow> (bytes \<times> bytes) option" where
  "exp_part s =
     (case s of
        [] \<Rightarrow> Some ([], s)
      | c # s' \<Rightarrow>
          (if c \<noteq> CHR ''e'' \<and> c \<noteq> CHR ''E'' then Some ([], s)
           else let sg = takeWhile (\<lambda>x. x = CHR ''+'' \<or> x = CHR ''-'') (take 1 s');
                    (d, r) = split_digits (drop (length sg) s')
                in if d = [] then None else Some (c # sg @ d, r)))"

definition json_number :: "bytes \<Rightarrow> (string \<times> bytes) option" where
  "json_number s =
     (let sg = takeWhile (\<lambda>x. x = CHR ''-'') (take 1 s) in
      case int_part (drop (length sg) s) of
        None \<Rightarrow> None
      | Some (i, s1) \<Rightarrow>
          (case frac_part s1 of
             None \<Rightarrow> None
           | Some (f, s2) \<Rightarrow>
               (case exp_part s2 of None \<Rightarrow> None | Some (e, s3) \<Rightarrow> Some (sg @ i @ f @ e, s3))))"

definition json_literal :: "bytes \<Rightarrow> (json \<times> bytes) option" where
  "json_literal s =
     (if has_prefix s ''null'' then Some (JNull, drop 4 s)
      else if has_prefix s ''true'' then Some (JBool True, drop 4 s)
      else if has_prefix s ''false'' then Some (JBool False, drop 5 s)
      else map_option (\<lambda>(t, r). (JNum t, r)) (json_number s))"

definition max_nesting :: nat where
  "max_nesting = 10000"

text \<open>
  \<open>json_value\<close> reads a value after white space; \<open>json_elems\<close> the rest of a non-empty array from its next
  element on; \<open>json_members\<close> the rest of a non-empty object from its next key on.
\<close>

fun json_value :: "nat \<Rightarrow> nat \<Rightarrow> bytes \<Rightarrow> (json \<times> bytes) option"
  and json_elems :: "nat \<Rightarrow> nat \<Rightarrow> bytes \<Rightarrow> (json list \<times> bytes) option"
  and json_members :: "nat \<Rightarrow> nat \<Rightarrow> bytes \<Rightarrow> ((string \<times> json) list \<times> bytes) option" where
  "json_value 0 depth s = None"
| "json_value (Suc n) depth s =
     (case skip_space s of
        [] \<Rightarrow> None
      | c # s' \<Rightarrow>
          (if c = CHR 0x22 then map_option (\<lambda>(t, r). (JStr t, r)) (json_string (length s) s')
           else if c = CHR ''['' then
             (if depth \<ge> max_nesting then None
              else case skip_space s' of
                     [] \<Rightarrow> None
                   | d # s'' \<Rightarrow>
                       (if d = CHR '']'' then Some (JArr [], s'')
                        else map_option (\<lambda>(xs, r). (JArr xs, r)) (json_elems n (Suc depth) s')))
           else if c = CHR ''{'' then
             (if depth \<ge> max_nesting then None
              else case skip_space s' of
                     [] \<Rightarrow> None
                   | d # s'' \<Rightarrow>
                       (if d = CHR ''}'' then Some (JObj [], s'')
                        else map_option (\<lambda>(ms, r). (JObj ms, r)) (json_members n (Suc depth) s')))
           else json_literal (c # s')))"
| "json_elems 0 depth s = None"
| "json_elems (Suc n) depth s =
     (case json_value n depth s of
        None \<Rightarrow> None
      | Some (v, r) \<Rightarrow>
          (case skip_space r of
             [] \<Rightarrow> None
           | c # r' \<Rightarrow>
               (if c = CHR '']'' then Some ([v], r')
                else if c = CHR '','' then map_option (\<lambda>(vs, q). (v # vs, q)) (json_elems n depth r')
                else None)))"
| "json_members 0 depth s = None"
| "json_members (Suc n) depth s =
     (case skip_space s of
        [] \<Rightarrow> None
      | q # s1 \<Rightarrow>
          (if q \<noteq> CHR 0x22 then None
           else case json_string (length s) s1 of
                  None \<Rightarrow> None
                | Some (k, s2) \<Rightarrow>
                    (case skip_space s2 of
                       [] \<Rightarrow> None
                     | co # s3 \<Rightarrow>
                         (if co \<noteq> CHR '':'' then None
                          else case json_value n depth s3 of
                                 None \<Rightarrow> None
                               | Some (v, r) \<Rightarrow>
                                   (case skip_space r of
                                      [] \<Rightarrow> None
                                    | c # r' \<Rightarrow>
                                        (if c = CHR ''}'' then Some ([(k, v)], r')
                                         else if c = CHR '','' then
                                           map_option (\<lambda>(ms, t). ((k, v) # ms, t)) (json_members n depth r')
                                         else None))))))"

text \<open>One value from the front of a stream; \<^verbatim>\<open>json.Valid\<close> and \<^verbatim>\<open>Decode\<close> of a whole document.\<close>

definition json_next :: "bytes \<Rightarrow> (json \<times> bytes) option" where
  "json_next s = json_value (2 * length s + 1) 0 s"

definition json_valid :: "bytes \<Rightarrow> bool" where
  "json_valid s = (case json_next s of None \<Rightarrow> False | Some (v, r) \<Rightarrow> skip_space r = [])"

section \<open>Go values and printing\<close>

fun str_le :: "string \<Rightarrow> string \<Rightarrow> bool" where
  "str_le [] t \<longleftrightarrow> True"
| "str_le (x # s) [] \<longleftrightarrow> False"
| "str_le (x # s) (y # t) \<longleftrightarrow> byte x < byte y \<or> (x = y \<and> str_le s t)"

text \<open>\<open>m[k] = v\<close> on a Go map listed in key order.\<close>

fun map_put :: "string \<Rightarrow> 'v \<Rightarrow> (string \<times> 'v) list \<Rightarrow> (string \<times> 'v) list" where
  "map_put k v [] = [(k, v)]"
| "map_put k v ((k', v') # m) =
     (if k = k' then (k, v) # m else if str_le k k' then (k, v) # (k', v') # m else (k', v') # map_put k v m)"

definition go_map :: "(string \<times> 'v) list \<Rightarrow> (string \<times> 'v) list" where
  "go_map ms = foldl (\<lambda>m (k, v). map_put k v m) [] ms"

fun go_value :: "json \<Rightarrow> json" where
  "go_value (JArr vs) = JArr (map go_value vs)"
| "go_value (JObj ms) = JObj (go_map (map (\<lambda>m. (fst m, go_value (snd m))) ms))"
| "go_value v = v"

definition hex_escape :: "nat \<Rightarrow> bytes" where
  "hex_escape n = [CHR 0x5C, CHR ''u'', hex_digit (n div 4096 mod 16), hex_digit (n div 256 mod 16),
     hex_digit (n div 16 mod 16), hex_digit (n mod 16)]"

definition escape_byte :: "char \<Rightarrow> bytes" where
  "escape_byte c =
     (if c = CHR 0x22 \<or> c = CHR 0x5C then [CHR 0x5C, c]
      else if c = CHR 0x08 then [CHR 0x5C, CHR ''b'']
      else if c = CHR 0x0C then [CHR 0x5C, CHR ''f'']
      else if c = CHR 0x0A then [CHR 0x5C, CHR ''n'']
      else if c = CHR 0x0D then [CHR 0x5C, CHR ''r'']
      else if c = CHR 0x09 then [CHR 0x5C, CHR ''t'']
      else if byte c < 0x20 \<or> c = CHR ''<'' \<or> c = CHR ''>'' \<or> c = CHR ''&'' then hex_escape (byte c)
      else [c])"

text \<open>U+2028 and U+2029 are escaped although valid: they end lines in JavaScript.\<close>

definition line_separator :: "bytes \<Rightarrow> nat option" where
  "line_separator t =
     (if t = [CHR 0xE2, CHR 0x80, CHR 0xA8] then Some 0x2028
      else if t = [CHR 0xE2, CHR 0x80, CHR 0xA9] then Some 0x2029 else None)"

fun print_text :: "nat \<Rightarrow> string \<Rightarrow> bytes" where
  "print_text 0 s = []"
| "print_text (Suc n) [] = []"
| "print_text (Suc n) (c # s) =
     (if byte c < 0x80 then escape_byte c @ print_text n s
      else let k = rune_size (c # s) in
        if k = 0 then hex_escape 0xFFFD @ print_text n s
        else (case line_separator (take k (c # s)) of None \<Rightarrow> take k (c # s) | Some u \<Rightarrow> hex_escape u) @
          print_text n (drop k (c # s)))"

definition print_string :: "string \<Rightarrow> bytes" where
  "print_string s = CHR 0x22 # print_text (length s) s @ [CHR 0x22]"

fun join :: "bytes \<Rightarrow> bytes list \<Rightarrow> bytes" where
  "join sep [] = []"
| "join sep [x] = x"
| "join sep (x # y # xs) = x @ sep @ join sep (y # xs)"

fun json_print :: "json \<Rightarrow> bytes" where
  "json_print JNull = ''null''"
| "json_print (JBool b) = (if b then ''true'' else ''false'')"
| "json_print (JNum t) = t"
| "json_print (JStr s) = print_string s"
| "json_print (JArr vs) = ''['' @ join '','' (map json_print vs) @ '']''"
| "json_print (JObj ms) =
     ''{'' @ join '','' (map (\<lambda>m. print_string (fst m) @ '':'' @ json_print (snd m)) ms) @ ''}''"

section \<open>Decoding into a struct\<close>

text \<open>The members of a top-level object: decoded key, raw text of the value, value.\<close>

type_synonym field = "string \<times> bytes \<times> json"

fun json_fields :: "nat \<Rightarrow> bytes \<Rightarrow> field list option" where
  "json_fields 0 s = None"
| "json_fields (Suc n) s =
     (case skip_space s of
        [] \<Rightarrow> None
      | q # s1 \<Rightarrow>
          (if q \<noteq> CHR 0x22 then None
           else case json_string (length s) s1 of
                  None \<Rightarrow> None
                | Some (k, s2) \<Rightarrow>
                    (let s3 = skip_space (tl (skip_space s2)) in
                     case json_value (2 * length s3 + 1) 1 s3 of
                       None \<Rightarrow> None
                     | Some (v, r) \<Rightarrow>
                         (case skip_space r of
                            [] \<Rightarrow> None
                          | c # r' \<Rightarrow>
                              (if c = CHR ''}'' then Some [(k, take (length s3 - length r) s3, v)]
                               else map_option (Cons (k, take (length s3 - length r) s3, v)) (json_fields n r'))))))"

text \<open>The folding under which a key matches a field name (the long s and the Kelvin sign fold to ASCII).\<close>

fun fold_name :: "string \<Rightarrow> string" where
  "fold_name [] = []"
| "fold_name (c # s) =
     (if has_prefix (c # s) [CHR 0xC5, CHR 0xBF] then CHR ''S'' # fold_name (drop 1 s)
      else if has_prefix (c # s) [CHR 0xE2, CHR 0x84, CHR 0xAA] then CHR ''K'' # fold_name (drop 2 s)
      else (if between 97 122 c then char_of (byte c - 32) else c) # fold_name s)"

definition field_of :: "string list \<Rightarrow> string \<Rightarrow> string option" where
  "field_of names k = (if k \<in> set names then Some k else find (\<lambda>f. fold_name f = fold_name k) names)"

text \<open>
  A setter stores a value in the named field, or reports a type error (\<open>None\<close>). \<^verbatim>\<open>Decode\<close> with
  \<^verbatim>\<open>DisallowUnknownFields\<close>: every member must name a field and fit it; \<^verbatim>\<open>null\<close> in place of the object changes nothing.
\<close>

type_synonym 'a setter = "string \<Rightarrow> bytes \<Rightarrow> json \<Rightarrow> 'a \<Rightarrow> 'a option"

fun set_fields :: "string list \<Rightarrow> 'a setter \<Rightarrow> field list \<Rightarrow> 'a \<Rightarrow> 'a option" where
  "set_fields names put [] x = Some x"
| "set_fields names put ((k, raw, v) # fs) x =
     (case field_of names k of
        None \<Rightarrow> None
      | Some f \<Rightarrow> (case put f raw v x of None \<Rightarrow> None | Some x' \<Rightarrow> set_fields names put fs x'))"

definition decode_struct :: "string list \<Rightarrow> 'a setter \<Rightarrow> json \<Rightarrow> bytes \<Rightarrow> 'a \<Rightarrow> 'a option" where
  "decode_struct names put v s x =
     (case v of
        JNull \<Rightarrow> Some x
      | JObj [] \<Rightarrow> Some x
      | JObj _ \<Rightarrow> Option.bind (json_fields (length s) (tl (skip_space s))) (\<lambda>fs. set_fields names put fs x)
      | _ \<Rightarrow> None)"

definition text_field :: "json \<Rightarrow> (string \<Rightarrow> 'a) \<Rightarrow> 'a \<Rightarrow> 'a option" where
  "text_field v f x = (case v of JStr t \<Rightarrow> Some (f t) | JNull \<Rightarrow> Some x | _ \<Rightarrow> None)"

definition int_field :: "json \<Rightarrow> (int \<Rightarrow> 'a) \<Rightarrow> 'a \<Rightarrow> 'a option" where
  "int_field v f x =
     (case v of
        JNum t \<Rightarrow> (case ParseInt t of ParseOk n \<Rightarrow> Some (f n) | _ \<Rightarrow> None)
      | JNull \<Rightarrow> Some x
      | _ \<Rightarrow> None)"

definition bool_ptr_field :: "json \<Rightarrow> (bool option \<Rightarrow> 'a) \<Rightarrow> 'a option" where
  "bool_ptr_field v f = (case v of JBool b \<Rightarrow> Some (f (Some b)) | JNull \<Rightarrow> Some (f None) | _ \<Rightarrow> None)"

end
