(* ===== verification/Retry.thy ===== *)
theory Retry
  imports Prelude
begin

text \<open>
  \<^verbatim>\<open>src/internal/delivery/retry.go\<close>: which HTTP outcomes are retried and how long the next attempt
  waits. \<open>Backoff\<close> computes in 64-bit durations, so every multiplication wraps; \<open>None\<close> is the panic of
  \<^verbatim>\<open>rand.Int64N\<close> on an argument that is not positive. The random draw is the parameter \<open>draw\<close>, of which
  only \<open>0 \<le> draw n < n\<close> is used.
\<close>

definition second :: duration where
  "second = 1000000000"

definition minute :: duration where
  "minute = 60 * second"

definition hour :: duration where
  "hour = 60 * minute"

definition Retryable :: "int \<Rightarrow> bool" where
  "Retryable status \<longleftrightarrow> status = 0 \<or> status = 408 \<or> status = 429 \<or> status \<ge> 500"

definition clamp_attempt :: "int \<Rightarrow> int" where
  "clamp_attempt attempt =
     (let a = (if attempt < 1 then 1 else attempt) in if a > 10 then 10 else a)"

definition backoff_ceiling :: "int \<Rightarrow> int \<Rightarrow> duration" where
  "backoff_ceiling attempt base =
     (let d = go_mul (go_mul base second) (2 ^ nat (clamp_attempt attempt - 1))
      in if d > hour then hour else d)"

definition Backoff :: "(int \<Rightarrow> int) \<Rightarrow> int \<Rightarrow> int \<Rightarrow> duration option" where
  "Backoff draw attempt base =
     (let d = backoff_ceiling attempt base; n = go_add (go_quot d 2) 1
      in if n \<le> 0 then None else Some (go_add (go_quot d 2) (draw n)))"

definition draw_ok :: "(int \<Rightarrow> int) \<Rightarrow> bool" where
  "draw_ok draw \<longleftrightarrow> (\<forall>n > 0. 0 \<le> draw n \<and> draw n < n)"

lemmas duration_defs = second_def minute_def hour_def

lemma clamp_attempt_bounds: "1 \<le> clamp_attempt a" "clamp_attempt a \<le> 10"
  by (auto simp: clamp_attempt_def Let_def)

lemma clamp_power_bounds:
  "(1::int) \<le> 2 ^ nat (clamp_attempt a - 1)" "(2::int) ^ nat (clamp_attempt a - 1) \<le> 512"
proof -
  have "nat (clamp_attempt a - 1) \<le> 9"
    using clamp_attempt_bounds [of a] by simp
  then have "(2::int) ^ nat (clamp_attempt a - 1) \<le> 2 ^ 9"
    by (intro power_increasing) simp_all
  then show "(2::int) ^ nat (clamp_attempt a - 1) \<le> 512" by simp
qed simp

text \<open>With a base delay the schema admits, no product leaves the 64-bit range.\<close>

lemma backoff_ceiling_exact:
  assumes "1 \<le> base" and "base \<le> 3600"
  shows "backoff_ceiling attempt base = min (base * second * 2 ^ nat (clamp_attempt attempt - 1)) hour"
proof -
  let ?p = "(2::int) ^ nat (clamp_attempt attempt - 1)"
  have p: "1 \<le> ?p" "?p \<le> 512" by (rule clamp_power_bounds)+
  have b: "0 \<le> base * second" "base * second \<le> 3600 * 1000000000"
    using assms by (simp_all add: second_def)
  define x where "x = base * second * ?p"
  have "base * second * ?p \<le> (3600 * 1000000000) * 512"
    by (rule mult_mono) (use p b in simp_all)
  moreover have "0 \<le> base * second * ?p" using b p by simp
  ultimately have "int64_range x"
    unfolding x_def [symmetric] by (simp add: int64_range_def)
  moreover have "int64_range (base * second)"
    using b by (simp add: int64_range_def)
  ultimately have "int64_range (base * second * ?p)" and "int64_range (base * second)"
    by (simp_all add: x_def)
  then show ?thesis
    by (simp add: backoff_ceiling_def go_mul_def Let_def min_def)
qed

lemma backoff_ceiling_bounds:
  assumes "1 \<le> base" and "base \<le> 3600"
  shows "second \<le> backoff_ceiling attempt base" and "backoff_ceiling attempt base \<le> hour"
proof -
  have "1 * second * 1 \<le> base * second * 2 ^ nat (clamp_attempt attempt - 1)"
    using assms clamp_power_bounds [of attempt] by (intro mult_mono) (simp_all add: second_def)
  then show "second \<le> backoff_ceiling attempt base"
    using assms by (simp add: backoff_ceiling_exact duration_defs)
  show "backoff_ceiling attempt base \<le> hour"
    using assms by (simp add: backoff_ceiling_exact)
qed

lemma Backoff_value:
  fixes attempt base :: int
  assumes base: "1 \<le> base" "base \<le> 3600" and draw: "draw_ok draw"
  defines "d \<equiv> backoff_ceiling attempt base"
  shows "Backoff draw attempt base = Some (d div 2 + draw (d div 2 + 1))"
    and "0 \<le> draw (d div 2 + 1)" and "draw (d div 2 + 1) \<le> d div 2"
proof -
  have d: "second \<le> d" "d \<le> hour"
    unfolding d_def using base by (rule backoff_ceiling_bounds)+
  then have pos: "0 \<le> d" by (simp add: second_def)
  have half: "go_quot d 2 = d div 2"
    using pos by (simp add: go_quot_nonneg)
  have small: "0 \<le> d div 2" "d div 2 \<le> hour"
    using pos d by (simp_all add: duration_defs)
  then have n: "go_add (d div 2) 1 = d div 2 + 1"
    by (simp add: go_add_def int64_range_def duration_defs)
  from small have "0 < d div 2 + 1" by simp
  with draw have r: "0 \<le> draw (d div 2 + 1)" "draw (d div 2 + 1) < d div 2 + 1"
    unfolding draw_ok_def by blast+
  then show "0 \<le> draw (d div 2 + 1)" and "draw (d div 2 + 1) \<le> d div 2" by simp_all
  have "go_add (d div 2) (draw (d div 2 + 1)) = d div 2 + draw (d div 2 + 1)"
    using r small by (simp add: go_add_def int64_range_def duration_defs)
  then show "Backoff draw attempt base = Some (d div 2 + draw (d div 2 + 1))"
    using small by (simp add: Backoff_def d_def [symmetric] half n Let_def)
qed

text \<open>The clamp in closed form.\<close>

lemma clamp_attempt_closed: "clamp_attempt a = max 1 (min 10 a)"
  by (simp add: clamp_attempt_def Let_def)

text \<open>
  C9: for every retry policy an endpoint can have (base delay 1 to 3600 seconds) and every attempt
  number, \<open>Backoff\<close> returns without panicking: equal jitter with a one-hour cap. With \<open>d\<close> the least of
  \<open>base * 2^(k-1)\<close> seconds and one hour, in nanoseconds, where \<open>k\<close> is the attempt brought into 1..10 (an attempt
  below 1 waits as the first and one above 10 as the tenth), the delay is half of \<open>d\<close> plus a draw from 0 up to the
  other half, so it lies between \<open>d div 2\<close> and \<open>d\<close>; nothing overflows 64 bits on the way.
\<close>

theorem Backoff_equal_jitter:
  assumes "1 \<le> base" and "base \<le> 3600" and "draw_ok draw"
  shows "let d = min (base * 1000000000 * 2 ^ nat (max 1 (min 10 attempt) - 1)) 3600000000000;
             w = d div 2 + draw (d div 2 + 1)
         in Backoff draw attempt base = Some w \<and> d div 2 \<le> w \<and> w \<le> d"
proof -
  let ?d = "backoff_ceiling attempt base"
  have d: "min (base * 1000000000 * 2 ^ nat (max 1 (min 10 attempt) - 1)) 3600000000000 = ?d"
    using backoff_ceiling_exact [OF assms(1,2)] by (simp add: clamp_attempt_closed duration_defs)
  have "?d div 2 \<le> ?d div 2 + draw (?d div 2 + 1)" "?d div 2 + draw (?d div 2 + 1) \<le> ?d"
    using Backoff_value(2,3) [OF assms, of attempt] by simp_all
  then show ?thesis
    using Backoff_value(1) [OF assms, of attempt] unfolding Let_def d by blast
qed

lemma draw_zero_ok: "draw_ok (\<lambda>n. 0)"
  by (simp add: draw_ok_def)

text \<open>The eleventh attempt with a base of one second waits 256 seconds, half of the tenth's 512, and what is drawn.\<close>

theorem Backoff_equal_jitter_witness: "Backoff (\<lambda>n. 0) 11 1 = Some 256000000000"
  using Backoff_equal_jitter [OF _ _ draw_zero_ok, of 1 11] by simp

end
