(* ===== verification/Security.thy ===== *)
theory Security
  imports Go_Text Retry
begin

text \<open>
  \<^verbatim>\<open>src/internal/security/security.go\<close>: random tokens, hashes, passwords, the encryption of endpoint
  secrets and the webhook signature. The cryptographic primitives the code calls (SHA-256, HMAC, AES-GCM,
  bcrypt) are the parameter \<open>crypto\<close>; what is modelled is everything the code does around them: encodings,
  nonces and key sizes, prefixes, the signed message, the time window and the order of the checks.
  Random bytes are arguments; \<open>None\<close> for them is a failing entropy source.
\<close>

record crypto =
  sha256 :: "bytes \<Rightarrow> bytes"
  hmac_sha256 :: "bytes \<Rightarrow> bytes \<Rightarrow> bytes"
  gcm_seal :: "bytes \<Rightarrow> bytes \<Rightarrow> bytes \<Rightarrow> bytes \<Rightarrow> bytes"
  gcm_open :: "bytes \<Rightarrow> bytes \<Rightarrow> bytes \<Rightarrow> bytes \<Rightarrow> bytes option"
  bcrypt_generate :: "bytes \<Rightarrow> string + string"
  bcrypt_compare :: "string \<Rightarrow> bytes \<Rightarrow> bool"

datatype security_error = PasswordLength | BcryptError string | KeySize | Entropy | Base64Error
  | InvalidCiphertext | AuthFailed

definition Token :: "string \<Rightarrow> bytes option \<Rightarrow> string option" where
  "Token prefix rnd = map_option (\<lambda>b. prefix @ b64_encode b64_url b) rnd"

definition Hash :: "crypto \<Rightarrow> string \<Rightarrow> string" where
  "Hash cr s = hex_encode (sha256 cr s)"

definition Password :: "crypto \<Rightarrow> string \<Rightarrow> security_error + string" where
  "Password cr s =
     (if length s < 12 \<or> length s > 72 then Inl PasswordLength
      else map_err BcryptError (bcrypt_generate cr s))"

definition CheckPassword :: "crypto \<Rightarrow> string \<Rightarrow> string \<Rightarrow> bool" where
  "CheckPassword cr hash password = bcrypt_compare cr hash password"

definition aes_key_ok :: "bytes \<Rightarrow> bool" where
  "aes_key_ok key \<longleftrightarrow> length key \<in> {16, 24, 32}"

definition gcm_nonce_size :: nat where
  "gcm_nonce_size = 12"

definition endpoint_aad :: bytes where
  "endpoint_aad = ''pulseroute:endpoint:v1''"

definition Encrypt :: "crypto \<Rightarrow> bytes \<Rightarrow> bytes option \<Rightarrow> string \<Rightarrow> security_error + string" where
  "Encrypt cr key rnd s =
     (if \<not> aes_key_ok key then Inl KeySize
      else case rnd of
             None \<Rightarrow> Inl Entropy
           | Some nonce \<Rightarrow> Inr (b64_encode b64_std (nonce @ gcm_seal cr key nonce s endpoint_aad)))"

definition Decrypt :: "crypto \<Rightarrow> bytes \<Rightarrow> string \<Rightarrow> security_error + string" where
  "Decrypt cr key s =
     (case b64_decode b64_std s of
        None \<Rightarrow> Inl Base64Error
      | Some b \<Rightarrow>
          (if \<not> aes_key_ok key then Inl KeySize
           else if length b < gcm_nonce_size then Inl InvalidCiphertext
           else case gcm_open cr key (take gcm_nonce_size b) (drop gcm_nonce_size b) endpoint_aad of
                  None \<Rightarrow> Inl AuthFailed
                | Some p \<Rightarrow> Inr p))"

definition Sign :: "crypto \<Rightarrow> string \<Rightarrow> string \<Rightarrow> bytes \<Rightarrow> string" where
  "Sign cr secret timestamp body =
     ''v1='' @ hex_encode (hmac_sha256 cr secret ((timestamp @ ''.'') @ body))"

definition Verify :: "crypto \<Rightarrow> string \<Rightarrow> string \<Rightarrow> string \<Rightarrow> bytes \<Rightarrow> int \<Rightarrow> bool" where
  "Verify cr secret timestamp signature body now =
     (case ParseInt timestamp of
        ParseOk seconds \<Rightarrow>
          (let t = time_Unix seconds in
           if t < now - 5 * minute \<or> t > now + 5 * minute then False
           else case hex_decode (trim_prefix signature ''v1='') of
                  None \<Rightarrow> False
                | Some given \<Rightarrow>
                    (if \<not> has_prefix signature ''v1='' then False
                     else case hex_decode (trim_prefix (Sign cr secret timestamp body) ''v1='') of
                            None \<Rightarrow> given = []
                          | Some expected \<Rightarrow> given = expected))
      | _ \<Rightarrow> False)"

text \<open>A concrete instance of the primitives, for the closed instances of the properties.\<close>

definition sample_crypto :: crypto where
  "sample_crypto = \<lparr>sha256 = (\<lambda>b. take 32 (b @ replicate 32 CHR 0x00)), hmac_sha256 = (\<lambda>k m. k @ m),
     gcm_seal = (\<lambda>k n p a. p), gcm_open = (\<lambda>k n c a. Some c), bcrypt_generate = Inr,
     bcrypt_compare = (\<lambda>h p. h = p)\<rparr>"

section \<open>Properties\<close>

lemma Sign_mac [simp]:
  "hex_decode (trim_prefix (Sign cr secret timestamp body) ''v1='') =
     Some (hmac_sha256 cr secret (timestamp @ ''.'' @ body))"
  unfolding Sign_def by (simp only: trim_prefix_append hex_decode_encode append_assoc)

lemma has_prefix_iff: "has_prefix s p \<longleftrightarrow> (\<exists>r. s = p @ r)"
  by (metis append_take_drop_id has_prefix_append has_prefix_def)

text \<open>
  A signature is accepted exactly when its timestamp is a decimal 64-bit integer within five minutes of
  the receiver's clock, and it is \<^verbatim>\<open>v1=\<close> followed by a hexadecimal spelling of the HMAC of the timestamp, a
  dot and the raw body under the shared secret.
\<close>

lemma Verify_iff:
  "Verify cr secret timestamp signature body now \<longleftrightarrow>
    (\<exists>seconds h. ParseInt timestamp = ParseOk seconds \<and>
       now - 5 * minute \<le> time_Unix seconds \<and> time_Unix seconds \<le> now + 5 * minute \<and>
       signature = ''v1='' @ h \<and> hex_decode h = Some (hmac_sha256 cr secret (timestamp @ ''.'' @ body)))"
proof (cases "ParseInt timestamp")
  case (ParseOk seconds)
  show ?thesis
  proof (cases "has_prefix signature ''v1=''")
    case True
    then obtain h where "signature = ''v1='' @ h" unfolding has_prefix_iff by blast
    moreover have "trim_prefix (''v1='' @ h) ''v1='' = h" "has_prefix (''v1='' @ h) ''v1=''"
      by (rule trim_prefix_append has_prefix_append)+
    ultimately show ?thesis
      using ParseOk by (auto simp: Verify_def Let_def split: option.splits)
  next
    case False
    then have "\<nexists>h. signature = ''v1='' @ h" unfolding has_prefix_iff .
    with False ParseOk show ?thesis
      by (auto simp: Verify_def Let_def split: option.splits)
  qed
qed (simp_all add: Verify_def)

lemma Verify_Sign:
  assumes "int64_range seconds"
  shows "Verify cr secret (FormatInt seconds) (Sign cr secret (FormatInt seconds) body) body now \<longleftrightarrow>
    now - 5 * minute \<le> time_Unix seconds \<and> time_Unix seconds \<le> now + 5 * minute"
proof -
  have "has_prefix (Sign cr secret (FormatInt seconds) body) ''v1=''"
    unfolding Sign_def by (rule has_prefix_append)
  then show ?thesis
    using ParseInt_FormatInt [OF assms] by (auto simp: Verify_def Let_def)
qed

text \<open>
  C28: an endpoint secret encrypted under a 16, 24 or 32 byte key decrypts to itself under the same key, when
  AES-GCM opens what it sealed; and \<open>Decrypt\<close> yields a plaintext only from a base64 text that holds a
  12-byte nonce and a ciphertext the primitive authenticates under the \<^verbatim>\<open>pulseroute:endpoint:v1\<close> tag.
\<close>

theorem Encrypt_Decrypt:
  assumes gcm: "\<forall>k n p a. gcm_open cr k n (gcm_seal cr k n p a) a = Some p"
    and key: "aes_key_ok key" and nonce: "length nonce = gcm_nonce_size"
  shows "\<exists>c. Encrypt cr key (Some nonce) s = Inr c \<and> Decrypt cr key c = Inr s \<and>
    (\<forall>c' p. Decrypt cr key c' = Inr p \<longrightarrow>
       (\<exists>n ct. length n = 12 \<and> b64_decode b64_std c' = Some (n @ ct) \<and>
          gcm_open cr key n ct ''pulseroute:endpoint:v1'' = Some p))"
proof -
  have inv: "\<exists>n ct. length n = 12 \<and> b64_decode b64_std c' = Some (n @ ct) \<and>
      gcm_open cr key n ct ''pulseroute:endpoint:v1'' = Some p" if "Decrypt cr key c' = Inr p" for c' p
  proof -
    from that obtain b where "b64_decode b64_std c' = Some b" "12 \<le> length b"
      "gcm_open cr key (take 12 b) (drop 12 b) ''pulseroute:endpoint:v1'' = Some p"
      by (auto simp: Decrypt_def gcm_nonce_size_def endpoint_aad_def split: option.splits if_splits)
    then show ?thesis by (intro exI [of _ "take 12 b"] exI [of _ "drop 12 b"]) simp
  qed
  have "Decrypt cr key (b64_encode b64_std (nonce @ gcm_seal cr key nonce s endpoint_aad)) = Inr s"
    using assms by (simp add: Decrypt_def b64_std.decode_encode)
  with key inv show ?thesis by (simp add: Encrypt_def)
qed

theorem Encrypt_Decrypt_witness:
  "\<exists>c. Encrypt sample_crypto (replicate 32 CHR 0x07) (Some (replicate 12 CHR 0x01)) ''sensitive'' = Inr c \<and>
     Decrypt sample_crypto (replicate 32 CHR 0x07) c = Inr ''sensitive''"
  using Encrypt_Decrypt [of sample_crypto "replicate 32 CHR 0x07" "replicate 12 CHR 0x01" "''sensitive''"]
  by (auto simp: sample_crypto_def aes_key_ok_def gcm_nonce_size_def)

end
