(* ===== verification/Transport.thy ===== *)
theory Transport
  imports Go_Text Retry "HOL-Library.Word"
begin

unbundle bit_operations_syntax

text \<open>
  \<^verbatim>\<open>src/internal/security/transport.go\<close>: which destination URLs are accepted, which addresses may be
  dialled, and the dialler that resolves and checks before it connects. The library's URL parser and the DNS
  answer are arguments. \<open>net.IP\<close> is its byte slice; \<^verbatim>\<open>net/netip\<close> addresses are 32- and 128-bit words, and its
  predicates are the bit tests of the library.
\<close>

section \<open>Destination URLs\<close>

record url =
  url_Scheme :: string
  url_has_User :: bool
  url_Host :: string
  url_Hostname :: string
  url_Fragment :: string

datatype url_error = InvalidURL | RequiresHTTPS | TooLong

definition ValidateURL :: "(string \<Rightarrow> url option) \<Rightarrow> string \<Rightarrow> bool \<Rightarrow> url_error + unit" where
  "ValidateURL parse raw allowPrivate =
     (case parse raw of
        None \<Rightarrow> Inl InvalidURL
      | Some u \<Rightarrow>
          (if url_Hostname u = [] \<or> url_has_User u \<or> url_Fragment u \<noteq> [] then Inl InvalidURL
           else if url_Scheme u \<noteq> ''https'' \<and> \<not> (allowPrivate \<and> url_Scheme u = ''http'') then Inl RequiresHTTPS
           else if length raw > 2048 then Inl TooLong
           else Inr ()))"

section \<open>Addresses\<close>

datatype addr = Addr4 "32 word" | Addr6 "128 word"

definition be_value :: "bytes \<Rightarrow> nat" where
  "be_value bs = foldl (\<lambda>n b. n * 256 + of_char b) 0 bs"

definition AddrFromSlice :: "bytes \<Rightarrow> addr option" where
  "AddrFromSlice ip =
     (if length ip = 4 then Some (Addr4 (of_nat (be_value ip)))
      else if length ip = 16 then Some (Addr6 (of_nat (be_value ip))) else None)"

definition Unmap :: "addr \<Rightarrow> addr" where
  "Unmap a =
     (case a of
        Addr4 w \<Rightarrow> Addr4 w
      | Addr6 w \<Rightarrow> if drop_bit 32 w = 0xFFFF then Addr4 (ucast w) else Addr6 w)"

definition IsLoopback :: "addr \<Rightarrow> bool" where
  "IsLoopback a = (case a of Addr4 w \<Rightarrow> drop_bit 24 w = 127 | Addr6 w \<Rightarrow> w = 1)"

definition IsMulticast :: "addr \<Rightarrow> bool" where
  "IsMulticast a =
     (case a of Addr4 w \<Rightarrow> drop_bit 24 w AND 0xF0 = 0xE0 | Addr6 w \<Rightarrow> drop_bit 120 w = 0xFF)"

definition IsLinkLocalUnicast :: "addr \<Rightarrow> bool" where
  "IsLinkLocalUnicast a =
     (case a of Addr4 w \<Rightarrow> drop_bit 16 w = 0xA9FE | Addr6 w \<Rightarrow> drop_bit 112 w AND 0xFFC0 = 0xFE80)"

definition IsPrivate :: "addr \<Rightarrow> bool" where
  "IsPrivate a =
     (case a of
        Addr4 w \<Rightarrow> drop_bit 24 w = 10 \<or> (drop_bit 24 w = 172 \<and> drop_bit 16 w AND 0xF0 = 16) \<or> drop_bit 16 w = 0xC0A8
      | Addr6 w \<Rightarrow> drop_bit 120 w AND 0xFE = 0xFC)"

definition IsGlobalUnicast :: "addr \<Rightarrow> bool" where
  "IsGlobalUnicast a \<longleftrightarrow>
     a \<noteq> Addr4 0 \<and> a \<noteq> Addr4 0xFFFFFFFF \<and> a \<noteq> Addr6 0 \<and>
     \<not> IsLoopback a \<and> \<not> IsMulticast a \<and> \<not> IsLinkLocalUnicast a"

text \<open>A prefix contains an address of its own family whose leading bits agree.\<close>

definition prefix_contains :: "addr \<times> nat \<Rightarrow> addr \<Rightarrow> bool" where
  "prefix_contains p a =
     (case (fst p, a) of
        (Addr4 q, Addr4 w) \<Rightarrow> drop_bit (32 - snd p) (w XOR q) = 0
      | (Addr6 q, Addr6 w) \<Rightarrow> drop_bit (128 - snd p) (w XOR q) = 0
      | _ \<Rightarrow> False)"

text \<open>
  100.64.0.0/10, 192.0.0.0/24, 192.0.2.0/24, 198.18.0.0/15, 198.51.100.0/24, 203.0.113.0/24, 240.0.0.0/4,
  2001:db8::/32, 64:ff9b::/96
\<close>

definition blocked_prefixes :: "(addr \<times> nat) list" where
  "blocked_prefixes =
     [(Addr4 0x64400000, 10), (Addr4 0xC0000000, 24), (Addr4 0xC0000200, 24), (Addr4 0xC6120000, 15),
      (Addr4 0xC6336400, 24), (Addr4 0xCB007100, 24), (Addr4 0xF0000000, 4),
      (Addr6 0x20010DB8000000000000000000000000, 32), (Addr6 0x0064FF9B000000000000000000000000, 96)]"

definition PublicIP :: "bytes \<Rightarrow> bool" where
  "PublicIP ip =
     (case AddrFromSlice ip of
        None \<Rightarrow> False
      | Some a0 \<Rightarrow>
          (let a = Unmap a0 in
           if \<not> IsGlobalUnicast a \<or> IsPrivate a \<or> IsLoopback a \<or> IsLinkLocalUnicast a then False
           else \<not> list_ex (\<lambda>p. prefix_contains p a) blocked_prefixes))"

section \<open>The dialler and the client\<close>

datatype dial_error = BadAddress | LookupFailed | NoAddresses | Blocked

definition last_index :: "char \<Rightarrow> string \<Rightarrow> nat option" where
  "last_index c s = (if c \<in> set s then Some (length s - 1 - length (takeWhile (\<lambda>x. x \<noteq> c) (rev s))) else None)"

definition SplitHostPort :: "string \<Rightarrow> (string \<times> string) option" where
  "SplitHostPort hp =
     (case last_index CHR '':'' hp of
        None \<Rightarrow> None
      | Some i \<Rightarrow>
          (if hd hp = CHR ''[''
           then let e = length (takeWhile (\<lambda>x. x \<noteq> CHR '']'') hp) in
                if e = length hp \<or> e + 1 \<noteq> i then None
                else if CHR ''['' \<in> set (drop 1 hp) \<or> CHR '']'' \<in> set (drop (e + 1) hp) then None
                else Some (take (e - 1) (drop 1 hp), drop (i + 1) hp)
           else if CHR '':'' \<in> set (take i hp) \<or> CHR ''['' \<in> set hp \<or> CHR '']'' \<in> set hp then None
           else Some (take i hp, drop (i + 1) hp)))"

text \<open>\<open>DialContext\<close>: the address and port it connects to, or why it does not connect.\<close>

definition dial_target ::
  "(string \<Rightarrow> bytes list option) \<Rightarrow> bool \<Rightarrow> string \<Rightarrow> dial_error + (bytes \<times> string)" where
  "dial_target lookup allowPrivate address =
     (case SplitHostPort address of
        None \<Rightarrow> Inl BadAddress
      | Some (host, port) \<Rightarrow>
          (case lookup host of
             None \<Rightarrow> Inl LookupFailed
           | Some ips \<Rightarrow>
               (if ips = [] then Inl NoAddresses
                else if list_ex (\<lambda>ip. \<not> allowPrivate \<and> \<not> PublicIP ip) ips then Inl Blocked
                else Inr (hd ips, port))))"

record http_client =
  cl_Timeout :: duration
  cl_DialTimeout :: duration
  cl_KeepAlive :: duration
  cl_MaxIdleConns :: int
  cl_MaxIdleConnsPerHost :: int
  cl_IdleConnTimeout :: duration
  cl_TLSHandshakeTimeout :: duration
  cl_ResponseHeaderTimeout :: duration
  cl_dial :: "(string \<Rightarrow> bytes list option) \<Rightarrow> string \<Rightarrow> dial_error + (bytes \<times> string)"
  cl_follows_redirects :: bool

definition HTTPClient :: "duration \<Rightarrow> bool \<Rightarrow> http_client" where
  "HTTPClient timeout allowPrivate =
     \<lparr>cl_Timeout = timeout, cl_DialTimeout = timeout, cl_KeepAlive = 30 * second, cl_MaxIdleConns = 128,
      cl_MaxIdleConnsPerHost = 16, cl_IdleConnTimeout = 90 * second, cl_TLSHandshakeTimeout = 5 * second,
      cl_ResponseHeaderTimeout = timeout,
      cl_dial = (\<lambda>lookup address. dial_target lookup allowPrivate address), cl_follows_redirects = False\<rparr>"

text \<open>The addresses of a.b.c.d that the code refuses, in the decimal notation of its comments.\<close>

definition v4_blocked :: "nat \<Rightarrow> nat \<Rightarrow> nat \<Rightarrow> nat \<Rightarrow> bool" where
  "v4_blocked a b c d \<longleftrightarrow>
     (a = 0 \<and> b = 0 \<and> c = 0 \<and> d = 0) \<or> a = 10 \<or> a = 127 \<or> 224 \<le> a \<or>
     (a = 100 \<and> 64 \<le> b \<and> b < 128) \<or> (a = 169 \<and> b = 254) \<or> (a = 172 \<and> 16 \<le> b \<and> b < 32) \<or>
     (a = 192 \<and> (b = 168 \<or> (b = 0 \<and> (c = 0 \<or> c = 2)))) \<or>
     (a = 198 \<and> (b = 18 \<or> b = 19 \<or> (b = 51 \<and> c = 100))) \<or> (a = 203 \<and> b = 0 \<and> c = 113)"

section \<open>Bit tests as ranges\<close>

lemma be_value_4: "be_value [a, b, c, d] = ((of_char a * 256 + of_char b) * 256 + of_char c) * 256 + of_char d"
  by (simp add: be_value_def)

lemma be_value_bound: "be_value bs < 256 ^ length bs"
proof (induction bs rule: rev_induct)
  case (snoc x xs)
  have "be_value (xs @ [x]) = be_value xs * 256 + of_char x" by (simp add: be_value_def)
  also have "\<dots> < (be_value xs + 1) * 256" using nat_of_char_less_256 [of x] by simp
  also have "\<dots> \<le> 256 ^ length xs * 256" using snoc by (intro mult_right_mono) simp_all
  finally show ?case by simp
qed (simp add: be_value_def)

lemma xor_zero_iff: "(x XOR y :: 'a :: len word) = 0 \<longleftrightarrow> x = y"
  by (metis xor.assoc xor.commute xor.left_neutral xor_self_eq)

lemma and_field: "(n :: nat) AND (push_bit k (mask m)) = push_bit k (take_bit m (drop_bit k n))"
  by (rule bit_eqI) (auto simp: bit_simps)

lemma and_F0: "(n :: nat) AND 0xF0 = n div 16 mod 16 * 16"
  using and_field [of n 4 4] by (simp add: push_bit_eq_mult take_bit_eq_mod drop_bit_eq_div mask_eq_exp_minus_1)
lemma and_FFC0: "(n :: nat) AND 0xFFC0 = n div 64 mod 1024 * 64"
  using and_field [of n 6 10] by (simp add: push_bit_eq_mult take_bit_eq_mod drop_bit_eq_div mask_eq_exp_minus_1)
lemma and_FE: "(n :: nat) AND 0xFE = n div 2 mod 128 * 2"
  using and_field [of n 1 7] by (simp add: push_bit_eq_mult take_bit_eq_mod drop_bit_eq_div mask_eq_exp_minus_1)

lemma unat_drop: "unat (drop_bit k (w :: 'a :: len word)) = unat w div 2 ^ k"
  by (subst unat_drop_bit_eq) (simp add: drop_bit_eq_div)

lemma unat_and: "unat ((v :: 'a :: len word) AND w) = unat v AND unat w"
  by (rule unsigned_and_eq)

lemmas word_tests = word_unat_eq_iff unat_drop unat_and and_F0 and_FE and_FFC0

lemma prefix_tests:
  "prefix_contains (Addr4 q, n) (Addr4 w) \<longleftrightarrow> unat w div 2 ^ (32 - n) = unat q div 2 ^ (32 - n)"
  "prefix_contains (Addr6 q', n) (Addr6 w') \<longleftrightarrow> unat w' div 2 ^ (128 - n) = unat q' div 2 ^ (128 - n)"
  "\<not> prefix_contains (Addr4 q, n) (Addr6 w')" "\<not> prefix_contains (Addr6 q', n) (Addr4 w)"
  by (simp_all only: prefix_contains_def fst_conv snd_conv prod.case addr.case drop_bit_xor xor_zero_iff)
    (simp_all only: word_unat_eq_iff unat_drop not_False_eq_True)

lemma v4_tests:
  fixes w :: "32 word"
  shows "IsLoopback (Addr4 w) \<longleftrightarrow> unat w div 2 ^ 24 = 127"
    "IsMulticast (Addr4 w) \<longleftrightarrow> unat w div 2 ^ 24 div 16 mod 16 = 14"
    "IsLinkLocalUnicast (Addr4 w) \<longleftrightarrow> unat w div 2 ^ 16 = 0xA9FE"
    "IsPrivate (Addr4 w) \<longleftrightarrow> unat w div 2 ^ 24 = 10 \<or> (unat w div 2 ^ 24 = 172 \<and> unat w div 2 ^ 16 div 16 mod 16 = 1) \<or>
       unat w div 2 ^ 16 = 0xC0A8"
  unfolding IsLoopback_def IsMulticast_def IsLinkLocalUnicast_def IsPrivate_def
  by (simp_all only: addr.case word_tests) (simp_all add: and_F0 and_FE and_FFC0)

lemma v6_tests:
  fixes w :: "128 word"
  shows "IsLoopback (Addr6 w) \<longleftrightarrow> unat w = 1"
    "IsMulticast (Addr6 w) \<longleftrightarrow> unat w div 2 ^ 120 = 255"
    "IsLinkLocalUnicast (Addr6 w) \<longleftrightarrow> unat w div 2 ^ 112 div 64 mod 1024 = 0x3FA"
    "IsPrivate (Addr6 w) \<longleftrightarrow> unat w div 2 ^ 120 div 2 mod 128 = 126"
  unfolding IsLoopback_def IsMulticast_def IsLinkLocalUnicast_def IsPrivate_def
  by (simp_all only: addr.case word_tests) (simp_all add: and_F0 and_FE and_FFC0)


lemma positional: "b < m \<Longrightarrow> a * m + b = k \<longleftrightarrow> a = k div m \<and> b = (k :: nat) mod m"
  by auto

lemma dotted:
  fixes a b c d :: nat
  assumes "a < 256" "b < 256" "c < 256" "d < 256" and n: "n = ((a * 256 + b) * 256 + c) * 256 + d"
  shows "n < 2 ^ 32" "n div 2 ^ 24 = a" "n div 2 ^ 16 = a * 256 + b" "n div 2 ^ 8 = (a * 256 + b) * 256 + c"
    "n div 2 ^ 22 = a * 4 + b div 64" "n div 2 ^ 17 = a * 128 + b div 2" "n div 2 ^ 28 = a div 16"
    "n = 0 \<longleftrightarrow> a = 0 \<and> b = 0 \<and> c = 0 \<and> d = 0"
  using assms by simp_all

lemma v4_ranges:
  fixes a b c :: nat
  assumes "a < 256" "b < 256" "c < 256"
  shows "a div 16 mod 16 = 14 \<longleftrightarrow> 224 \<le> a \<and> a < 240" "a div 16 = 15 \<longleftrightarrow> 240 \<le> a"
    "a * 256 + b = 0xA9FE \<longleftrightarrow> a = 169 \<and> b = 254" "a * 256 + b = 0xC0A8 \<longleftrightarrow> a = 192 \<and> b = 168"
    "(a * 256 + b) div 16 mod 16 = 1 \<longleftrightarrow> 16 \<le> b \<and> b < 32"
    "a * 4 + b div 64 = 0x191 \<longleftrightarrow> a = 100 \<and> 64 \<le> b \<and> b < 128"
    "a * 128 + b div 2 = 0x6309 \<longleftrightarrow> a = 198 \<and> (b = 18 \<or> b = 19)"
    "(a * 256 + b) * 256 + c = 0xC00000 \<longleftrightarrow> a = 192 \<and> b = 0 \<and> c = 0"
    "(a * 256 + b) * 256 + c = 0xC00002 \<longleftrightarrow> a = 192 \<and> b = 0 \<and> c = 2"
    "(a * 256 + b) * 256 + c = 0xC63364 \<longleftrightarrow> a = 198 \<and> b = 51 \<and> c = 100"
    "(a * 256 + b) * 256 + c = 0xCB0071 \<longleftrightarrow> a = 203 \<and> b = 0 \<and> c = 113"
proof -
  have "b div 64 < 4" "b div 2 < 128" using assms by simp_all
  note pos = positional [OF assms(2)] positional [OF assms(3)] positional [OF this(1)] positional [OF this(2)]
  show "a * 256 + b = 0xA9FE \<longleftrightarrow> a = 169 \<and> b = 254" "a * 256 + b = 0xC0A8 \<longleftrightarrow> a = 192 \<and> b = 168"
    "(a * 256 + b) * 256 + c = 0xC00000 \<longleftrightarrow> a = 192 \<and> b = 0 \<and> c = 0"
    "(a * 256 + b) * 256 + c = 0xC00002 \<longleftrightarrow> a = 192 \<and> b = 0 \<and> c = 2"
    "(a * 256 + b) * 256 + c = 0xC63364 \<longleftrightarrow> a = 198 \<and> b = 51 \<and> c = 100"
    "(a * 256 + b) * 256 + c = 0xCB0071 \<longleftrightarrow> a = 203 \<and> b = 0 \<and> c = 113"
    by (simp_all only: pos) simp_all
  show "a * 4 + b div 64 = 0x191 \<longleftrightarrow> a = 100 \<and> 64 \<le> b \<and> b < 128"
    by (simp only: pos) (simp, linarith)
  show "a * 128 + b div 2 = 0x6309 \<longleftrightarrow> a = 198 \<and> (b = 18 \<or> b = 19)"
    by (simp only: pos) (simp, linarith)
  have "(a * 256 + b) div 16 = a * 16 + b div 16" by simp
  then show "(a * 256 + b) div 16 mod 16 = 1 \<longleftrightarrow> 16 \<le> b \<and> b < 32"
    using assms(2) by simp linarith
  have "a div 16 < 16" using assms(1) by simp
  then show "a div 16 mod 16 = 14 \<longleftrightarrow> 224 \<le> a \<and> a < 240"
    by simp linarith
  show "a div 16 = 15 \<longleftrightarrow> 240 \<le> a"
    using assms(1) by linarith
qed

lemma Addr4_blocked:
  fixes a b c d :: nat
  assumes bytes: "a < 256" "b < 256" "c < 256" "d < 256" and eq: "n = ((a * 256 + b) * 256 + c) * 256 + d"
  defines "w \<equiv> Addr4 (of_nat n)"
  shows "(\<not> IsGlobalUnicast w \<or> IsPrivate w \<or> IsLoopback w \<or> IsLinkLocalUnicast w \<or>
      list_ex (\<lambda>p. prefix_contains p w) blocked_prefixes) \<longleftrightarrow> v4_blocked a b c d"
proof -
  note n = dotted [OF bytes eq]
  have u: "unat (of_nat n :: 32 word) = n" using n(1) by (simp add: unat_of_nat)
  have w: "w = Addr4 0 \<longleftrightarrow> n = 0" "w = Addr4 0xFFFFFFFF \<longleftrightarrow> n = 0xFFFFFFFF"
    by (simp_all add: w_def word_unat_eq_iff u)
  have ones: "n = 0xFFFFFFFF \<Longrightarrow> 240 \<le> a" using n(7) bytes(1) by simp
  have tests: "IsLoopback w \<longleftrightarrow> a = 127" "IsMulticast w \<longleftrightarrow> 224 \<le> a \<and> a < 240" "IsLinkLocalUnicast w \<longleftrightarrow> a = 169 \<and> b = 254"
    "IsPrivate w \<longleftrightarrow> a = 10 \<or> (a = 172 \<and> 16 \<le> b \<and> b < 32) \<or> (a = 192 \<and> b = 168)"
    unfolding w_def v4_tests u n(2,3) v4_ranges [OF bytes(1-3)] by simp_all
  have "list_ex (\<lambda>p. prefix_contains p w) blocked_prefixes \<longleftrightarrow>
      n div 2 ^ 22 = 0x191 \<or> n div 2 ^ 8 = 0xC00000 \<or> n div 2 ^ 8 = 0xC00002 \<or>
      n div 2 ^ 17 = 0x6309 \<or> n div 2 ^ 8 = 0xC63364 \<or> n div 2 ^ 8 = 0xCB0071 \<or> n div 2 ^ 28 = 15"
    unfolding w_def blocked_prefixes_def by (simp add: prefix_tests u)
  note blocked = this [unfolded n(4-7) v4_ranges [OF bytes(1-3)]]
  have v6: "w \<noteq> Addr6 0" by (simp add: w_def)
  have hi: "224 \<le> a \<longleftrightarrow> (224 \<le> a \<and> a < 240) \<or> 240 \<le> a" by linarith
  show ?thesis
    unfolding IsGlobalUnicast_def w tests blocked n(8) [symmetric] v4_blocked_def
    using ones v6 hi by argo
qed

lemma PublicIP_dotted:
  "PublicIP [a, b, c, d] \<longleftrightarrow> \<not> v4_blocked (of_char a) (of_char b) (of_char c) (of_char d)"
proof -
  let ?w = "Addr4 (of_nat (be_value [a, b, c, d]))"
  have "PublicIP [a, b, c, d] \<longleftrightarrow> \<not> (\<not> IsGlobalUnicast ?w \<or> IsPrivate ?w \<or> IsLoopback ?w \<or> IsLinkLocalUnicast ?w \<or>
      list_ex (\<lambda>p. prefix_contains p ?w) blocked_prefixes)"
    by (simp add: PublicIP_def AddrFromSlice_def Unmap_def Let_def del: of_nat_add of_nat_mult) blast
  with Addr4_blocked [OF nat_of_char_less_256 nat_of_char_less_256 nat_of_char_less_256 nat_of_char_less_256 be_value_4]
  show ?thesis by blast
qed

lemma be_value_append: "be_value (xs @ ys) = be_value xs * 256 ^ length ys + be_value ys"
proof (induction ys rule: rev_induct)
  case (snoc y ys)
  have "be_value ((xs @ ys) @ [y]) = be_value (xs @ ys) * 256 + of_char y"
    and "be_value (ys @ [y]) = be_value ys * 256 + of_char y" by (simp_all add: be_value_def)
  with snoc show ?case by (simp add: algebra_simps)
qed (simp add: be_value_def)

definition mapped_prefix :: bytes where
  "mapped_prefix = [CHR 0x00, CHR 0x00, CHR 0x00, CHR 0x00, CHR 0x00, CHR 0x00, CHR 0x00, CHR 0x00, CHR 0x00, CHR 0x00,
     CHR 0xFF, CHR 0xFF]"

lemma ucast_low: "n < 2 ^ 128 \<Longrightarrow> (ucast (of_nat n :: 128 word) :: 32 word) = of_nat n"
  by (simp add: word_unat_eq_iff unat_of_nat unsigned_ucast_eq unsigned_take_bit_eq take_bit_eq_mod)

lemma be_value_zeros: "be_value (replicate n CHR 0x00) = 0"
  by (induction n) (simp_all add: be_value_def)

lemma PublicIP_mapped:
  assumes "length v4 = 4"
  shows "PublicIP (mapped_prefix @ v4) = PublicIP v4"
proof -
  let ?n = "be_value v4"
  have n: "?n < 2 ^ 32" using be_value_bound [of v4] assms by simp
  have m: "be_value (mapped_prefix @ v4) = 0xFFFF * 2 ^ 32 + ?n"
    using assms by (simp add: be_value_append) (simp add: mapped_prefix_def be_value_def)
  have u: "unat (of_nat (0xFFFF * 2 ^ 32 + ?n) :: 128 word) = 0xFFFF * 2 ^ 32 + ?n"
    using n by (subst unat_of_nat) simp
  have "(ucast (of_nat (0xFFFF * 2 ^ 32 + ?n) :: 128 word) :: 32 word) = of_nat (0xFFFF * 2 ^ 32 + ?n)"
    using n by (intro ucast_low) simp
  also have "\<dots> = of_nat ?n" by simp
  finally have c: "(ucast (of_nat (0xFFFF * 2 ^ 32 + ?n) :: 128 word) :: 32 word) = of_nat ?n" .
  have "drop_bit 32 (of_nat (0xFFFF * 2 ^ 32 + ?n) :: 128 word) = 0xFFFF"
    using n by (simp only: word_unat_eq_iff unat_drop u) simp
  with c assms m show ?thesis
    unfolding PublicIP_def AddrFromSlice_def Unmap_def
    by (simp add: mapped_prefix_def del: of_nat_add of_nat_mult)
qed

lemma PublicIP_16:
  fixes v :: nat
  assumes "length ip = 16" and v: "v = be_value ip" and "v div 2 ^ 32 \<noteq> 0xFFFF"
  shows "PublicIP ip \<longleftrightarrow> 1 < v \<and> v div 2 ^ 120 \<noteq> 0xFC \<and> v div 2 ^ 120 \<noteq> 0xFD \<and> v div 2 ^ 120 \<noteq> 0xFF \<and>
    v div 2 ^ 118 \<noteq> 0x3FA \<and> v div 2 ^ 96 \<noteq> 0x20010DB8 \<and> v div 2 ^ 32 \<noteq> 0x64FF9B0000000000000000"
proof -
  let ?w = "of_nat v :: 128 word"
  have small: "v < 2 ^ 128" using be_value_bound [of ip] assms by simp
  have u: "unat ?w = v" using small by (subst unat_of_nat) simp
  have a: "AddrFromSlice ip = Some (Addr6 ?w)" using assms by (simp add: AddrFromSlice_def)
  have "drop_bit 32 ?w \<noteq> 0xFFFF" using assms(3) by (simp only: word_unat_eq_iff unat_drop u) simp
  then have un: "Unmap (Addr6 ?w) = Addr6 ?w" by (simp add: Unmap_def)
  have hi: "v div 2 ^ 112 div 64 = v div 2 ^ 118" "v div 2 ^ 118 < 1024" "v div 2 ^ 120 div 2 < 128"
    using small by simp_all
  have ula: "v div 2 ^ 120 div 2 = 126 \<longleftrightarrow> v div 2 ^ 120 = 0xFC \<or> v div 2 ^ 120 = 0xFD" by linarith
  have tests: "IsLoopback (Addr6 ?w) \<longleftrightarrow> v = 1" "IsMulticast (Addr6 ?w) \<longleftrightarrow> v div 2 ^ 120 = 0xFF"
    "IsLinkLocalUnicast (Addr6 ?w) \<longleftrightarrow> v div 2 ^ 118 = 0x3FA"
    "IsPrivate (Addr6 ?w) \<longleftrightarrow> v div 2 ^ 120 = 0xFC \<or> v div 2 ^ 120 = 0xFD" "Addr6 ?w = Addr6 0 \<longleftrightarrow> v = 0"
    unfolding v6_tests u hi(1) mod_less [OF hi(2)] mod_less [OF hi(3)] ula addr.inject word_unat_eq_iff [of ?w]
    by simp_all
  have blocked: "list_ex (\<lambda>p. prefix_contains p (Addr6 ?w)) blocked_prefixes \<longleftrightarrow>
      v div 2 ^ 96 = 0x20010DB8 \<or> v div 2 ^ 32 = 0x64FF9B0000000000000000"
    unfolding blocked_prefixes_def by (simp add: prefix_tests u)
  have "1 < v \<longleftrightarrow> v \<noteq> 0 \<and> v \<noteq> 1" by linarith
  then show ?thesis
    unfolding PublicIP_def a option.case Let_def un IsGlobalUnicast_def tests blocked by auto
qed

section \<open>Properties\<close>

text \<open>
  C29: exactly which addresses may be dialled, in decimal. IPv4: not 0.0.0.0, 10/8, 100.64/10, 127/8, 169.254/16, 172.16/12,
  192.0.0/24, 192.0.2/24, 192.168/16, 198.18/15, 198.51.100/24, 203.0.113/24 nor anything from 224 up; the IPv4-mapped IPv6 form of
  an address is judged as the address itself, so it is no way around the list. Other IPv6 addresses: not :: or ::1, not
  fc00::/7, fe80::/10 or ff00::/8, not 2001:db8::/32 and not the translation prefix 64:ff9b::/96.
\<close>

theorem PublicIP_ranges:
  "(PublicIP [a, b, c, d] \<longleftrightarrow> \<not> v4_blocked (of_char a) (of_char b) (of_char c) (of_char d)) \<and>
   PublicIP (mapped_prefix @ [a, b, c, d]) = PublicIP [a, b, c, d] \<and>
   (length ip = 16 \<and> be_value ip div 2 ^ 32 \<noteq> 0xFFFF \<longrightarrow>
     (PublicIP ip \<longleftrightarrow> 1 < be_value ip \<and>
       be_value ip div 2 ^ 120 \<noteq> 0xFC \<and> be_value ip div 2 ^ 120 \<noteq> 0xFD \<and> be_value ip div 2 ^ 120 \<noteq> 0xFF \<and>
       be_value ip div 2 ^ 118 \<noteq> 0x3FA \<and> be_value ip div 2 ^ 96 \<noteq> 0x20010DB8 \<and>
       be_value ip div 2 ^ 32 \<noteq> 0x64FF9B0000000000000000))"
  using PublicIP_16 [OF _ refl, of ip] by (simp add: PublicIP_dotted PublicIP_mapped)

theorem PublicIP_ranges_witness:
  "PublicIP (CHR 0x26 # replicate 15 CHR 0x00) \<and> \<not> PublicIP (replicate 15 CHR 0x00 @ [CHR 0x01])"
proof -
  have b: "be_value (CHR 0x26 # replicate 15 CHR 0x00) = 0x26 * 2 ^ 120" "be_value (replicate 15 CHR 0x00 @ [CHR 0x01]) = 1"
    using be_value_append [of "[CHR 0x26]" "replicate 15 CHR 0x00"] be_value_append [of "replicate 15 CHR 0x00" "[CHR 0x01]"]
      be_value_zeros [of 15] by (simp_all add: be_value_def)
  show ?thesis
    using PublicIP_ranges [of _ _ _ _ "CHR 0x26 # replicate 15 CHR 0x00"] PublicIP_ranges [of _ _ _ _ "replicate 15 CHR 0x00 @ [CHR 0x01]"]
    by (simp add: b)
qed

text \<open>
  C30: no DNS answer leads the delivery client to a refused address: with private endpoints disallowed, a dial
  connects only to an address of the answer obtained for that very dial, all of whose addresses are public;
  and the client follows no redirect, so no response can send it elsewhere.
\<close>

theorem dial_only_public:
  assumes "cl_dial (HTTPClient timeout False) lookup address = Inr (ip, port)"
  shows "(\<exists>host ips. SplitHostPort address = Some (host, port) \<and> lookup host = Some ips \<and> ip \<in> set ips \<and>
      (\<forall>x \<in> set ips. PublicIP x)) \<and> \<not> cl_follows_redirects (HTTPClient timeout False)"
proof -
  obtain host p ips where split: "SplitHostPort address = Some (host, p)" and look: "lookup host = Some ips"
    and ips: "ips \<noteq> []" "\<not> list_ex (\<lambda>x. \<not> PublicIP x) ips" "ip = hd ips" "port = p"
    using assms by (auto simp: HTTPClient_def dial_target_def split: option.splits if_splits)
  then show ?thesis by (auto simp: list_ex_iff HTTPClient_def)
qed

theorem dial_only_public_witness:
  "PublicIP [CHR 0x5D, CHR 0xB8, CHR 0xD8, CHR 0x22]"
proof -
  have "v4_blocked 93 184 216 34 = False" by (simp add: v4_blocked_def)
  then have pub: "PublicIP [CHR 0x5D, CHR 0xB8, CHR 0xD8, CHR 0x22]" by (simp add: PublicIP_dotted)
  have "SplitHostPort ''example.com:443'' = Some (''example.com'', ''443'')" by code_simp
  then have "cl_dial (HTTPClient second False) (\<lambda>h. Some [[CHR 0x5D, CHR 0xB8, CHR 0xD8, CHR 0x22]]) ''example.com:443'' =
      Inr ([CHR 0x5D, CHR 0xB8, CHR 0xD8, CHR 0x22], ''443'')"
    using pub by (simp add: HTTPClient_def dial_target_def)
  from dial_only_public [OF this] show ?thesis by auto
qed

text \<open>
  A destination is accepted exactly when it parses, has a host, no user information and no fragment, is at
  most 2048 bytes long, and uses HTTPS, plain HTTP being allowed only together with private endpoints.
\<close>

lemma ValidateURL_iff:
  "ValidateURL parse raw allowPrivate = Inr () \<longleftrightarrow>
    (\<exists>u. parse raw = Some u \<and> url_Hostname u \<noteq> [] \<and> \<not> url_has_User u \<and> url_Fragment u = [] \<and> length raw \<le> 2048 \<and>
       (url_Scheme u = ''https'' \<or> (allowPrivate \<and> url_Scheme u = ''http'')))"
  by (auto simp: ValidateURL_def split: option.splits if_splits)

end
