(* ===== verification/Config.thy ===== *)
theory Config
  imports Go_Text Retry
begin

text \<open>
  \<^verbatim>\<open>src/internal/config/config.go\<close>: \<open>Load\<close> reads the environment (the argument \<open>getenv\<close>; an unset variable
  reads as the empty string) and validates it. \<open>ParseDuration\<close> and \<open>ParseBool\<close> are the library's; the fraction
  of a duration is taken exactly where the library multiplies floating point numbers.
  Durations are 64-bit nanosecond counts, and their arithmetic wraps.
\<close>

section \<open>time.ParseDuration and strconv.ParseBool\<close>

definition duration_unit :: "string \<Rightarrow> nat option" where
  "duration_unit u =
     map_of [(''ns'', 1), (''us'', 1000), ([CHR 0xC2, CHR 0xB5, CHR ''s''], 1000),
       ([CHR 0xCE, CHR 0xBC, CHR ''s''], 1000), (''ms'', 1000000), (''s'', 1000000000),
       (''m'', 60000000000), (''h'', 3600000000000)] u"

definition is_digit :: "char \<Rightarrow> bool" where
  "is_digit c \<longleftrightarrow> 48 \<le> (of_char c :: nat) \<and> of_char c \<le> (57 :: nat)"

abbreviation top63 :: nat where
  "top63 \<equiv> 9223372036854775808"

fun leading_int :: "nat \<Rightarrow> string \<Rightarrow> (nat \<times> string) option" where
  "leading_int x [] = Some (x, [])"
| "leading_int x (c # s) =
     (if \<not> is_digit c then Some (x, c # s)
      else if x > top63 div 10 then None
      else let y = x * 10 + (of_char c - 48) in if y > top63 then None else leading_int y s)"

fun leading_fraction :: "nat \<Rightarrow> nat \<Rightarrow> bool \<Rightarrow> string \<Rightarrow> nat \<times> nat \<times> string" where
  "leading_fraction x scale overflow [] = (x, scale, [])"
| "leading_fraction x scale overflow (c # s) =
     (if \<not> is_digit c then (x, scale, c # s)
      else if overflow \<or> x > (top63 - 1) div 10 then leading_fraction x scale True s
      else let y = x * 10 + (of_char c - 48)
           in if y > top63 then leading_fraction x scale True s else leading_fraction y (scale * 10) False s)"

text \<open>One number with its unit: the nanoseconds it stands for and the rest of the text.\<close>

definition duration_term :: "string \<Rightarrow> (nat \<times> string) option" where
  "duration_term s =
     (case leading_int 0 s of
        None \<Rightarrow> None
      | Some (v, s1) \<Rightarrow>
          (let pre = (length s1 \<noteq> length s);
               dot = (s1 \<noteq> [] \<and> hd s1 = CHR ''.'');
               (f, scale, s2) = (if dot then leading_fraction 0 1 False (tl s1) else (0, 1, s1));
               post = (dot \<and> length s2 \<noteq> length (tl s1));
               u = takeWhile (\<lambda>c. c \<noteq> CHR ''.'' \<and> \<not> is_digit c) s2
           in if \<not> pre \<and> \<not> post then None
              else if u = [] then None
              else case duration_unit u of
                     None \<Rightarrow> None
                   | Some unit \<Rightarrow>
                       (if v > top63 div unit then None
                        else let w = v * unit + (if f > 0 then f * unit div scale else 0)
                             in if w > top63 then None else Some (w, drop (length u) s2))))"

fun duration_terms :: "nat \<Rightarrow> nat \<Rightarrow> string \<Rightarrow> nat option" where
  "duration_terms n d [] = Some d"
| "duration_terms 0 d s = None"
| "duration_terms (Suc n) d s =
     (case duration_term s of
        None \<Rightarrow> None
      | Some (v, rest) \<Rightarrow> if d + v > top63 then None else duration_terms n (d + v) rest)"

definition ParseDuration :: "string \<Rightarrow> duration option" where
  "ParseDuration s0 =
     (let neg = (s0 \<noteq> [] \<and> hd s0 = CHR ''-'');
          s = (if s0 \<noteq> [] \<and> (hd s0 = CHR ''-'' \<or> hd s0 = CHR ''+'') then tl s0 else s0)
      in if s = ''0'' then Some 0
         else if s = [] then None
         else case duration_terms (length s) 0 s of
                None \<Rightarrow> None
              | Some d \<Rightarrow> if neg then Some (- int d) else if d > top63 - 1 then None else Some (int d))"

definition ParseBool :: "string \<Rightarrow> bool option" where
  "ParseBool s =
     (if s \<in> {''1'', ''t'', ''T'', ''TRUE'', ''true'', ''True''} then Some True
      else if s \<in> {''0'', ''f'', ''F'', ''FALSE'', ''false'', ''False''} then Some False else None)"

section \<open>Load\<close>

record config =
  c_DatabaseURL :: string
  c_RedisURL :: string
  c_Address :: string
  c_WorkerAddress :: string
  c_StaticDir :: string
  c_EncryptionKey :: bytes
  c_Workers :: int
  c_PollInterval :: duration
  c_HTTPTimeout :: duration
  c_LeaseDuration :: duration
  c_AllowPrivate :: bool
  c_CookieSecure :: bool

datatype config_error = BadEncryptionKey | NoDatabaseURL | BadWorkers | BadDuration string | LeaseTooShort
  | BadAllowPrivate | BadCookieSecure

definition env :: "(string \<Rightarrow> string) \<Rightarrow> string \<Rightarrow> string \<Rightarrow> string" where
  "env getenv k fallback = (let v = getenv k in if v \<noteq> [] then v else fallback)"

definition load_duration :: "(string \<Rightarrow> string) \<Rightarrow> string \<Rightarrow> string \<Rightarrow> config_error + duration" where
  "load_duration getenv name fallback =
     (case ParseDuration (env getenv name fallback) of
        None \<Rightarrow> Inl (BadDuration name)
      | Some d \<Rightarrow> if d \<le> 0 then Inl (BadDuration name) else Inr d)"

definition load_workers :: "(string \<Rightarrow> string) \<Rightarrow> config_error + int" where
  "load_workers getenv =
     (case ParseInt (env getenv ''WORKERS'' ''5'') of
        ParseOk n \<Rightarrow> if n < 1 \<or> n > 128 then Inl BadWorkers else Inr n
      | _ \<Rightarrow> Inl BadWorkers)"

definition load_key :: "(string \<Rightarrow> string) \<Rightarrow> config_error + bytes" where
  "load_key getenv =
     (case hex_decode (getenv ''ENCRYPTION_KEY'') of
        None \<Rightarrow> Inl BadEncryptionKey
      | Some k \<Rightarrow> if length k \<noteq> 32 then Inl BadEncryptionKey else Inr k)"

definition load_bool :: "(string \<Rightarrow> string) \<Rightarrow> string \<Rightarrow> string \<Rightarrow> config_error \<Rightarrow> config_error + bool" where
  "load_bool getenv name fallback e =
     (case ParseBool (env getenv name fallback) of None \<Rightarrow> Inl e | Some b \<Rightarrow> Inr b)"

definition Load :: "(string \<Rightarrow> string) \<Rightarrow> config_error + config" where
  "Load getenv =
     res_bind (load_key getenv) (\<lambda>key.
     if getenv ''DATABASE_URL'' = [] then Inl NoDatabaseURL else
     res_bind (load_workers getenv) (\<lambda>workers.
     res_bind (load_duration getenv ''POLL_INTERVAL'' ''500ms'') (\<lambda>poll.
     res_bind (load_duration getenv ''HTTP_TIMEOUT'' ''10s'') (\<lambda>timeout.
     res_bind (load_duration getenv ''LEASE_DURATION'' ''60s'') (\<lambda>lease.
     if lease < go_mul 3 timeout then Inl LeaseTooShort else
     res_bind (load_bool getenv ''ALLOW_PRIVATE_ENDPOINTS'' ''false'' BadAllowPrivate) (\<lambda>priv.
     res_bind (load_bool getenv ''COOKIE_SECURE'' ''true'' BadCookieSecure) (\<lambda>secure.
     Inr \<lparr>c_DatabaseURL = getenv ''DATABASE_URL'',
       c_RedisURL = env getenv ''REDIS_URL'' ''redis://localhost:6379/0'',
       c_Address = '':'' @ env getenv ''PORT'' ''8080'',
       c_WorkerAddress = '':'' @ env getenv ''WORKER_PORT'' ''8081'',
       c_StaticDir = env getenv ''STATIC_DIR'' ''frontend/dist'',
       c_EncryptionKey = key, c_Workers = workers, c_PollInterval = poll, c_HTTPTimeout = timeout,
       c_LeaseDuration = lease, c_AllowPrivate = priv, c_CookieSecure = secure\<rparr>)))))))"

section \<open>Properties\<close>

lemma ParseDuration_range:
  assumes "ParseDuration s = Some d"
  shows "d < 2 ^ 63"
proof -
  have "int n < 2 ^ 63" if "\<not> n > top63 - 1" for n using that by simp
  moreover have "- int n < 2 ^ 63" for n by (smt (verit) of_nat_0_le_iff zero_less_power)
  ultimately show ?thesis
    using assms unfolding ParseDuration_def Let_def
    by (auto split: if_splits option.splits)
qed

lemma load_duration_range:
  "load_duration getenv name fallback = Inr d \<Longrightarrow> 0 < d \<and> d < 2 ^ 63"
  using ParseDuration_range by (auto simp: load_duration_def split: option.splits if_splits)

lemma config_lease:
  assumes "Load getenv = Inr c" and "3 * c_HTTPTimeout c < 2 ^ 63"
  shows "3 * c_HTTPTimeout c \<le> c_LeaseDuration c"
proof -
  obtain timeout where ok: "load_duration getenv ''HTTP_TIMEOUT'' ''10s'' = Inr timeout" "c_HTTPTimeout c = timeout"
    and "\<not> c_LeaseDuration c < go_mul 3 timeout"
    using assms(1) by (auto simp: Load_def split: if_splits)
  moreover have "go_mul 3 timeout = 3 * timeout"
    using assms(2) load_duration_range [OF ok(1)] ok(2) by (simp add: go_mul_def int64_range_def)
  ultimately show ?thesis by simp
qed

text \<open>
  A configuration that \<open>Load\<close> accepts has a 32-byte key, a database URL, 1 to 128 workers and positive
  64-bit durations; and a lease outlasts three request timeouts for every timeout below 2^63/3 nanoseconds
  (97 years), so that a claimed delivery cannot be reclaimed while its request may still be running.
\<close>

lemma Load_bounds:
  assumes "Load getenv = Inr c"
  shows "length (c_EncryptionKey c) = 32 \<and> c_DatabaseURL c \<noteq> [] \<and> 1 \<le> c_Workers c \<and> c_Workers c \<le> 128 \<and>
    0 < c_PollInterval c \<and> 0 < c_HTTPTimeout c \<and> 0 < c_LeaseDuration c \<and> c_LeaseDuration c < 2 ^ 63 \<and>
    (3 * c_HTTPTimeout c < 2 ^ 63 \<longrightarrow> 3 * c_HTTPTimeout c \<le> c_LeaseDuration c)"
proof -
  obtain key workers poll timeout lease priv secure where
    ok: "load_key getenv = Inr key" "load_workers getenv = Inr workers"
      "load_duration getenv ''POLL_INTERVAL'' ''500ms'' = Inr poll"
      "load_duration getenv ''HTTP_TIMEOUT'' ''10s'' = Inr timeout"
      "load_duration getenv ''LEASE_DURATION'' ''60s'' = Inr lease"
    and url: "getenv ''DATABASE_URL'' \<noteq> []"
    and c: "c_EncryptionKey c = key" "c_DatabaseURL c = getenv ''DATABASE_URL''" "c_Workers c = workers"
      "c_PollInterval c = poll" "c_HTTPTimeout c = timeout" "c_LeaseDuration c = lease"
    using assms by (auto simp: Load_def split: if_splits)
  have "length key = 32" using ok(1) by (auto simp: load_key_def split: option.splits if_splits)
  moreover have "1 \<le> workers" "workers \<le> 128"
    using ok(2) by (auto simp: load_workers_def split: parse_result.splits if_splits)
  ultimately show ?thesis
    using url c config_lease [OF assms] load_duration_range [OF ok(3)] load_duration_range [OF ok(4)] load_duration_range [OF ok(5)]
    by auto
qed

definition sample_env :: "string \<Rightarrow> string" where
  "sample_env k =
     (if k = ''ENCRYPTION_KEY'' then hex_encode (replicate 32 CHR 0x07)
      else if k = ''DATABASE_URL'' then ''postgres://db'' else [])"

lemmas parse_duration_defs = ParseDuration_def duration_term_def duration_unit_def is_digit_def

lemma default_durations:
  "ParseDuration ''500ms'' = Some 500000000" "ParseDuration ''10s'' = Some 10000000000"
  "ParseDuration ''60s'' = Some 60000000000" "ParseDuration ''1200000h'' = Some 4320000000000000000"
  by (simp_all add: parse_duration_defs)

lemma load_sample:
  "load_key sample_env = Inr (replicate 32 CHR 0x07)" "load_workers sample_env = Inr 5"
  "load_key (sample_env(''HTTP_TIMEOUT'' := t)) = Inr (replicate 32 CHR 0x07)"
  "load_workers (sample_env(''HTTP_TIMEOUT'' := t)) = Inr 5"
  by (simp_all add: load_key_def load_workers_def sample_env_def env_def ParseInt_def)

lemmas load_sample_defs = Load_def load_duration_def load_bool_def env_def default_durations ParseBool_def
  go_mul_def int64_wrap_def duration_defs

lemma sample_env_loads: "case Load sample_env of Inl e \<Rightarrow> False | Inr c \<Rightarrow> c_Workers c = 5 \<and> c_LeaseDuration c = 60 * second"
  by (simp add: load_sample_defs load_sample) (simp add: load_sample_defs sample_env_def)

text \<open>
  The check of the lease against the timeout is made in 64-bit arithmetic: with a timeout of 1200000
  hours three timeouts wrap to a negative number and \<open>Load\<close> accepts the default lease of sixty seconds.
\<close>

lemma Load_lease_check_wraps:
  "case Load (sample_env (''HTTP_TIMEOUT'' := ''1200000h'')) of
     Inl e \<Rightarrow> False
   | Inr c \<Rightarrow> c_HTTPTimeout c = 1200000 * hour \<and> c_LeaseDuration c = 60 * second"
  by (simp add: load_sample_defs load_sample) (simp add: load_sample_defs sample_env_def)

text \<open>A configuration for the closed instances of other components' properties.\<close>

definition sample_config :: config where
  "sample_config = \<lparr>c_DatabaseURL = ''postgres://db'', c_RedisURL = ''redis://r'', c_Address = '':8080'', c_WorkerAddress = '':8081'',
     c_StaticDir = ''dist'', c_EncryptionKey = replicate 32 CHR 0x07, c_Workers = 5, c_PollInterval = second, c_HTTPTimeout = 10 * second,
     c_LeaseDuration = 60 * second, c_AllowPrivate = False, c_CookieSecure = True\<rparr>"

end
