(* ===== verification/Doubles.thy ===== *)
theory Doubles
  imports Prelude "HOL-Library.Log_Nat"
begin

text \<open>
  The numbers of Redis' Lua: IEEE 754 doubles. \<open>dbl\<close> rounds a rational to the nearest number with 53 significant
  bits, ties to the even one; every arithmetic operation of the script is the exact one followed by \<open>dbl\<close>. The range
  of exponents is not bounded: the script's values are sums and products of integers, multiples of
  2^-72 and far below 2^1024, so they neither underflow nor overflow.
\<close>

definition exponent2 :: "rat \<Rightarrow> int" where
  "exponent2 x =
     (let (p, q) = quotient_of x; e = int (floorlog 2 (nat p)) - int (floorlog 2 (nat q))
      in if 2 powi e \<le> x then e else e - 1)"

definition nearest_even :: "rat \<Rightarrow> int" where
  "nearest_even r =
     (let f = \<lfloor>r\<rfloor>; rest = r - of_int f in if rest < 1 / 2 \<or> rest = 1 / 2 \<and> even f then f else f + 1)"

definition dbl :: "rat \<Rightarrow> rat" where
  "dbl x =
     (if x = 0 then 0
      else let s = 2 powi (exponent2 \<bar>x\<bar> - 52) in of_int (nearest_even (x / s)) * s)"

section \<open>Rounding to an integer\<close>

lemma nearest_even_of_int [simp]: "nearest_even (of_int n) = n"
  by (simp add: nearest_even_def)

lemma nearest_even_error: "\<bar>of_int (nearest_even r) - r\<bar> \<le> 1 / 2"
  using of_int_floor_le [of r] floor_correct [of r] by (auto simp: nearest_even_def Let_def abs_le_iff)

lemma nearest_even_mono: "r \<le> s \<Longrightarrow> nearest_even r \<le> nearest_even s"
proof -
  assume le: "r \<le> s"
  show ?thesis
  proof (cases "\<lfloor>r\<rfloor> = \<lfloor>s\<rfloor>")
    case True
    then show ?thesis using le by (auto simp: nearest_even_def Let_def)
  next
    case False
    with floor_mono [OF le] have "\<lfloor>r\<rfloor> + 1 \<le> \<lfloor>s\<rfloor>" by linarith
    then show ?thesis by (auto simp: nearest_even_def Let_def)
  qed
qed

section \<open>The exponent\<close>

lemma floorlog_range:
  assumes "0 < (p :: int)"
  shows "2 powi (int (floorlog 2 (nat p)) - 1) \<le> (of_int p :: rat)" and "(of_int p :: rat) < 2 powi (int (floorlog 2 (nat p)))"
proof -
  let ?k = "floorlog 2 (nat p)"
  have b: "2 ^ (?k - 1) \<le> nat p" "nat p < 2 ^ ?k"
    using assms floorlog_bounds [of "nat p" 2] by auto
  have k: "0 < ?k" using assms by (simp add: floorlog_def)
  have "int (2 ^ (?k - 1)) \<le> p" using b(1) assms by linarith
  then have "(of_int (2 ^ (?k - 1)) :: rat) \<le> of_int p" by (subst of_int_le_iff) simp
  moreover have "int ?k - 1 = int (?k - 1)" using k by simp
  ultimately show "2 powi (int ?k - 1) \<le> (of_int p :: rat)" by (simp only: power_int_of_nat) simp
  have "p < 2 ^ ?k" using b(2) assms by (simp add: nat_less_iff)
  then have "(of_int p :: rat) < of_int (2 ^ ?k)" by (subst of_int_less_iff)
  then show "(of_int p :: rat) < 2 powi (int ?k)" by simp
qed

lemma exponent2_bounds:
  assumes "0 < x"
  shows "2 powi exponent2 x \<le> x" and "x < 2 powi (exponent2 x + 1)"
proof -
  obtain p q where pq: "quotient_of x = (p, q)" by force
  have q: "0 < q" using quotient_of_denom_pos [OF pq] .
  have x: "x = of_int p / of_int q" using quotient_of_div [OF pq] .
  have p: "0 < p" using assms q by (simp add: x zero_less_divide_iff)
  let ?a = "int (floorlog 2 (nat p))" and ?b = "int (floorlog 2 (nat q))"
  note bp = floorlog_range [OF p] and bq = floorlog_range [OF q]
  have qq: "(0 :: rat) < of_int q" using q by simp
  have lo: "2 powi (?a - ?b - 1) \<le> x"
  proof -
    have "2 powi (?a - ?b - 1) * of_int q \<le> 2 powi (?a - ?b - 1) * (2 powi ?b :: rat)"
      using bq(2) by (intro mult_left_mono) simp_all
    also have "\<dots> = 2 powi (?a - 1)" by (subst power_int_add [symmetric]) simp_all
    also have "\<dots> \<le> of_int p" by (rule bp(1))
    finally show ?thesis using qq by (simp add: x le_divide_eq)
  qed
  have hi: "x < 2 powi (?a - ?b + 1)"
  proof -
    have "of_int p < (2 powi ?a :: rat)" by (rule bp(2))
    also have "\<dots> = 2 powi (?a - ?b + 1) * 2 powi (?b - 1)"
      by (subst power_int_add [symmetric]) simp_all
    also have "\<dots> \<le> 2 powi (?a - ?b + 1) * of_int q"
      using bq(1) by (intro mult_left_mono) simp_all
    finally show ?thesis using qq by (simp add: x divide_less_eq)
  qed
  show "2 powi exponent2 x \<le> x" "x < 2 powi (exponent2 x + 1)"
    using lo hi by (simp_all add: exponent2_def pq Let_def)
qed

lemma powi2_mono: "a \<le> b \<Longrightarrow> (2 :: rat) powi a \<le> 2 powi b"
  by (rule power_int_increasing) simp_all

lemma powi2_less_imp: "(2 :: rat) powi a < 2 powi b \<Longrightarrow> a < b"
  using powi2_mono [of b a] by linarith

lemma exponent2_mono: "0 < x \<Longrightarrow> x \<le> y \<Longrightarrow> exponent2 x \<le> exponent2 y"
proof -
  assume a: "0 < x" "x \<le> y"
  have "2 powi exponent2 x < (2 powi (exponent2 y + 1) :: rat)"
    using exponent2_bounds(1) [of x] exponent2_bounds(2) [of y] a by linarith
  from powi2_less_imp [OF this] show ?thesis by simp
qed

section \<open>Rounding to a double\<close>

lemma dbl_0 [simp]: "dbl 0 = 0"
  by (simp add: dbl_def)

lemma dbl_pos: "0 < x \<Longrightarrow> dbl x = of_int (nearest_even (x / 2 powi (exponent2 x - 52))) * 2 powi (exponent2 x - 52)"
  by (simp add: dbl_def Let_def)

lemma powi2_split: "(2 :: rat) powi a = 2 powi (a - b) * 2 powi b"
  by (simp flip: power_int_add)

lemma dbl_range:
  assumes "0 < x"
  shows "2 powi exponent2 x \<le> dbl x" and "dbl x \<le> 2 powi (exponent2 x + 1)"
proof -
  let ?e = "exponent2 x" and ?s = "(2 :: rat) powi (exponent2 x - 52)"
  have s: "0 < ?s" by simp
  have "of_int (2 ^ 52) * ?s \<le> x"
    using exponent2_bounds(1) [OF assms] powi2_split [of ?e "?e - 52"] by simp
  then have "of_int (2 ^ 52) \<le> x / ?s" using s by (simp only: le_divide_eq if_True)
  from nearest_even_mono [OF this] have "2 ^ 52 \<le> nearest_even (x / ?s)" by (simp only: nearest_even_of_int)
  then have "of_int (2 ^ 52) * ?s \<le> of_int (nearest_even (x / ?s)) * ?s"
    using s by (intro mult_right_mono) (simp_all only: of_int_le_iff less_imp_le)
  then show "2 powi ?e \<le> dbl x"
    using powi2_split [of ?e "?e - 52"] by (simp add: dbl_pos [OF assms])
  have "x \<le> of_int (2 ^ 53) * ?s"
    using exponent2_bounds(2) [OF assms] powi2_split [of "?e + 1" "?e - 52"] by simp
  then have "x / ?s \<le> of_int (2 ^ 53)" using s by (simp only: divide_le_eq if_True)
  from nearest_even_mono [OF this] have "nearest_even (x / ?s) \<le> 2 ^ 53" by (simp only: nearest_even_of_int)
  then have "of_int (nearest_even (x / ?s)) * ?s \<le> of_int (2 ^ 53) * ?s"
    using s by (intro mult_right_mono) (simp_all only: of_int_le_iff less_imp_le)
  then show "dbl x \<le> 2 powi (?e + 1)"
    using powi2_split [of "?e + 1" "?e - 52"] by (simp add: dbl_pos [OF assms])
qed

lemma dbl_nonneg: "0 \<le> x \<Longrightarrow> 0 \<le> dbl x"
proof (cases "x = 0")
  case False
  assume "0 \<le> x"
  with False have "2 powi exponent2 x \<le> dbl x" by (intro dbl_range) simp
  moreover have "(0 :: rat) < 2 powi exponent2 x" by simp
  ultimately show ?thesis by linarith
qed simp

lemma dbl_neg: "x \<le> 0 \<Longrightarrow> dbl x \<le> 0"
proof -
  assume x: "x \<le> 0"
  let ?s = "(2 :: rat) powi (exponent2 \<bar>x\<bar> - 52)"
  have "x / ?s \<le> of_int 0" using x by (simp add: divide_nonpos_pos)
  from nearest_even_mono [OF this] have "nearest_even (x / ?s) \<le> 0" by (simp only: nearest_even_of_int)
  then show ?thesis by (simp add: dbl_def Let_def mult_nonpos_nonneg)
qed

lemma dbl_mono: "x \<le> y \<Longrightarrow> 0 \<le> x \<Longrightarrow> dbl x \<le> dbl y"
proof -
  assume le: "x \<le> y" and "0 \<le> x"
  then consider "x = 0" | "0 < x" "exponent2 x = exponent2 y" | "0 < x" "exponent2 x + 1 \<le> exponent2 y"
    using exponent2_mono [of x y] by linarith
  then show ?thesis
  proof cases
    case 1
    then show ?thesis using le by (simp add: dbl_nonneg)
  next
    case 2
    have "x / 2 powi (exponent2 y - 52) \<le> y / 2 powi (exponent2 y - 52)"
      using le by (intro divide_right_mono) simp_all
    from nearest_even_mono [OF this] show ?thesis
      using 2 le by (simp add: dbl_pos)
  next
    case 3
    have "dbl x \<le> 2 powi (exponent2 x + 1)" by (rule dbl_range) (rule 3)
    also have "\<dots> \<le> 2 powi exponent2 y" using 3 by (intro powi2_mono)
    also have "\<dots> \<le> dbl y" using 3 le by (intro dbl_range) simp
    finally show ?thesis .
  qed
qed

lemma dbl_error_exponent: "0 < x \<Longrightarrow> \<bar>dbl x - x\<bar> \<le> 2 powi (exponent2 x - 53)"
proof -
  assume x: "0 < x"
  let ?s = "(2 :: rat) powi (exponent2 x - 52)"
  have "dbl x - x = (of_int (nearest_even (x / ?s)) - x / ?s) * ?s"
    using x by (simp add: dbl_pos algebra_simps)
  then have "\<bar>dbl x - x\<bar> = \<bar>of_int (nearest_even (x / ?s)) - x / ?s\<bar> * ?s"
    by (simp add: abs_mult)
  also have "\<dots> \<le> 1 / 2 * ?s" by (intro mult_right_mono nearest_even_error) simp
  also have "\<dots> = 2 powi (exponent2 x - 53)"
    using powi2_split [of "exponent2 x - 52" "exponent2 x - 53"] by simp
  finally show ?thesis .
qed

text \<open>Half a unit in the last place: a relative error of 2^-53 at most.\<close>

lemma dbl_error: "0 \<le> x \<Longrightarrow> \<bar>dbl x - x\<bar> \<le> x / 2 ^ 53"
proof (cases "x = 0")
  case False
  assume "0 \<le> x"
  with False have x: "0 < x" by simp
  have "\<bar>dbl x - x\<bar> \<le> 2 powi (exponent2 x - 53)" by (rule dbl_error_exponent [OF x])
  also have "\<dots> = 2 powi exponent2 x / 2 ^ 53" by (simp add: power_int_diff)
  also have "\<dots> \<le> x / 2 ^ 53" using exponent2_bounds(1) [OF x] by (simp add: divide_right_mono)
  finally show ?thesis .
qed simp

lemma dbl_upper: "0 \<le> x \<Longrightarrow> dbl x \<le> x + x / 2 ^ 53" and dbl_lower: "0 \<le> x \<Longrightarrow> x - x / 2 ^ 53 \<le> dbl x"
  using dbl_error [of x] by linarith+

lemma dbl_upper_mult: "0 \<le> x \<Longrightarrow> dbl x \<le> x * (1 + 1 / 2 ^ 53)"
  using dbl_upper [of x] by (simp only: distrib_left mult_1_right times_divide_eq_right)

lemma dbl_fixed:
  assumes "0 \<le> m" "m < 2 ^ 53" and x: "x = of_int m * 2 powi e"
  shows "dbl x = x"
proof (cases "m = 0")
  case True
  then show ?thesis by (simp add: x)
next
  case False
  with assms have m: "0 < m" by simp
  then have pos: "0 < x" by (simp add: x)
  let ?k = "exponent2 x - 52"
  have "(of_int m :: rat) < of_int (2 ^ 53)" using assms(2) by (simp only: of_int_less_iff)
  then have "of_int m * 2 powi e < (2 ^ 53 :: rat) * 2 powi e" by (intro mult_strict_right_mono) simp_all
  also have "\<dots> = 2 powi (53 + e)" by (simp add: power_int_add)
  finally have "2 powi exponent2 x < (2 powi (53 + e) :: rat)"
    using exponent2_bounds(1) [OF pos] by (simp add: x)
  from powi2_less_imp [OF this] have e: "?k \<le> e" by simp
  have "x / 2 powi ?k = of_int m * 2 powi (e - ?k)" by (simp add: x power_int_diff)
  also have "\<dots> = of_int (m * 2 ^ nat (e - ?k))" using e by (simp add: power_int_nonneg_exp)
  finally have "x / 2 powi ?k = of_int (m * 2 ^ nat (e - ?k))" .
  then have "of_int (nearest_even (x / 2 powi ?k)) = x / 2 powi ?k" by (simp only: nearest_even_of_int)
  then show ?thesis by (simp add: dbl_pos [OF pos])
qed

lemma dbl_idem [simp]: "0 \<le> x \<Longrightarrow> dbl (dbl x) = dbl x"
proof (cases "x = 0")
  case False
  assume "0 \<le> x"
  with False have x: "0 < x" by simp
  let ?s = "(2 :: rat) powi (exponent2 x - 52)" and ?m = "nearest_even (x / 2 powi (exponent2 x - 52))"
  have d: "dbl x = of_int ?m * ?s" by (rule dbl_pos [OF x])
  have "of_int ?m * ?s \<le> of_int (2 ^ 53) * ?s"
    using dbl_range(2) [OF x] powi2_split [of "exponent2 x + 1" "exponent2 x - 52"] by (simp add: d)
  then have "(of_int ?m :: rat) \<le> of_int (2 ^ 53)" by (rule mult_right_le_imp_le) simp
  then have le: "?m \<le> 2 ^ 53" by (simp only: of_int_le_iff)
  have "0 \<le> of_int ?m * ?s" using dbl_nonneg [of x] x by (simp add: d)
  moreover have "0 < ?s" by simp
  ultimately have "(0 :: rat) \<le> of_int ?m" by (simp only: zero_le_mult_iff not_le [symmetric] simp_thms)
  then have ge: "0 \<le> ?m" by simp
  show ?thesis
  proof (cases "?m = 2 ^ 53")
    case True
    then have "dbl x = of_int 1 * 2 powi (exponent2 x + 1)"
      using powi2_split [of "exponent2 x + 1" "exponent2 x - 52"] by (simp add: d)
    then show ?thesis by (rule dbl_fixed [rotated 2]) simp_all
  next
    case False
    with le have "?m < 2 ^ 53" by linarith
    from dbl_fixed [OF ge this d] show ?thesis .
  qed
qed simp

lemma dbl_of_int: "0 \<le> n \<Longrightarrow> n < 2 ^ 53 \<Longrightarrow> dbl (of_int n) = of_int n"
  by (rule dbl_fixed [of n _ 0]) simp_all

lemma dbl_power2 [simp]: "dbl (2 powi k) = 2 powi k"
  by (rule dbl_fixed [of 1 _ k]) simp_all

lemma dbl_1 [simp]: "dbl 1 = 1"
  using dbl_of_int [of 1] by simp

lemma dbl_numeral [simp]: "numeral n < (2 ^ 53 :: int) \<Longrightarrow> dbl (numeral n) = numeral n"
  using dbl_of_int [of "numeral n"] by simp

lemma dbl_ge_1: "1 \<le> x \<Longrightarrow> 1 \<le> dbl x"
  using dbl_mono [of 1 x] by simp

lemma dbl_below: "0 \<le> x \<Longrightarrow> x \<le> dbl y \<Longrightarrow> 0 \<le> y \<Longrightarrow> dbl x \<le> dbl y"
  using dbl_mono [of x "dbl y"] by simp

lemma dbl_above: "0 \<le> y \<Longrightarrow> dbl y \<le> x \<Longrightarrow> dbl y \<le> dbl x"
  using dbl_mono [of "dbl y" x] by (simp add: dbl_nonneg)

text \<open>The double nearest to a number strictly inside a binade, for computing.\<close>

lemma dbl_eqI:
  assumes "2 ^ 52 < m" "m < 2 ^ 53" and near: "\<bar>x - of_int m * 2 powi e\<bar> < 2 powi e / 2"
  shows "dbl x = of_int m * 2 powi e"
proof -
  let ?s = "(2 :: rat) powi e"
  have s: "0 < ?s" by simp
  have "(of_int (2 ^ 52 + 1) :: rat) \<le> of_int m" "(of_int m :: rat) \<le> of_int (2 ^ 53 - 1)"
    using assms(1,2) by (simp_all only: of_int_le_iff)
  then have "of_int (2 ^ 52 + 1) * ?s \<le> of_int m * ?s" "of_int m * ?s \<le> of_int (2 ^ 53 - 1) * ?s"
    using s by (simp_all only: mult_right_mono less_imp_le)
  then have "2 ^ 52 * ?s + ?s \<le> of_int m * ?s" "of_int m * ?s \<le> 2 ^ 53 * ?s - ?s"
    by (simp_all add: algebra_simps)
  then have "2 ^ 52 * ?s < x" "x < 2 ^ 53 * ?s" using near s by linarith+
  then have b: "2 powi (e + 52) < x" "x < 2 powi (e + 53)" by (simp_all add: power_int_add mult.commute)
  have "0 < (2 :: rat) powi (e + 52)" by simp
  then have x: "0 < x" using b(1) by linarith
  have "2 powi exponent2 x < (2 powi (e + 53) :: rat)" "2 powi (e + 52) < (2 powi (exponent2 x + 1) :: rat)"
    using exponent2_bounds [OF x] b by linarith+
  then have e: "exponent2 x - 52 = e" by (auto dest!: powi2_less_imp)
  have "x / ?s - of_int m = (x - of_int m * ?s) / ?s" by (simp add: diff_divide_distrib)
  then have "\<bar>x / ?s - of_int m\<bar> = \<bar>x - of_int m * ?s\<bar> / ?s" by simp
  also have "\<dots> < 1 / 2" using near s by (simp add: divide_less_eq)
  finally have "\<bar>of_int (nearest_even (x / ?s)) - (of_int m :: rat)\<bar> < 1"
    using nearest_even_error [of "x / ?s"] by linarith
  then have "\<bar>of_int (nearest_even (x / ?s) - m) :: rat\<bar> < of_int 1" by simp
  then have "nearest_even (x / ?s) = m" by linarith
  then show ?thesis by (simp add: dbl_pos [OF x] e)
qed

text \<open>The absolute error below a power of two.\<close>

lemma dbl_error_below:
  assumes "0 \<le> x" and "x \<le> 2 powi k"
  shows "\<bar>dbl x - x\<bar> \<le> 2 powi (k - 54)"
proof (cases "x = 0 \<or> x = 2 powi k")
  case False
  with assms have x: "0 < x" "x < 2 powi k" by auto
  have "2 powi exponent2 x < (2 powi k :: rat)" using exponent2_bounds(1) [OF x(1)] x(2) by linarith
  from powi2_less_imp [OF this] have "(2 :: rat) powi (exponent2 x - 53) \<le> 2 powi (k - 54)"
    by (intro powi2_mono) simp
  with dbl_error_exponent [OF x(1)] show ?thesis by linarith
qed auto

end
