(* ===== verification/Redisx.thy ===== *)
theory Redisx
  imports Doubles
begin

text \<open>
  \<^verbatim>\<open>src/internal/redisx/redis.go\<close>: the Lua token bucket, \<open>Allow\<close>, and the short-lived cache. Redis runs a
  script atomically, so \<open>bucket_script\<close> is one step on the keyspace. Time is the server's clock in
  seconds, which \<^verbatim>\<open>TIME\<close> reads in whole microseconds. Lua's numbers are doubles: every operation of the script is
  rounded by \<open>dbl\<close>. Redis stores and returns a number argument as a decimal of 17 digits, which gives the same double
  back. A key whose \<^verbatim>\<open>EXPIRE\<close> has passed reads as absent.
\<close>

record bucket =
  b_tokens :: rat
  b_time :: rat
  b_expires :: rat

type_synonym limits = "string \<Rightarrow> bucket option"

record redis_options =
  o_DialTimeout :: duration
  o_ReadTimeout :: duration
  o_WriteTimeout :: duration
  o_MaxRetries :: int

definition redis_Open :: "(string \<Rightarrow> redis_options option) \<Rightarrow> string \<Rightarrow> redis_options option" where
  "redis_Open ParseURL raw =
     map_option (\<lambda>opts. opts\<lparr>o_DialTimeout := 2 * 1000000000, o_ReadTimeout := 2 * 1000000000,
       o_WriteTimeout := 2 * 1000000000, o_MaxRetries := 0\<rparr>) (ParseURL raw)"

definition live_bucket :: "rat \<Rightarrow> bucket option \<Rightarrow> bucket option" where
  "live_bucket clock b = (case b of None \<Rightarrow> None | Some x \<Rightarrow> if b_expires x < clock then None else Some x)"

text \<open>\<open>lua_now\<close> is the script's \<^verbatim>\<open>now\<close>: the seconds plus the microseconds of \<^verbatim>\<open>TIME\<close> divided by a million.\<close>

definition lua_now :: "rat \<Rightarrow> rat" where
  "lua_now clock =
     (let sec = \<lfloor>clock\<rfloor>; usec = \<lfloor>(clock - of_int sec) * 1000000\<rfloor>
      in dbl (dbl (of_int sec) + dbl (dbl (of_int usec) / 1000000)))"

definition refill :: "rat \<Rightarrow> rat \<Rightarrow> rat \<Rightarrow> bucket option \<Rightarrow> rat" where
  "refill now rate capacity state =
     (let tokens = (case state of None \<Rightarrow> capacity | Some b \<Rightarrow> b_tokens b);
          last_time = (case state of None \<Rightarrow> now | Some b \<Rightarrow> b_time b)
      in min capacity (dbl (tokens + dbl (max 0 (dbl (now - last_time)) * rate))))"

definition bucket_ttl :: "rat \<Rightarrow> rat \<Rightarrow> rat" where
  "bucket_ttl rate capacity = dbl (of_int \<lceil>dbl (capacity / rate)\<rceil> + 60)"

definition bucket_script :: "rat \<Rightarrow> string \<Rightarrow> int \<Rightarrow> int \<Rightarrow> limits \<Rightarrow> limits \<times> int" where
  "bucket_script clock key rate_arg capacity_arg rs =
     (let now = lua_now clock;
          rate = dbl (of_int rate_arg);
          capacity = dbl (of_int capacity_arg);
          tokens = refill now rate capacity (live_bucket clock (rs key));
          allowed = (tokens \<ge> 1);
          b = \<lparr>b_tokens = (if allowed then dbl (tokens - 1) else tokens), b_time = now,
               b_expires = clock + bucket_ttl rate capacity\<rparr>
      in (rs(key \<mapsto> b), if allowed then 1 else 0))"

datatype redis_error = RedisDown

definition Allow :: "rat \<Rightarrow> outcome \<Rightarrow> string \<Rightarrow> int \<Rightarrow> int \<Rightarrow> limits \<Rightarrow> limits \<times> (redis_error + bool)" where
  "Allow now oc key rate capacity rs =
     (let (rs', n) = bucket_script now (''limit:'' @ key) rate capacity rs
      in (apply_out oc rs rs', if oc = Done then Inr (n = 1) else Inl RedisDown))"

type_synonym cache = "string \<Rightarrow> (bytes \<times> rat) option"

definition Cached :: "(bytes \<Rightarrow> bool) \<Rightarrow> rat \<Rightarrow> outcome \<Rightarrow> cache \<Rightarrow> string \<Rightarrow> bytes option" where
  "Cached json_valid now oc ca key =
     (if oc \<noteq> Done then None
      else case ca key of
             None \<Rightarrow> None
           | Some (b, expires) \<Rightarrow> if expires < now then None else if json_valid b then Some b else None)"

definition Cache :: "rat \<Rightarrow> outcome \<Rightarrow> string \<Rightarrow> bytes \<Rightarrow> cache \<Rightarrow> cache" where
  "Cache now oc key b ca = apply_out oc ca (ca(key \<mapsto> (b, now + 5)))"

section \<open>Runs of the bucket\<close>

text \<open>The decisions of consecutive calls on one key at the given times.\<close>

fun bucket_run :: "string \<Rightarrow> int \<Rightarrow> int \<Rightarrow> rat list \<Rightarrow> limits \<Rightarrow> bool list" where
  "bucket_run key rate capacity [] rs = []"
| "bucket_run key rate capacity (t # ts) rs =
     (let (rs', n) = bucket_script t key rate capacity rs in (n = 1) # bucket_run key rate capacity ts rs')"

text \<open>The same bucket kept forever: the reference without \<^verbatim>\<open>EXPIRE\<close>.\<close>

fun eternal_run :: "rat \<Rightarrow> rat \<Rightarrow> rat list \<Rightarrow> bucket option \<Rightarrow> bool list" where
  "eternal_run rate capacity [] state = []"
| "eternal_run rate capacity (t # ts) state =
     (let tokens = refill (lua_now t) rate capacity state
      in (tokens \<ge> 1) # eternal_run rate capacity ts
           (Some \<lparr>b_tokens = (if tokens \<ge> 1 then dbl (tokens - 1) else tokens), b_time = lua_now t, b_expires = 0\<rparr>))"

section \<open>The clock\<close>

lemma lua_now_parts:
  fixes clock :: rat
  defines "us \<equiv> of_int \<lfloor>(clock - of_int \<lfloor>clock\<rfloor>) * 1000000\<rfloor> / 1000000"
  assumes "0 \<le> clock" and "clock < 2 ^ 53"
  shows "lua_now clock = dbl (of_int \<lfloor>clock\<rfloor> + dbl us)"
    and "0 \<le> us" and "us \<le> 1" and "of_int \<lfloor>clock\<rfloor> + us \<le> clock"
    and "clock \<le> of_int \<lfloor>clock\<rfloor> + us + 1 / 1000000"
proof -
  let ?x = "clock - of_int \<lfloor>clock\<rfloor>"
  have x: "0 \<le> ?x" "?x < 1" using floor_correct [of clock] by (simp_all add: algebra_simps)
  have f: "of_int \<lfloor>?x * 1000000\<rfloor> \<le> ?x * 1000000" "?x * 1000000 < of_int \<lfloor>?x * 1000000\<rfloor> + 1"
    using floor_correct [of "?x * 1000000"] by simp_all
  have u0: "0 \<le> \<lfloor>?x * 1000000\<rfloor>" using x(1) by simp
  have "(of_int \<lfloor>?x * 1000000\<rfloor> :: rat) < of_int 1000000" using f(1) x(2) by simp
  then have u1: "\<lfloor>?x * 1000000\<rfloor> < 1000000" by (simp only: of_int_less_iff)
  have "(of_int \<lfloor>clock\<rfloor> :: rat) < of_int (2 ^ 53)" using assms(3) floor_correct [of clock] by simp
  then have s: "\<lfloor>clock\<rfloor> < 2 ^ 53" by (simp only: of_int_less_iff)
  show "lua_now clock = dbl (of_int \<lfloor>clock\<rfloor> + dbl us)"
    using dbl_of_int [of "\<lfloor>clock\<rfloor>"] dbl_of_int [of "\<lfloor>?x * 1000000\<rfloor>"] assms(2) s u0 u1
    by (simp add: lua_now_def Let_def us_def)
  show "0 \<le> us" using u0 by (simp add: us_def)
  show "us \<le> 1" using f(1) x(2) by (simp add: us_def)
  show "of_int \<lfloor>clock\<rfloor> + us \<le> clock" using f(1) by (simp add: us_def field_simps)
  show "clock \<le> of_int \<lfloor>clock\<rfloor> + us + 1 / 1000000" using f(2) by (simp add: us_def field_simps)
qed

text \<open>
  Before the second \<open>2 ^ k\<close> the script's clock is off by at most half a unit in the last place below \<open>2 ^ k\<close>, a
  rounding of the fraction and, downwards, the microsecond \<^verbatim>\<open>TIME\<close> drops.
\<close>

lemma lua_now_error:
  assumes "0 \<le> clock" and "clock < 2 ^ k" and "k \<le> 53"
  shows "lua_now clock \<le> clock + 2 powi (int k - 54) + 1 / 2 ^ 53"
    and "clock - 1 / 1000000 - 2 powi (int k - 54) - 1 / 2 ^ 53 \<le> lua_now clock"
    and "0 \<le> lua_now clock"
proof -
  have "(2 :: rat) ^ k \<le> 2 ^ 53" using assms(3) by (intro power_increasing) simp_all
  then have c: "clock < 2 ^ 53" using assms(2) by linarith
  define us :: rat where "us = of_int \<lfloor>(clock - of_int \<lfloor>clock\<rfloor>) * 1000000\<rfloor> / 1000000"
  note p = lua_now_parts [OF assms(1) c, folded us_def]
  have "(of_int \<lfloor>clock\<rfloor> :: rat) < of_int (2 ^ k)" using order.strict_trans1 [OF of_int_floor_le assms(2)] by simp
  then have "\<lfloor>clock\<rfloor> + 1 \<le> 2 ^ k" by (simp only: of_int_less_iff)
  then have "(of_int (\<lfloor>clock\<rfloor> + 1) :: rat) \<le> of_int (2 ^ k)" by (simp only: of_int_le_iff)
  then have s: "(of_int \<lfloor>clock\<rfloor> :: rat) + 1 \<le> 2 powi (int k)" by simp
  have d: "dbl us \<le> 1" "0 \<le> dbl us" using dbl_mono [OF p(3,2)] dbl_nonneg [OF p(2)] by simp_all
  have s0: "(0 :: rat) \<le> of_int \<lfloor>clock\<rfloor>" using assms(1) by simp
  then have "\<bar>lua_now clock - (of_int \<lfloor>clock\<rfloor> + dbl us)\<bar> \<le> 2 powi (int k - 54)"
    unfolding p(1) using s d by (intro dbl_error_below) linarith+
  moreover have "\<bar>dbl us - us\<bar> \<le> 1 / 2 ^ 53"
    using dbl_error [OF p(2)] p(3) divide_right_mono [of us 1 "2 ^ 53"] by simp
  ultimately show "lua_now clock \<le> clock + 2 powi (int k - 54) + 1 / 2 ^ 53"
    and "clock - 1 / 1000000 - 2 powi (int k - 54) - 1 / 2 ^ 53 \<le> lua_now clock"
    using p(4,5) by linarith+
  show "0 \<le> lua_now clock" unfolding p(1) using s0 d by (intro dbl_nonneg) linarith
qed

lemma lua_now_mono:
  assumes "0 \<le> t" "t \<le> u" "u < 2 ^ 53"
  shows "lua_now t \<le> lua_now u"
proof -
  define f where "f x = (of_int \<lfloor>(x - of_int \<lfloor>x\<rfloor>) * 1000000\<rfloor> / 1000000 :: rat)" for x :: rat
  have pt: "lua_now t = dbl (of_int \<lfloor>t\<rfloor> + dbl (f t))" "0 \<le> f t" "f t \<le> 1"
    using lua_now_parts [of t] assms by (simp_all add: f_def)
  have pu: "lua_now u = dbl (of_int \<lfloor>u\<rfloor> + dbl (f u))" "0 \<le> f u"
    using lua_now_parts [of u] assms by (simp_all add: f_def)
  have "of_int \<lfloor>t\<rfloor> + dbl (f t) \<le> of_int \<lfloor>u\<rfloor> + dbl (f u)"
  proof (cases "\<lfloor>t\<rfloor> = \<lfloor>u\<rfloor>")
    case True
    then have "f t \<le> f u" using assms(2) by (auto simp: f_def intro!: divide_right_mono floor_mono)
    then show ?thesis using True pt by (simp add: dbl_mono)
  next
    case False
    with floor_mono [OF assms(2)] have "\<lfloor>t\<rfloor> + 1 \<le> \<lfloor>u\<rfloor>" by linarith
    then have "(of_int (\<lfloor>t\<rfloor> + 1) :: rat) \<le> of_int \<lfloor>u\<rfloor>" by (simp only: of_int_le_iff)
    then have "(of_int \<lfloor>t\<rfloor> :: rat) + 1 \<le> of_int \<lfloor>u\<rfloor>" by simp
    moreover have "dbl (f t) \<le> 1" using dbl_mono [OF pt(3,2)] by simp
    ultimately show ?thesis using dbl_nonneg [OF pu(2)] by linarith
  qed
  then show ?thesis
    unfolding pt(1) pu(1) using assms(1) dbl_nonneg [OF pt(2)] by (intro dbl_mono add_nonneg_nonneg) simp_all
qed

lemma lua_now_close:
  assumes "0 \<le> clock" and "clock < 2 ^ 50"
  shows "\<bar>lua_now clock - clock\<bar> \<le> 1" and "0 \<le> lua_now clock"
proof -
  have "(2 :: rat) powi (int 50 - 54) = 1 / 16" by (simp add: power_int_minus)
  then show "\<bar>lua_now clock - clock\<bar> \<le> 1" "0 \<le> lua_now clock"
    using lua_now_error [OF assms] by (simp_all add: abs_le_iff)
qed

section \<open>One step of a bucket\<close>

definition bucket_ok :: "int \<Rightarrow> int \<Rightarrow> bucket \<Rightarrow> bool" where
  "bucket_ok rate capacity b \<longleftrightarrow>
     0 \<le> b_tokens b \<and> b_tokens b \<le> dbl (of_int capacity) \<and> 0 \<le> b_time b \<and>
     \<bar>b_expires b - (b_time b + bucket_ttl (dbl (of_int rate)) (dbl (of_int capacity)))\<bar> \<le> 1"

lemma dbl_arg: "1 \<le> n \<Longrightarrow> 1 \<le> dbl (of_int n)" and dbl_arg_idem: "1 \<le> n \<Longrightarrow> dbl (dbl (of_int n)) = dbl (of_int n)"
  by (simp_all add: dbl_ge_1)

lemma refill_bounds:
  assumes "0 \<le> rate" "0 \<le> capacity" and "\<And>b. st = Some b \<Longrightarrow> 0 \<le> b_tokens b"
  shows "0 \<le> refill now rate capacity st" and "refill now rate capacity st \<le> capacity"
proof -
  show "0 \<le> refill now rate capacity st"
    using assms by (auto simp: refill_def Let_def split: option.split
        intro!: dbl_nonneg add_nonneg_nonneg mult_nonneg_nonneg)
  show "refill now rate capacity st \<le> capacity"
    by (simp add: refill_def Let_def)
qed

text \<open>A lifetime of the key that has passed is long enough to fill the bucket, whatever the roundings were.\<close>

lemma bucket_ttl_fills:
  assumes r: "1 \<le> rate" and c: "1 \<le> capacity" "dbl capacity = capacity"
    and passed: "bucket_ttl rate capacity - 2 \<le> elapsed" and "elapsed \<le> 2 ^ 51"
  shows "capacity \<le> dbl (dbl elapsed * rate)"
proof -
  let ?q = "capacity / rate" and ?n = "\<lceil>dbl (capacity / rate)\<rceil>"
  have q: "0 \<le> ?q" using r c by simp
  have dq: "0 \<le> dbl ?q" "dbl ?q \<le> of_int ?n" using dbl_nonneg [OF q] by simp_all
  have n60: "(of_int ?n :: rat) + 60 < 2 ^ 52"
  proof (rule ccontr)
    assume "\<not> ?thesis"
    then have "dbl (2 ^ 52) \<le> dbl (of_int ?n + 60)" by (intro dbl_mono) simp_all
    moreover have "dbl (2 ^ 52) = 2 ^ 52" using dbl_power2 [of 52] by simp
    ultimately show False using assms(4,5) by (simp add: bucket_ttl_def)
  qed
  have "bucket_ttl rate capacity = of_int ?n + 60"
  proof -
    have "(of_int (?n + 60) :: rat) < of_int (2 ^ 53)" using n60 by simp
    then have "?n + 60 < 2 ^ 53" by (simp only: of_int_less_iff)
    moreover have "0 \<le> ?n + 60" using dq by simp
    ultimately show ?thesis using dbl_of_int [of "?n + 60"] by (simp add: bucket_ttl_def)
  qed
  then have el: "dbl ?q + 58 \<le> elapsed" using passed dq by linarith
  have dq_low: "?q - ?q / 2 ^ 53 \<le> dbl ?q" using dbl_error [OF q] by linarith
  have "?q / 2 ^ 53 \<le> 1" using dq_low dq n60 by simp
  with el dq_low have el': "?q + 57 \<le> elapsed" by linarith
  then have e0: "0 \<le> elapsed" using q by linarith
  have "elapsed - elapsed / 2 ^ 53 \<le> dbl elapsed" using dbl_error [OF e0] by linarith
  moreover have "elapsed / 2 ^ 53 \<le> 1" using assms(5) by simp
  ultimately have "?q \<le> dbl elapsed" using el' by linarith
  then have "?q * rate \<le> dbl elapsed * rate" using r by (intro mult_right_mono) simp_all
  then have "capacity \<le> dbl elapsed * rate" using r by simp
  with dbl_mono [OF this] c show ?thesis by simp
qed

lemma refill_full:
  assumes "dbl capacity = capacity" "0 \<le> capacity" "0 \<le> b_tokens b"
    and "capacity \<le> dbl (max 0 (dbl (now - b_time b)) * rate)"
  shows "refill now rate capacity (Some b) = capacity"
proof -
  have "capacity \<le> b_tokens b + dbl (max 0 (dbl (now - b_time b)) * rate)" using assms(3,4) by linarith
  from dbl_mono [OF this assms(2)] show ?thesis using assms(1) by (simp add: refill_def)
qed

lemma refill_fresh: "dbl capacity = capacity \<Longrightarrow> refill now rate capacity None = capacity"
  by (simp add: refill_def)

text \<open>A bucket old enough to have expired would be full anyway.\<close>

lemma refill_live:
  assumes rc: "1 \<le> rate" "1 \<le> capacity" and ok: "\<And>b. st = Some b \<Longrightarrow> bucket_ok rate capacity b"
    and clock: "0 \<le> clock" "clock < 2 ^ 50"
  shows "refill (lua_now clock) (dbl (of_int rate)) (dbl (of_int capacity)) (live_bucket clock st) =
    refill (lua_now clock) (dbl (of_int rate)) (dbl (of_int capacity)) st"
proof (cases "\<exists>b. st = Some b \<and> b_expires b < clock")
  case True
  then obtain b where st: "st = Some b" and ex: "b_expires b < clock" by auto
  let ?R = "dbl (of_int rate)" and ?C = "dbl (of_int capacity)" and ?e = "lua_now clock - b_time b"
  note b = ok [OF st, unfolded bucket_ok_def]
  note now' = lua_now_close [OF clock]
  have "bucket_ttl ?R ?C - 2 \<le> ?e" using b ex now' by linarith
  moreover have "?e \<le> clock + 1" using b now' by linarith
  then have "?e \<le> 2 ^ 51" using clock(2) by simp
  ultimately have "?C \<le> dbl (dbl ?e * ?R)"
    by (rule bucket_ttl_fills [OF dbl_arg [OF rc(1)] dbl_arg [OF rc(2)] dbl_arg_idem [OF rc(2)]])
  moreover have R: "0 \<le> ?R" using dbl_arg [OF rc(1)] by linarith
  have le: "dbl ?e * ?R \<le> max 0 (dbl ?e) * ?R" by (rule mult_right_mono [OF _ R]) simp
  moreover have "dbl (dbl ?e * ?R) \<le> dbl (max 0 (dbl ?e) * ?R)"
  proof (cases "0 \<le> dbl ?e * ?R")
    case True
    then show ?thesis by (rule dbl_mono [OF le])
  next
    case False
    then have "dbl (dbl ?e * ?R) \<le> 0" by (intro dbl_neg) simp
    also have "0 \<le> dbl (max 0 (dbl ?e) * ?R)"
      by (rule dbl_nonneg, rule mult_nonneg_nonneg [OF _ R]) simp
    finally show ?thesis .
  qed
  ultimately have "?C \<le> dbl (max 0 (dbl ?e) * ?R)" by linarith
  then have "refill (lua_now clock) ?R ?C (Some b) = ?C"
    using b dbl_arg [OF rc(2)] by (intro refill_full dbl_arg_idem rc) simp_all
  then show ?thesis using ex refill_fresh [OF dbl_arg_idem [OF rc(2)]] by (simp add: st live_bucket_def)
qed (auto simp: live_bucket_def split: option.split)

definition bucket_next :: "rat \<Rightarrow> int \<Rightarrow> int \<Rightarrow> bucket option \<Rightarrow> bucket" where
  "bucket_next clock rate capacity st =
     (let k = refill (lua_now clock) (dbl (of_int rate)) (dbl (of_int capacity)) st
      in \<lparr>b_tokens = (if k \<ge> 1 then dbl (k - 1) else k), b_time = lua_now clock,
          b_expires = clock + bucket_ttl (dbl (of_int rate)) (dbl (of_int capacity))\<rparr>)"

lemma take_bounds:
  assumes "0 \<le> k" "k \<le> capacity" "dbl capacity = capacity"
  shows "0 \<le> (if k \<ge> 1 then dbl (k - 1) else k)" and "(if k \<ge> 1 then dbl (k - 1) else k) \<le> capacity"
  using assms dbl_nonneg [of "k - 1"] dbl_mono [of "k - 1" capacity] by auto

lemma bucket_script_next:
  assumes "1 \<le> rate" "1 \<le> capacity" and ok: "\<And>b. rs key = Some b \<Longrightarrow> bucket_ok rate capacity b"
    and clock: "0 \<le> clock" "clock < 2 ^ 50"
  shows "bucket_script clock key rate capacity rs =
      (rs(key \<mapsto> bucket_next clock rate capacity (rs key)),
       if refill (lua_now clock) (dbl (of_int rate)) (dbl (of_int capacity)) (rs key) \<ge> 1 then 1 else 0)"
    and "bucket_ok rate capacity (bucket_next clock rate capacity (rs key))"
proof -
  let ?R = "dbl (of_int rate)" and ?C = "dbl (of_int capacity)"
  show "bucket_script clock key rate capacity rs =
      (rs(key \<mapsto> bucket_next clock rate capacity (rs key)), if refill (lua_now clock) ?R ?C (rs key) \<ge> 1 then 1 else 0)"
    using refill_live [OF assms(1,2) ok clock] by (simp add: bucket_script_def bucket_next_def Let_def)
  have "\<And>b. rs key = Some b \<Longrightarrow> 0 \<le> b_tokens b" using ok by (auto simp: bucket_ok_def)
  moreover have "0 \<le> ?R" "0 \<le> ?C" using dbl_arg assms(1,2) by (meson order.trans zero_le_one)+
  ultimately have k: "0 \<le> refill (lua_now clock) ?R ?C (rs key)" "refill (lua_now clock) ?R ?C (rs key) \<le> ?C"
    using refill_bounds by blast+
  have "\<bar>clock + bucket_ttl ?R ?C - (lua_now clock + bucket_ttl ?R ?C)\<bar> \<le> 1"
    using lua_now_close(1) [OF clock] by (simp add: abs_minus_commute)
  then show "bucket_ok rate capacity (bucket_next clock rate capacity (rs key))"
    using take_bounds [OF k dbl_arg_idem [OF assms(2)]] lua_now_close(2) [OF clock]
    by (simp add: bucket_ok_def bucket_next_def Let_def del: One_nat_def)
qed

section \<open>Runs against a bucket that never expires\<close>

lemma eternal_run_expires:
  "eternal_run rate capacity ts (Some \<lparr>b_tokens = k, b_time = t, b_expires = e\<rparr>) =
     eternal_run rate capacity ts (Some \<lparr>b_tokens = k, b_time = t, b_expires = 0\<rparr>)"
  by (cases ts) (simp_all add: refill_def)

lemma eternal_run_next:
  "eternal_run (dbl (of_int rate)) (dbl (of_int capacity)) (t # ts) st =
     (refill (lua_now t) (dbl (of_int rate)) (dbl (of_int capacity)) st \<ge> 1) #
     eternal_run (dbl (of_int rate)) (dbl (of_int capacity)) ts (Some (bucket_next t rate capacity st))"
  by (simp add: Let_def bucket_next_def
      eternal_run_expires [where e = "t + bucket_ttl (dbl (of_int rate)) (dbl (of_int capacity))"])

lemma bucket_run_eternal:
  assumes "1 \<le> rate" and "1 \<le> capacity" and "\<And>b. rs key = Some b \<Longrightarrow> bucket_ok rate capacity b"
    and "\<forall>t \<in> set ts. 0 \<le> t \<and> t < 2 ^ 50"
  shows "bucket_run key rate capacity ts rs = eternal_run (dbl (of_int rate)) (dbl (of_int capacity)) ts (rs key)"
  using assms(3,4)
proof (induction ts arbitrary: rs)
  case (Cons t ts)
  then have t: "0 \<le> t" "t < 2 ^ 50" by simp_all
  note next' = bucket_script_next [OF assms(1,2), of rs key t, OF Cons.prems(1) t]
  let ?rs = "rs(key \<mapsto> bucket_next t rate capacity (rs key))"
  have "bucket_ok rate capacity b" if "?rs key = Some b" for b
    using that next'(2) by simp
  from Cons.IH [OF this] show ?case
    using next'(1) Cons.prems(2) by (simp add: eternal_run_next del: eternal_run.simps(2) fun_upd_apply) simp
qed simp

text \<open>
  C32: the \<^verbatim>\<open>EXPIRE\<close> of a bucket changes no decision: over every sequence of calls, a bucket that Redis may drop
  after its refill time plus sixty seconds decides exactly as one that is kept forever, with every operation of the
  script rounded to a double. Beyond the second \<open>2 ^ 50\<close> (35 million years) a double no longer holds the clock to
  the quarter of a second; the clock stays below it.
\<close>

theorem bucket_expiry_harmless:
  assumes "1 \<le> rate" and "1 \<le> capacity" and "\<And>b. rs key = Some b \<Longrightarrow> bucket_ok rate capacity b"
    and "\<forall>t \<in> set ts. 0 \<le> t \<and> t < 2 ^ 50"
  shows "bucket_run key rate capacity ts rs = eternal_run (dbl (of_int rate)) (dbl (of_int capacity)) ts (rs key)"
  using assms by (rule bucket_run_eternal)

theorem bucket_expiry_harmless_witness:
  "bucket_run ''k'' 1 3 [0, 0, 0, 0, 100] (\<lambda>_. None) =
     eternal_run (dbl (of_int 1)) (dbl (of_int 3)) [0, 0, 0, 0, 100] None"
  using bucket_expiry_harmless [of 1 3 "\<lambda>_. None" "''k''" "[0, 0, 0, 0, 100]"]
  by (simp del: bucket_run.simps eternal_run.simps)

text \<open>Every call takes a token or leaves the bucket as it was, so tokens bound the calls let through.\<close>

lemma elapsed_error:
  assumes "0 \<le> d" "0 \<le> rate"
  shows "dbl (dbl d * rate) \<le> rate * d * (1 + 1 / 2 ^ 53) * (1 + 1 / 2 ^ 53)"
proof -
  have d: "0 \<le> dbl d" by (rule dbl_nonneg [OF assms(1)])
  then have "dbl (dbl d * rate) \<le> dbl d * rate * (1 + 1 / 2 ^ 53)"
    using assms(2) by (intro dbl_upper_mult) simp
  also have "\<dots> \<le> d * (1 + 1 / 2 ^ 53) * rate * (1 + 1 / 2 ^ 53)"
    using dbl_upper_mult [OF assms(1)] assms(2) by (intro mult_right_mono) simp_all
  finally show ?thesis by (simp only: mult_ac)
qed

lemma refill_later:
  assumes "0 \<le> rate" "0 \<le> k" "0 \<le> capacity" and "t \<le> u"
  shows "refill u rate capacity (Some \<lparr>b_tokens = k, b_time = t, b_expires = e\<rparr>) \<le>
    k + rate * (u - t) * (1 + 1 / 2 ^ 53) * (1 + 1 / 2 ^ 53) + capacity / 2 ^ 53"
proof -
  let ?x = "dbl (dbl (u - t) * rate)"
  have d: "0 \<le> dbl (u - t)" using assms(4) by (simp add: dbl_nonneg)
  have x: "0 \<le> ?x" "?x \<le> rate * (u - t) * (1 + 1 / 2 ^ 53) * (1 + 1 / 2 ^ 53)"
    using assms d elapsed_error [of "u - t" rate] by (simp_all add: dbl_nonneg)
  have y: "0 \<le> k + ?x" using assms(2) x(1) by simp
  have "min capacity (dbl (k + ?x)) \<le> k + ?x + capacity / 2 ^ 53"
  proof (cases "k + ?x \<le> capacity")
    case True
    then have "(k + ?x) / 2 ^ 53 \<le> capacity / 2 ^ 53" by (rule divide_right_mono) simp
    then show ?thesis using dbl_error [OF y] by linarith
  next
    case False
    then show ?thesis using assms(3) by simp
  qed
  then show ?thesis using x(2) d by (simp add: refill_def)
qed

lemma take_error:
  assumes "0 \<le> k" "k \<le> capacity"
  shows "(if k \<ge> 1 then dbl (k - 1) else k) + of_bool (k \<ge> 1) \<le> k + capacity / 2 ^ 53"
proof (cases "k \<ge> 1")
  case True
  then have "(k - 1) / 2 ^ 53 \<le> capacity / 2 ^ 53" using assms by (intro divide_right_mono) simp_all
  moreover have "dbl (k - 1) \<le> k - 1 + (k - 1) / 2 ^ 53" using True by (intro dbl_upper) simp
  ultimately have "dbl (k - 1) + 1 \<le> k + capacity / 2 ^ 53" by linarith
  then show ?thesis using True by simp
next
  case False
  then show ?thesis using assms by simp
qed

lemma sorted_last: "sorted xs \<Longrightarrow> x \<in> set xs \<Longrightarrow> x \<le> last xs"
  by (induction xs) auto

lemma elapsed_split: "r * (b - a) * c * c + r * (d - b) * c * c = r * (d - a) * c * c" for c :: rat
  by (simp add: algebra_simps)

lemma eternal_run_bound:
  assumes rate: "0 \<le> rate" and cap: "0 \<le> capacity" "dbl capacity = capacity"
    and "sorted (t # ts)" "0 \<le> t" "last (t # ts) < 2 ^ 53"
    and "0 \<le> refill (lua_now t) rate capacity st"
  shows "of_nat (count_list (eternal_run rate capacity (t # ts) st) True) \<le>
    refill (lua_now t) rate capacity st + rate * (lua_now (last (t # ts)) - lua_now t) * (1 + 1 / 2 ^ 53) * (1 + 1 / 2 ^ 53) +
      of_nat (length ts) * (2 * capacity / 2 ^ 53) + capacity / 2 ^ 53"
  using assms(4-7)
proof (induction ts arbitrary: t st)
  case Nil
  then show ?case using cap by (simp add: Let_def)
next
  case (Cons u ts)
  let ?f = "\<lambda>d. rate * d * (1 + 1 / 2 ^ 53) * (1 + 1 / 2 ^ 53)"
  let ?k = "refill (lua_now t) rate capacity st"
  let ?k' = "if ?k \<ge> 1 then dbl (?k - 1) else ?k"
  let ?b = "Some \<lparr>b_tokens = ?k', b_time = lua_now t, b_expires = 0\<rparr>"
  let ?rest = "of_nat (count_list (eternal_run rate capacity (u # ts) ?b) True) :: rat"
  have tu: "t \<le> u" and u: "u \<le> last (u # ts)" using Cons.prems sorted_last [of "u # ts" u] by simp_all
  have now': "lua_now t \<le> lua_now u" using Cons.prems tu u by (intro lua_now_mono) simp_all
  have k: "0 \<le> ?k" "?k \<le> capacity" using Cons.prems by (simp_all add: refill_def Let_def)
  note k' = take_bounds [OF k cap(2)]
  have "0 \<le> refill (lua_now u) rate capacity ?b"
    using refill_bounds(1) [of rate capacity ?b "lua_now u"] rate cap(1) k'(1) by simp
  then have "?rest \<le> refill (lua_now u) rate capacity ?b + ?f (lua_now (last (u # ts)) - lua_now u) +
      of_nat (length ts) * (2 * capacity / 2 ^ 53) + capacity / 2 ^ 53"
    using Cons.IH [of u ?b] Cons.prems tu by simp
  moreover have "refill (lua_now u) rate capacity ?b \<le> ?k' + ?f (lua_now u - lua_now t) + capacity / 2 ^ 53"
    by (rule refill_later [OF rate k'(1) cap(1) now'])
  moreover have "?f (lua_now u - lua_now t) + ?f (lua_now (last (u # ts)) - lua_now u) =
      ?f (lua_now (last (t # u # ts)) - lua_now t)"
    using elapsed_split [of rate "lua_now u" "lua_now t" "1 + 1 / 2 ^ 53" "lua_now (last (u # ts))"]
    by (simp only: last.simps list.simps if_False)
  moreover have "?k' + of_bool (?k \<ge> 1) \<le> ?k + capacity / 2 ^ 53" by (rule take_error [OF k])
  moreover have "of_nat (count_list (eternal_run rate capacity (t # u # ts) st) True) = of_bool (?k \<ge> 1) + ?rest"
    by (simp add: Let_def)
  moreover have "of_nat (length (u # ts)) * (2 * capacity / 2 ^ 53) =
      of_nat (length ts) * (2 * capacity / 2 ^ 53) + 2 * (capacity / 2 ^ 53)"
    by (simp add: algebra_simps)
  ultimately show ?case by linarith
qed

lemma refill_idle:
  assumes b: "0 \<le> b_tokens b" and c: "1 \<le> rate" "1 \<le> capacity"
    and idle: "1 / rate + 1 / 2 ^ 50 \<le> u - b_time b"
  shows "1 \<le> refill u rate capacity (Some b)"
proof -
  let ?d = "u - b_time b"
  have r: "0 < rate" "0 < 1 / rate" "1 / rate \<le> 1" using c by (simp_all add: divide_le_eq)
  have "(0 :: rat) < 1 / 2 ^ 50" by simp
  then have d0: "0 \<le> ?d" using idle r by linarith
  have "1 / rate \<le> dbl ?d"
  proof (cases "?d \<le> 2")
    case True
    then have "?d / 2 ^ 53 \<le> 1 / 2 ^ 52" by simp
    moreover have "\<bar>dbl ?d - ?d\<bar> \<le> ?d / 2 ^ 53" by (rule dbl_error [OF d0])
    moreover have "(1 :: rat) / 2 ^ 52 \<le> 1 / 2 ^ 50" by simp
    ultimately show ?thesis using idle by linarith
  next
    case False
    then have "1 \<le> dbl ?d" by (intro dbl_ge_1) simp
    then show ?thesis using r(3) by linarith
  qed
  then have "1 / rate * rate \<le> dbl ?d * rate" using r by (intro mult_right_mono) simp_all
  then have "1 \<le> dbl ?d * rate" using r by simp
  also have "\<dots> \<le> max 0 (dbl ?d) * rate" using r by (intro mult_right_mono) simp_all
  finally have "1 \<le> dbl (max 0 (dbl ?d) * rate)" by (rule dbl_ge_1)
  then have "1 \<le> dbl (b_tokens b + dbl (max 0 (dbl ?d) * rate))" using b by (intro dbl_ge_1) simp
  then show ?thesis using c by (simp add: refill_def)
qed

text \<open>How far two readings of the script's clock before 2242 are from the time between them.\<close>

lemma lua_now_elapsed:
  assumes "0 \<le> t" "t \<le> u" "u < 2 ^ 33"
  shows "lua_now u - lua_now t \<le> u - t + 1 / 2 ^ 18"
    and "u - t - 1999999 / 1000000000000 \<le> lua_now u - lua_now t"
proof -
  have k: "(2 :: rat) powi (int 33 - 54) = 1 / 2 ^ 21" by (simp add: power_int_minus)
  have t: "t < 2 ^ 33" using assms by simp
  show "lua_now u - lua_now t \<le> u - t + 1 / 2 ^ 18"
    using lua_now_error(1) [of u 33, unfolded k] lua_now_error(2) [of t 33, unfolded k] assms t by simp
  show "u - t - 1999999 / 1000000000000 \<le> lua_now u - lua_now t"
    using lua_now_error(2) [of u 33, unfolded k] lua_now_error(1) [of t 33, unfolded k] assms t by simp
qed

text \<open>
  C31: the token bucket limits, computed in doubles as the script does it. At every configured rate and capacity (1 to
  1000), over at most 10^9 calls on one key at non-decreasing times before 2242, the calls let through are
  at most \<open>capacity\<close> plus \<open>rate\<close> times the elapsed seconds, plus a hundredth of a call for all roundings together; so,
  the number being whole, at most one more than the exact bucket. And a call is never refused after an idle time of
  one token's refill and two microseconds.
\<close>

theorem bucket_rate_bound:
  assumes "1 \<le> rate" "rate \<le> 1000" and "1 \<le> capacity" "capacity \<le> 1000"
    and "\<And>b. rs key = Some b \<Longrightarrow> bucket_ok rate capacity b"
    and "sorted (t # ts)" "0 \<le> t" "last (t # ts) < 2 ^ 33" "length ts \<le> 10 ^ 9"
    and idle: "1 / of_int rate + 2 / 1000000 \<le> u - t" "u < 2 ^ 33"
  shows "of_nat (count_list (bucket_run key rate capacity (t # ts) rs) True) \<le>
      (of_int capacity :: rat) + of_int rate * (last (t # ts) - t) + 1 / 100 \<and>
    bucket_run key rate capacity [t, u] rs ! 1"
proof
  let ?R = "of_int rate :: rat" and ?C = "of_int capacity :: rat"
  let ?k = "refill (lua_now t) ?R ?C (rs key)" and ?l = "last (t # ts)"
  have R: "dbl ?R = ?R" "1 \<le> ?R" "?R \<le> 1000" and C: "dbl ?C = ?C" "1 \<le> ?C" "?C \<le> 1000"
    using assms(1-4) dbl_of_int [of rate] dbl_of_int [of capacity] by simp_all
  have tl: "t \<le> ?l" using assms(6) sorted_last [of "t # ts" t] by simp
  have t33: "t < 2 ^ 33" using tl assms(8) by simp
  have all50: "\<forall>x \<in> set (t # ts). 0 \<le> x \<and> x < 2 ^ 50"
  proof
    fix x assume x: "x \<in> set (t # ts)"
    have "x \<le> ?l" by (rule sorted_last [OF assms(6) x])
    then show "0 \<le> x \<and> x < 2 ^ 50" using x assms(6-8) by auto
  qed
  have "\<And>b. rs key = Some b \<Longrightarrow> 0 \<le> b_tokens b" using assms(5) by (auto simp: bucket_ok_def)
  then have k: "0 \<le> ?k" "?k \<le> ?C" using refill_bounds [of ?R ?C "rs key" "lua_now t"] R C by auto
  let ?D = "lua_now ?l - lua_now t"
  have D: "?D \<le> ?l - t + 1 / 2 ^ 18" by (rule lua_now_elapsed [OF assms(7) tl assms(8)])
  have "of_nat (count_list (bucket_run key rate capacity (t # ts) rs) True) \<le>
      ?k + ?R * ?D * (1 + 1 / 2 ^ 53) * (1 + 1 / 2 ^ 53) + of_nat (length ts) * (2 * ?C / 2 ^ 53) + ?C / 2 ^ 53"
    using bucket_run_eternal [OF assms(1,3,5) all50] R C k(1) assms(6,7,8)
      eternal_run_bound [of ?R ?C t ts "rs key"] by (simp del: eternal_run.simps)
  moreover have "?R * ?D * (1 + 1 / 2 ^ 53) * (1 + 1 / 2 ^ 53) \<le> ?R * (?l - t) + 8 / 1000"
  proof -
    let ?A = "?R * (?l - t) + 1000 / 2 ^ 18"
    have RD: "?R * ?D \<le> ?R * (?l - t + 1 / 2 ^ 18)" using D R(2) by (intro mult_left_mono) simp_all
    have "?R * (1 / 2 ^ 18) \<le> 1000 * (1 / 2 ^ 18)" using R(3) by (intro mult_right_mono) simp_all
    with RD have A: "?R * ?D \<le> ?A" by (simp add: distrib_left)
    have "?R * (?l - t) \<le> 1000 * 2 ^ 33" using R(2,3) tl assms(7,8) by (intro mult_mono) simp_all
    moreover have "0 \<le> ?R * (?l - t)" using R(2) tl by (intro mult_nonneg_nonneg) simp_all
    moreover have "?R * ?D * (1 + 1 / 2 ^ 53) * (1 + 1 / 2 ^ 53) \<le> ?A * (1 + 1 / 2 ^ 53) * (1 + 1 / 2 ^ 53)"
      by (intro mult_right_mono A) simp_all
    ultimately show ?thesis by (simp add: field_simps)
  qed
  moreover have "of_nat (length ts) * (2 * ?C / 2 ^ 53) + ?C / 2 ^ 53 \<le> 1 / 1000"
  proof -
    have "(of_nat (length ts) :: rat) \<le> of_nat (10 ^ 9)" using assms(9) by (simp only: of_nat_le_iff)
    then have "of_nat (length ts) * (2 * ?C / 2 ^ 53) \<le> 10 ^ 9 * (2 * 1000 / 2 ^ 53)"
      using C(2,3) by (intro mult_mono divide_right_mono) simp_all
    then show ?thesis using C(3) by simp
  qed
  ultimately show "of_nat (count_list (bucket_run key rate capacity (t # ts) rs) True) \<le>
      ?C + ?R * (?l - t) + 1 / 100" using k(2) by linarith
  have "0 < 1 / ?R" using R by simp
  then have tu: "t \<le> u" using idle by linarith
  have el: "u - t - 1999999 / 1000000000000 \<le> lua_now u - lua_now t"
    by (rule lua_now_elapsed [OF assms(7) tu idle(2)])
  have "0 \<le> b_tokens (bucket_next t rate capacity (rs key))"
    using take_bounds [OF k C(1)] R C by (simp add: bucket_next_def Let_def)
  moreover have "1 / ?R + 1 / 2 ^ 50 \<le> lua_now u - lua_now t" using idle(1) el by simp
  ultimately have "1 \<le> refill (lua_now u) ?R ?C (Some (bucket_next t rate capacity (rs key)))"
    using R C by (intro refill_idle) (simp_all add: bucket_next_def Let_def)
  moreover have "\<forall>x \<in> set [t, u]. 0 \<le> x \<and> x < 2 ^ 50" using assms(7) tu idle(2) by simp
  ultimately show "bucket_run key rate capacity [t, u] rs ! 1"
    using bucket_run_eternal [OF assms(1,3,5), where ts = "[t, u]"] R C
    by (simp add: eternal_run_next [of rate capacity, unfolded R C] del: eternal_run.simps)
qed

theorem bucket_rate_bound_witness:
  "of_nat (count_list (bucket_run ''limit:k'' 2 3 [0, 0, 0, 0, 1] (\<lambda>_. None)) True) \<le>
      (of_int 3 :: rat) + of_int 2 * (1 - 0) + 1 / 100 \<and>
    bucket_run ''limit:k'' 2 3 [0, 1] (\<lambda>_. None) ! 1"
  using bucket_rate_bound [of 2 3 "\<lambda>_. None" "''limit:k''" 0 "[0, 0, 0, 1]" 1]
  by (simp del: bucket_run.simps)


text \<open>
  Both slacks are needed. At a rate of ten a call exactly a tenth of a second after the one that emptied the bucket is
  refused; at a rate of nine a second call is let through a microsecond before its token has refilled.
\<close>

lemma lua_now_at:
  assumes "0 \<le> s" "s < 2 ^ 53" "0 \<le> us" "us < 1000000"
    and "dbl (of_int us / 1000000) = f" and "dbl (of_int s + f) = n" and "clock = of_int s + of_int us / 1000000"
  shows "lua_now clock = n"
proof -
  have us: "0 \<le> (of_int us :: rat)" "of_int us < (1000000 :: rat)" using assms(3,4) by simp_all
  then have s: "\<lfloor>clock\<rfloor> = s" unfolding assms(7) by (intro floor_unique) simp_all
  have "\<lfloor>(clock - of_int s) * 1000000\<rfloor> = us" unfolding assms(7) by simp
  moreover have "dbl (of_int s) = of_int s" "dbl (of_int us) = of_int us"
    using assms(1-4) by (intro dbl_of_int; simp)+
  ultimately show ?thesis by (simp only: lua_now_def Let_def s assms(5,6))
qed

lemma boundary_now:
  "lua_now 1700000000 = 1700000000"
  "lua_now (1700000000 + 1 / 10) = 7130316800419430 / 2 ^ 22"
  "lua_now (1700000000 + 1998 / 1000000) = 7130316800008380 / 2 ^ 22"
  "lua_now (1700000000 + 113109 / 1000000) = 7130316800474414 / 2 ^ 22"
proof -
  show "lua_now 1700000000 = 1700000000"
    by (rule lua_now_at [of 1700000000 0 0]) simp_all
  show "lua_now (1700000000 + 1 / 10) = 7130316800419430 / 2 ^ 22"
    using dbl_eqI [of 7205759403792794 "1 / 10" "- 56"] dbl_eqI [of 7130316800419430 "1700000000 + 7205759403792794 / 2 ^ 56" "- 22"]
    by (intro lua_now_at [of 1700000000 100000 "7205759403792794 / 2 ^ 56"]) (simp_all add: power_int_minus)
  show "lua_now (1700000000 + 1998 / 1000000) = 7130316800008380 / 2 ^ 22"
    using dbl_eqI [of 4607074332408961 "1998 / 1000000" "- 61"] dbl_eqI [of 7130316800008380 "1700000000 + 4607074332408961 / 2 ^ 61" "- 22"]
    by (intro lua_now_at [of 1700000000 1998 "4607074332408961 / 2 ^ 61"]) (simp_all add: power_int_minus)
  show "lua_now (1700000000 + 113109 / 1000000) = 7130316800474414 / 2 ^ 22"
    using dbl_eqI [of 8150362404035991 "113109 / 1000000" "- 56"] dbl_eqI [of 7130316800474414 "1700000000 + 8150362404035991 / 2 ^ 56" "- 22"]
    by (intro lua_now_at [of 1700000000 113109 "8150362404035991 / 2 ^ 56"]) (simp_all add: power_int_minus)
qed

lemma boundary_elapsed:
  "dbl (7130316800419430 / 2 ^ 22 - 1700000000) = 7205752531845120 / 2 ^ 56"
  "dbl (7205752531845120 / 2 ^ 56 * 10) = 9007190664806400 / 2 ^ 53"
  "dbl (7130316800474414 / 2 ^ 22 - 7130316800008380 / 2 ^ 22) = 8006403155296256 / 2 ^ 56"
  "dbl (8006403155296256 / 2 ^ 56 * 9) = 4503601774854144 / 2 ^ 52"
  using dbl_eqI [of 7205752531845120 "7130316800419430 / 2 ^ 22 - 1700000000" "- 56"]
    dbl_eqI [of 9007190664806400 "7205752531845120 / 2 ^ 56 * 10" "- 53"]
    dbl_eqI [of 8006403155296256 "7130316800474414 / 2 ^ 22 - 7130316800008380 / 2 ^ 22" "- 56"]
    dbl_eqI [of 4503601774854144 "8006403155296256 / 2 ^ 56 * 9" "- 52"]
  by (simp_all add: power_int_minus)

lemma two_calls:
  assumes "1 \<le> rate" "rate < 2 ^ 53" "\<forall>x \<in> set [t, u]. 0 \<le> x \<and> x < 2 ^ 50"
    and "dbl (lua_now u - lua_now t) = d" "0 \<le> d" "dbl (d * of_int rate) = x"
  shows "bucket_run key rate 1 [t, u] (\<lambda>_. None) = [True, 1 \<le> x]"
proof -
  have "dbl x = x" using assms(1,5) by (simp add: assms(6) [symmetric])
  moreover have "dbl (of_int rate) = of_int rate" using assms(1,2) by (simp add: dbl_of_int)
  ultimately have "eternal_run (dbl (of_int rate)) (dbl (of_int 1)) [t, u] None = [True, 1 \<le> x]"
    using assms(4-6) by (simp add: refill_def)
  then show ?thesis using bucket_run_eternal [of rate 1 "\<lambda>_. None" key "[t, u]"] assms(1,3) by simp
qed

lemma refill_boundary_refused:
  "bucket_run key 10 1 [1700000000, 1700000000 + 1 / 10] (\<lambda>_. None) = [True, False]"
  using two_calls [of 10 1700000000 "1700000000 + 1 / 10" "7205752531845120 / 2 ^ 56" "9007190664806400 / 2 ^ 53" key]
  by (simp only: boundary_now boundary_elapsed of_int_numeral) simp

lemma refill_boundary_early:
  "bucket_run key 9 1 [1700000000 + 1998 / 1000000, 1700000000 + 113109 / 1000000] (\<lambda>_. None) = [True, True]"
  using two_calls [of 9 "1700000000 + 1998 / 1000000" "1700000000 + 113109 / 1000000"
      "8006403155296256 / 2 ^ 56" "4503601774854144 / 2 ^ 52" key]
  by (simp only: boundary_now boundary_elapsed of_int_numeral) simp

end
