(* ===== verification/Api_Server.thy ===== *)
theory Api_Server
  imports Schema Json Security Transport Config Redisx
begin

text \<open>
  \<^verbatim>\<open>src/internal/api/server.go\<close>: what every handler shares. A request is what \<^verbatim>\<open>net/http\<close> hands over (method, clean
  path, headers, cookies, query, body, and whether reading the body fails after its bytes); a response is
  its status, headers, cookie and JSON body. \<open>world\<close> is the state the server's calls change: the database, the
  rate-limit buckets and the cache.

  \<open>io\<close> is one request's view of everything outside: the clocks, the random bytes in the order they are
  drawn, and the outcome of each database and Redis call in the order the handler makes them.
  \<open>server\<close> has the configuration and the library functions the code relies on: the URL and
  mail-address parsers, RFC 3339 parsing, Unicode lower-casing and the JSON text of a \<^verbatim>\<open>time.Time\<close>.
\<close>

record server =
  sv_Config :: config
  sv_pg :: pg
  sv_cr :: crypto
  sv_url :: "string \<Rightarrow> url option"
  sv_mail :: "string \<Rightarrow> string option"
  sv_rfc3339 :: "string \<Rightarrow> time option"
  sv_lower :: "string \<Rightarrow> string"
  sv_time_json :: "time \<Rightarrow> string"

record io =
  io_now :: time
  io_clock :: time
  io_redis_now :: rat
  io_rand :: "nat \<Rightarrow> bytes"
  io_db :: plan
  io_redis :: plan

record world =
  w_db :: db
  w_limits :: limits
  w_cache :: cache

record request =
  r_Method :: string
  r_Path :: "string list"
  r_Host :: string
  r_RemoteAddr :: string
  r_Header :: "string \<Rightarrow> string"
  r_Cookie :: "string \<Rightarrow> string option"
  r_Query :: "string \<Rightarrow> string"
  r_ID :: string
  r_Body :: bytes
  r_BodyErr :: bool
  r_request :: string
  r_user :: string

record cookie =
  ck_Name :: string
  ck_Value :: string
  ck_Path :: string
  ck_HttpOnly :: bool
  ck_Secure :: bool
  ck_SameSiteStrict :: bool
  ck_MaxAge :: int

record response =
  rsp_status :: int
  rsp_headers :: "(string \<times> string) list"
  rsp_cookie :: "cookie option"
  rsp_body :: "json option"

type_synonym handler = "request \<Rightarrow> world \<Rightarrow> world \<times> response"

section \<open>Responses\<close>

definition str_obj :: "(string \<times> string) list \<Rightarrow> json" where
  "str_obj ms = JObj (go_map (map (\<lambda>(k, v). (k, JStr v)) ms))"

definition any_obj :: "(string \<times> json) list \<Rightarrow> json" where
  "any_obj ms = JObj (go_map ms)"

definition write_json :: "int \<Rightarrow> json \<Rightarrow> response" where
  "write_json status v =
     \<lparr>rsp_status = status, rsp_headers = [(''Content-Type'', ''application/json'')], rsp_cookie = None, rsp_body = Some v\<rparr>"

definition write_header :: "int \<Rightarrow> response" where
  "write_header status = \<lparr>rsp_status = status, rsp_headers = [], rsp_cookie = None, rsp_body = None\<rparr>"

definition add_header :: "string \<Rightarrow> string \<Rightarrow> response \<Rightarrow> response" where
  "add_header k v rsp = rsp\<lparr>rsp_headers := (k, v) # rsp_headers rsp\<rparr>"

definition fail :: "request \<Rightarrow> int \<Rightarrow> string \<Rightarrow> string \<Rightarrow> response" where
  "fail r status code message =
     write_json status (any_obj [(''error'', any_obj [(''code'', JStr code), (''message'', JStr message),
       (''request_id'', JStr (r_request r))])])"

definition dbError :: "request \<Rightarrow> db_error \<Rightarrow> response" where
  "dbError r e =
     (if e = ErrNoRows then fail r 404 ''NOT_FOUND'' ''resource not found''
      else fail r 500 ''INTERNAL'' ''operation could not be completed'')"

section \<open>Database calls\<close>

text \<open>
  A query with its text parameters, and a statement that commits by itself. A parameter the server does not accept
  as \<^verbatim>\<open>text\<close> fails the call.
\<close>

definition query :: "server \<Rightarrow> string list \<Rightarrow> outcome \<Rightarrow> db_error + 'a \<Rightarrow> db_error + 'a" where
  "query sv params oc res =
     (if oc \<noteq> Done then Inl Unavailable
      else if \<not> list_all (pg_text (sv_pg sv)) params then Inl DataException else res)"

definition exec ::
  "server \<Rightarrow> string list \<Rightarrow> outcome \<Rightarrow> (db \<Rightarrow> db_error + (db \<times> 'a)) \<Rightarrow> db \<Rightarrow> db \<times> (db_error + 'a)" where
  "exec sv params oc f s =
     (if \<not> list_all (pg_text (sv_pg sv)) params
      then (s, Inl (if oc = Done then DataException else Unavailable))
      else case f s of
             Inl e \<Rightarrow> (s, Inl (if oc = Done then e else Unavailable))
           | Inr (s', a) \<Rightarrow> (apply_out oc s s', if oc = Done then Inr a else Inl Unavailable))"

definition of_option :: "'a option \<Rightarrow> db_error + 'a" where
  "of_option x = (case x of None \<Rightarrow> Inl ErrNoRows | Some a \<Rightarrow> Inr a)"

definition new_token :: "io \<Rightarrow> nat \<Rightarrow> string \<Rightarrow> string" where
  "new_token i k prefix = the (Token prefix (Some (io_rand i k)))"

section \<open>Decoding the body\<close>

definition max_body :: nat where
  "max_body = 1048576"

definition decode :: "request \<Rightarrow> string list \<Rightarrow> 'a setter \<Rightarrow> 'a \<Rightarrow> response + 'a" where
  "decode r names put x =
     (let data = take max_body (r_Body r);
          eof = (length (r_Body r) \<le> max_body \<and> \<not> r_BodyErr r);
          bad = fail r 400 ''INVALID_JSON'' ''invalid JSON body or body exceeds 1 MiB''
      in case json_next data of
           None \<Rightarrow> Inl bad
         | Some (v, rest) \<Rightarrow>
             (if v = JNull \<and> rest = [] \<and> \<not> eof then Inl bad
              else case decode_struct names put v data x of
                     None \<Rightarrow> Inl bad
                   | Some y \<Rightarrow>
                       (if skip_space rest = [] \<and> eof then Inr y
                        else Inl (fail r 400 ''INVALID_JSON'' ''exactly one JSON value is required''))))"

section \<open>Ownership, paging, rows\<close>

definition user :: "request \<Rightarrow> string" where
  "user r = r_user r"

definition owns_project :: "db \<Rightarrow> string \<Rightarrow> string \<Rightarrow> bool" where
  "owns_project s u pid \<longleftrightarrow> (\<exists>p \<in> set (projects s). p_id p = pid \<and> p_owner_id p = u)"

definition owner :: "server \<Rightarrow> outcome \<Rightarrow> request \<Rightarrow> db \<Rightarrow> string \<Rightarrow> bool" where
  "owner sv oc r s pid =
     (case query sv [pid, user r] oc (Inr (owns_project s (user r) pid)) of Inl e \<Rightarrow> False | Inr ok \<Rightarrow> ok)"

definition page :: "request \<Rightarrow> int \<times> int" where
  "page r =
     (let limit0 = atoi_value (r_Query r ''limit'');
          limit = (if limit0 < 1 \<or> limit0 > 100 then 25 else limit0);
          offset0 = atoi_value (r_Query r ''offset'');
          offset1 = (if offset0 < 0 then 0 else offset0);
          offset = (if offset1 > 100000 then 100000 else offset1)
      in (limit, offset))"

definition limit_offset :: "int \<Rightarrow> int \<Rightarrow> 'r list \<Rightarrow> 'r list" where
  "limit_offset l o' rs = take (nat l) (drop (nat o') rs)"

definition newest_first :: "pg \<Rightarrow> ('r \<Rightarrow> time) \<Rightarrow> ('r \<Rightarrow> string) \<Rightarrow> 'r \<Rightarrow> 'r \<Rightarrow> bool" where
  "newest_first pg created key a b \<longleftrightarrow>
     created a > created b \<or> (created a = created b \<and> pg_id_le pg (key a) (key b))"

definition rows :: "request \<Rightarrow> db_error + (string \<times> json) list list \<Rightarrow> response" where
  "rows r res =
     (case res of
        Inl e \<Rightarrow> dbError r e
      | Inr rs \<Rightarrow>
          (let (limit, offset) = page r
           in write_json 200 (any_obj [(''items'', JArr (map any_obj rs)), (''limit'', JNum (FormatInt limit)),
                (''offset'', JNum (FormatInt offset))])))"

definition one :: "request \<Rightarrow> db_error + json \<Rightarrow> response" where
  "one r res = (case res of Inl e \<Rightarrow> dbError r e | Inr b \<Rightarrow> write_json 200 b)"

section \<open>The middleware\<close>

definition security_headers :: "string \<Rightarrow> (string \<times> string) list" where
  "security_headers rid =
     [(''X-Request-ID'', rid), (''X-Content-Type-Options'', ''nosniff''), (''Referrer-Policy'', ''no-referrer''),
      (''Cache-Control'', ''no-store''),
      (''Content-Security-Policy'', ''default-src '' @ [CHR 0x27] @ ''self'' @ [CHR 0x27] @ ''; style-src '' @ [CHR 0x27] @
         ''self'' @ [CHR 0x27] @ ''; frame-ancestors '' @ [CHR 0x27] @ ''none'' @ [CHR 0x27] @ ''; base-uri '' @
         [CHR 0x27] @ ''none'' @ [CHR 0x27])]"

definition middleware :: "server \<Rightarrow> io \<Rightarrow> handler \<Rightarrow> handler" where
  "middleware sv i next r0 w =
     (let rid = new_token i 0 ''req_'';
          r = r0\<lparr>r_request := rid\<rparr>;
          origin = r_Header r ''Origin'';
          (w', rsp) =
            (if r_Method r \<noteq> ''GET'' \<and> r_Method r \<noteq> ''HEAD'' \<and> origin \<noteq> [] \<and>
                (case sv_url sv origin of None \<Rightarrow> True | Some u \<Rightarrow> url_Host u \<noteq> r_Host r)
             then (w, fail r 403 ''ORIGIN'' ''cross-origin request rejected'')
             else if r_Method r \<noteq> ''GET'' \<and> r_Method r \<noteq> ''HEAD'' \<and> contains (r_Header r ''Sec-Fetch-Site'') ''cross-site''
             then (w, fail r 403 ''ORIGIN'' ''cross-site request rejected'')
             else next r w)
      in (w', rsp\<lparr>rsp_headers := security_headers rid @ rsp_headers rsp\<rparr>))"

definition ready :: "io \<Rightarrow> handler" where
  "ready i r w =
     (if io_db i 0 \<noteq> Done \<or> io_redis i 0 \<noteq> Done then (w, fail r 503 ''UNAVAILABLE'' ''dependency unavailable'')
      else (w, write_json 200 (str_obj [(''status'', ''ready'')])))"

end
