(* ===== verification/Json_Text.thy ===== *)
theory Json_Text
  imports Json
begin

text \<open>
  The lexical half of what the JSON reader and printer promise: a printed string or number literal reads back as itself
  in front of any text that does not continue it, and the reader returns only such texts.
\<close>

section \<open>UTF-8 text\<close>

definition rune :: "bytes \<Rightarrow> bool" where
  "rune t \<longleftrightarrow> t \<noteq> [] \<and> rune_size t = length t"

inductive utf8 :: "bytes \<Rightarrow> bool" where
  Empty: "utf8 []"
| Rune: "rune t \<Longrightarrow> utf8 s \<Longrightarrow> utf8 (t @ s)"

lemma rune_size_cases:
  assumes "rune_size t \<noteq> 0"
  obtains a s where "t = a # s" "byte a < 0x80"
  | a b s where "t = a # b # s" "rune_size t = 2" "\<And>s. rune_size (a # b # s) = 2"
  | a b c s where "t = a # b # c # s" "rune_size t = 3" "\<And>s. rune_size (a # b # c # s) = 3"
  | a b c d s where "t = a # b # c # d # s" "rune_size t = 4" "\<And>s. rune_size (a # b # c # d # s) = 4"
proof -
  obtain a s where t: "t = a # s" using assms by (cases t) auto
  show thesis
  proof (cases "byte a < 0x80")
    case False
    with assms t obtain b s' where s: "s = b # s'" by (cases s) auto
    show thesis
    proof (cases "between 0xC2 0xDF a")
      case True
      with assms t s False that(2) show thesis by (simp split: if_splits)
    next
      case two: False
      with assms t s False obtain c s'' where s': "s' = c # s''" by (cases s') auto
      show thesis
      proof (cases "between 0xE0 0xEF a")
        case True
        with assms t s s' False two that(3) [of a b c s''] show thesis
          by (simp only: rune_size.simps list.case if_True if_False split: if_split_asm) simp_all
      next
        case three: False
        with assms t s s' False two obtain d u where "s'' = d # u" by (cases s'') auto
        with assms t s s' False two three that(4) [of a b c d u] show thesis
          by (simp only: rune_size.simps list.case if_True if_False split: if_split_asm) simp_all
      qed
    qed
  qed (use t that(1) in blast)
qed

lemma rune_size_take:
  assumes "rune_size t \<noteq> 0"
  shows "rune_size (take (rune_size t) t @ s) = rune_size t \<and> rune_size t \<le> length t"
  using assms by (cases rule: rune_size_cases) (simp_all add: numeral_eq_Suc del: rune_size.simps, simp_all)

lemma rune_append: "rune t \<Longrightarrow> rune_size (t @ s) = length t"
  using rune_size_take [of t s] by (auto simp: rune_def)

lemma rune_take: "rune_size t \<noteq> 0 \<Longrightarrow> rune (take (rune_size t) t)"
  using rune_size_take [of t "[]"] by (auto simp: rune_def)

lemma rune_ascii: "byte c < 0x80 \<Longrightarrow> rune [c]"
  by (simp add: rune_def)

lemma rune_high:
  assumes "rune (c # t)" and "t \<noteq> []"
  shows "0x80 \<le> byte c"
  using assms by (auto simp: rune_def split: if_splits)

lemma rune_single: "rune [c] \<longleftrightarrow> byte c < 0x80"
  by (simp add: rune_def)

lemma utf8_append: "utf8 s \<Longrightarrow> utf8 t \<Longrightarrow> utf8 (s @ t)"
  by (induction rule: utf8.induct) (auto intro: utf8.intros)

lemma utf8_rune: "rune t \<Longrightarrow> utf8 t"
  using utf8.intros(2) [OF _ utf8.intros(1)] by simp

lemma utf8_ascii: "\<forall>c \<in> set s. byte c < 0x80 \<Longrightarrow> utf8 s"
proof (induction s)
  case (Cons c s)
  then show ?case using utf8.intros(2) [of "[c]" s] by (simp add: rune_single)
qed (rule utf8.intros)

lemma byte_char_of: "n < 256 \<Longrightarrow> byte (char_of n) = n"
  by simp

lemma rune_encode:
  assumes "r < 0x110000" and "\<not> (0xD800 \<le> r \<and> r \<le> 0xDFFF)"
  shows "rune (encode_rune r)"
proof -
  consider "r < 0x80" | "0x80 \<le> r" "r < 0x800" | "0x800 \<le> r" "r < 0x10000" | "0x10000 \<le> r" by linarith
  then show ?thesis
  proof cases
    case 1
    then show ?thesis by (simp add: encode_rune_def rune_def)
  next
    case 2
    then show ?thesis by (simp add: encode_rune_def rune_def between_def) linarith
  next
    case 3
    have "r div 4096 = r div 64 div 64" by (simp add: div_mult2_eq)
    moreover have "r < 0xD800 \<Longrightarrow> r div 64 < 864" by (rule less_mult_imp_div_less) simp
    moreover have "q mod 64 \<le> 31" if "q div 64 = 13" "q < 864" for q :: nat
      using that div_mult_mod_eq [of q 64] by simp
    ultimately have "r div 4096 = 13 \<Longrightarrow> r < 0xD800 \<Longrightarrow> r div 64 mod 64 \<le> 31" by simp
    moreover have "r div 4096 < 16" using 3 by linarith
    ultimately show ?thesis using 3 assms by (auto simp: encode_rune_def rune_def between_def)
  next
    case 4
    then have "16 \<le> r div 4096" using div_le_mono [of 65536 r 4096] by simp
    moreover have "r div 4096 < 272" using assms(1) by (intro less_mult_imp_div_less) simp
    moreover have "r div 262144 = r div 4096 div 64" by (simp add: div_mult2_eq)
    moreover have "(1 \<le> q div 64 \<or> 16 \<le> q mod 64) \<and> q div 64 \<le> 4 \<and> (q div 64 = 4 \<longrightarrow> q mod 64 < 16)"
      if "16 \<le> q" "q < 272" for q :: nat
      using that div_mult_mod_eq [of q 64] by linarith
    ultimately have "1 \<le> r div 262144 \<or> 16 \<le> r div 4096 mod 64" "r div 262144 \<le> 4" "r div 262144 = 4 \<longrightarrow> r div 4096 mod 64 < 16"
      by metis+
    with 4 assms show ?thesis by (auto simp: encode_rune_def rune_def between_def)
  qed
qed

section \<open>String literals\<close>

lemma hex4_digits:
  "hex4 (hex_digit (n div 4096 mod 16) # hex_digit (n div 256 mod 16) # hex_digit (n div 16 mod 16) # hex_digit (n mod 16) # s) =
     Some (n mod 65536, s)"
proof -
  have "((n div 4096 mod 16 * 16 + n div 256 mod 16) * 16 + n div 16 mod 16) * 16 + n mod 16 = n mod 65536"
    using mod_mult2_eq [of n 16 4096] mod_mult2_eq [of "n div 16" 16 256] mod_mult2_eq [of "n div 256" 16 16]
    by (simp add: div_mult2_eq [symmetric] mult.commute)
  then show ?thesis by (simp add: from_hex_digit)
qed

lemma from_hex_bound: "from_hex c = Some n \<Longrightarrow> n \<le> 15"
  by (auto simp: from_hex_def Let_def split: if_splits)

lemma hex4_bound: "hex4 s = Some (r, rest) \<Longrightarrow> r < 65536 \<and> length rest < length s"
  by (cases s rule: hex4.cases) (auto split: option.splits dest!: from_hex_bound)

lemma unicode_escape_hex:
  assumes "n < 65536" and "\<not> (0xD800 \<le> n \<and> n \<le> 0xDFFF)"
  shows "unicode_escape (drop 2 (hex_escape n) @ s) = Some (encode_rune n, s)"
proof -
  have "hex4 (drop 2 (hex_escape n) @ s) = Some (n, s)"
    using hex4_digits [of n s] assms(1) by (simp add: hex_escape_def)
  with assms(2) show ?thesis by (auto simp: unicode_escape_def)
qed

text \<open>What the reader makes of one escaped or literal piece of text in front of the rest of a literal.\<close>

definition reads_as :: "bytes \<Rightarrow> string \<Rightarrow> bool" where
  "reads_as q t \<longleftrightarrow> q \<noteq> [] \<and>
     (\<forall>n s. json_string (Suc n) (q @ s) = map_option (\<lambda>(u, r). (t @ u, r)) (json_string n s))"

lemma reads_hex:
  assumes "n < 65536" and "\<not> (0xD800 \<le> n \<and> n \<le> 0xDFFF)"
  shows "reads_as (hex_escape n) (encode_rune n)"
proof -
  have u: "hex_escape n = CHR 0x5C # CHR ''u'' # drop 2 (hex_escape n)" by (simp add: hex_escape_def)
  have "json_string (Suc m) (hex_escape n @ s) = map_option (\<lambda>(u, r). (encode_rune n @ u, r)) (json_string m s)" for m s
    by (subst u) (simp add: unicode_escape_hex [OF assms])
  moreover have "hex_escape n \<noteq> []" by (simp add: hex_escape_def)
  ultimately show ?thesis unfolding reads_as_def by blast
qed

lemma reads_simple:
  assumes "simple_escape e = Some c"
  shows "reads_as [CHR 0x5C, e] [c]"
proof -
  have "e \<noteq> CHR ''u''" using assms by (auto simp: simple_escape_def)
  with assms show ?thesis by (auto simp: reads_as_def)
qed

lemma reads_rune:
  assumes "rune q" and "hd q \<noteq> CHR 0x22" "hd q \<noteq> CHR 0x5C" "0x20 \<le> byte (hd q)"
  shows "reads_as q q"
proof -
  obtain c t where q: "q = c # t" using assms(1) by (cases q) (auto simp: rune_def)
  have "json_string (Suc n) (q @ s) = map_option (\<lambda>(u, r). (q @ u, r)) (json_string n s)" for n s
    using assms(2-4) rune_append [OF assms(1), of s] by (simp add: q Let_def del: rune_size.simps)
  then show ?thesis unfolding reads_as_def using q by blast
qed

lemma reads_escape:
  assumes "byte c < 0x80"
  shows "reads_as (escape_byte c) [c]"
proof -
  have "encode_rune (byte c) = [c]" using assms by (simp add: encode_rune_def)
  then have hex: "reads_as (hex_escape (byte c)) [c]" using reads_hex [of "byte c"] assms by simp
  have plain: "reads_as [c] [c]" if "c \<noteq> CHR 0x22" "c \<noteq> CHR 0x5C" "0x20 \<le> byte c"
    using reads_rune [of "[c]"] that assms by (simp add: rune_single)
  have "c = CHR 0x22 \<or> c = CHR 0x5C \<Longrightarrow> reads_as [CHR 0x5C, c] [c]" "c = CHR 0x08 \<Longrightarrow> reads_as [CHR 0x5C, CHR ''b''] [c]"
    "c = CHR 0x0C \<Longrightarrow> reads_as [CHR 0x5C, CHR ''f''] [c]" "c = CHR 0x0A \<Longrightarrow> reads_as [CHR 0x5C, CHR ''n''] [c]"
    "c = CHR 0x0D \<Longrightarrow> reads_as [CHR 0x5C, CHR ''r''] [c]" "c = CHR 0x09 \<Longrightarrow> reads_as [CHR 0x5C, CHR ''t''] [c]"
    by (rule reads_simple, auto simp: simple_escape_def)+
  with hex plain show ?thesis
    by (simp add: escape_byte_def)
qed

lemma reads_line_separator:
  assumes "line_separator t = Some u"
  shows "reads_as (hex_escape u) t"
proof -
  have "encode_rune 0x2028 = [CHR 0xE2, CHR 0x80, CHR 0xA8]" "encode_rune 0x2029 = [CHR 0xE2, CHR 0x80, CHR 0xA9]"
    by (simp_all add: encode_rune_def) code_simp+
  then show ?thesis
    using assms reads_hex [of "0x2028"] reads_hex [of "0x2029"] by (auto simp: line_separator_def split: if_splits)
qed

definition escape_rune :: "bytes \<Rightarrow> bytes" where
  "escape_rune t =
     (if length t = 1 then escape_byte (hd t)
      else case line_separator t of None \<Rightarrow> t | Some u \<Rightarrow> hex_escape u)"

lemma reads_escape_rune:
  assumes "rune t"
  shows "reads_as (escape_rune t) t"
proof (cases t)
  case (Cons c t')
  show ?thesis
  proof (cases "t' = []")
    case True
    with Cons assms show ?thesis by (simp add: escape_rune_def reads_escape rune_single)
  next
    case False
    have "0x80 \<le> byte c" using rune_high assms Cons False by blast
    then have "reads_as t t" using assms Cons by (intro reads_rune) auto
    with False Cons show ?thesis by (auto simp: escape_rune_def reads_line_separator split: option.split)
  qed
qed (use assms in \<open>simp add: rune_def\<close>)

lemma print_text_rune:
  assumes "rune t" and "length (t @ s) \<le> n"
  shows "\<exists>m \<ge> length s. print_text n (t @ s) = escape_rune t @ print_text m s"
proof -
  obtain c t' k where t: "t = c # t'" and n: "n = Suc k" using assms by (cases t; cases n) (auto simp: rune_def)
  show ?thesis
  proof (cases "t' = []")
    case True
    with assms t n show ?thesis by (intro exI [of _ k]) (auto simp: escape_rune_def rune_single)
  next
    case False
    then have "0x80 \<le> byte c" using rune_high assms(1) t by blast
    then have "print_text n (t @ s) = escape_rune t @ print_text k s"
      using rune_append [OF assms(1), of s] t n False
      by (cases "line_separator t") (simp_all add: escape_rune_def Let_def del: rune_size.simps)
    with assms(2) t n show ?thesis by (intro exI [of _ k]) auto
  qed
qed

lemma json_string_print:
  assumes "utf8 s" and "length s \<le> n" and "length (print_text n s @ CHR 0x22 # r) \<le> m"
  shows "json_string m (print_text n s @ CHR 0x22 # r) = Some (s, r)"
  using assms
proof (induction arbitrary: n m rule: utf8.induct)
  case Empty
  then show ?case by (cases n; cases m) auto
next
  case (Rune t s)
  obtain k where k: "length s \<le> k" "print_text n (t @ s) = escape_rune t @ print_text k s"
    using print_text_rune [OF Rune.hyps(1) Rune.prems(1)] by blast
  have rd: "reads_as (escape_rune t) t" by (rule reads_escape_rune [OF Rune.hyps(1)])
  obtain m' where m: "m = Suc m'" using Rune.prems(2) by (cases m) auto
  let ?rest = "print_text k s @ CHR 0x22 # r"
  have "length ?rest \<le> m'" using Rune.prems(2) k(2) m rd by (cases "escape_rune t") (auto simp: reads_as_def)
  moreover have "json_string (Suc m') (escape_rune t @ ?rest) = map_option (\<lambda>(u, r). (t @ u, r)) (json_string m' ?rest)"
    using rd unfolding reads_as_def by blast
  ultimately show ?case using Rune.IH [OF k(1)] by (simp add: k(2) m)
qed

section \<open>Numbers\<close>

text \<open>Text after a number that does not continue it: the end of input or anything but a digit, a dot or an exponent mark.\<close>

definition stops :: "bytes \<Rightarrow> bool" where
  "stops r \<longleftrightarrow> (case r of [] \<Rightarrow> True | c # _ \<Rightarrow> \<not> digit c \<and> c \<noteq> CHR ''.'' \<and> c \<noteq> CHR ''e'' \<and> c \<noteq> CHR ''E'')"

definition no_digit :: "bytes \<Rightarrow> bool" where
  "no_digit r \<longleftrightarrow> (case r of [] \<Rightarrow> True | c # _ \<Rightarrow> \<not> digit c)"

definition number :: "string \<Rightarrow> bool" where
  "number t \<longleftrightarrow> t \<noteq> [] \<and> (hd t = CHR ''-'' \<or> digit (hd t)) \<and> (\<forall>r. stops r \<longrightarrow> json_number (t @ r) = Some (t, r))"

lemma digit_marks: "\<not> digit (CHR ''.'')" "\<not> digit (CHR ''e'')" "\<not> digit (CHR ''E'')" "\<not> digit (CHR ''-'')"
    "\<not> digit (CHR ''+'')" "digit (CHR ''0'')"
  by (simp_all add: digit_def between_def)

lemma split_digits_append:
  assumes "no_digit r" and "\<forall>c \<in> set d. digit c"
  shows "split_digits (d @ r) = (d, r)"
proof -
  have "takeWhile digit r = []" "dropWhile digit r = r"
    using assms(1) by (cases r; simp add: no_digit_def)+
  with assms(2) show ?thesis by (simp add: split_digits_def)
qed

lemma split_digitsD: "split_digits s = (d, r) \<Longrightarrow> s = d @ r \<and> (\<forall>c \<in> set d. digit c)"
  by (auto simp: split_digits_def dest: set_takeWhileD)

lemma int_part_Some:
  assumes "int_part s = Some (i, r)"
  shows "s = i @ r \<and> i \<noteq> [] \<and> digit (hd i) \<and> (\<forall>x. no_digit x \<longrightarrow> int_part (i @ x) = Some (i, x))"
proof -
  obtain c s' where s: "s = c # s'" using assms by (cases s) (auto simp: int_part_def)
  show ?thesis
  proof (cases "c = CHR ''0''")
    case True
    with assms s show ?thesis by (auto simp: int_part_def digit_marks)
  next
    case False
    with assms s have d: "digit c" "split_digits s = (i, r)" by (auto simp: int_part_def split: if_splits)
    then obtain i' where i: "i = c # i'" by (auto simp: s split_digits_def)
    with d False split_digitsD [OF d(2)] split_digits_append [of _ i] show ?thesis by (auto simp: int_part_def)
  qed
qed

lemma frac_part_Some:
  assumes "frac_part s = Some (f, r)"
  shows "s = f @ r \<and> (f = [] \<or> hd f = CHR ''.'') \<and>
    (\<forall>x. no_digit x \<and> (f = [] \<longrightarrow> x = [] \<or> hd x \<noteq> CHR ''.'') \<longrightarrow> frac_part (f @ x) = Some (f, x))"
proof (cases "s \<noteq> [] \<and> hd s = CHR ''.''")
  case True
  then obtain s' where s: "s = CHR ''.'' # s'" by (cases s) auto
  obtain d q where q: "split_digits s' = (d, q)" by (cases "split_digits s'")
  with assms s have f: "f = CHR ''.'' # d" "q = r" "d \<noteq> []" by (auto simp: frac_part_def split: if_splits)
  with split_digitsD [OF q] split_digits_append [of _ d] s show ?thesis by (auto simp: frac_part_def)
next
  case False
  with assms have "f = []" "r = s" by (auto simp: frac_part_def split: list.splits if_splits)
  then show ?thesis by (auto simp: frac_part_def split: list.split)
qed

lemma sign_take: "takeWhile P (take 1 (s @ r)) = (if s = [] then takeWhile P (take 1 r) else takeWhile P (take 1 s))"
  by (cases s) auto

lemma exp_part_Some:
  assumes "exp_part s = Some (e, r)"
  shows "s = e @ r \<and> (e = [] \<or> hd e = CHR ''e'' \<or> hd e = CHR ''E'') \<and>
    (\<forall>x. stops x \<longrightarrow> exp_part (e @ x) = Some (e, x))"
proof (cases "s \<noteq> [] \<and> (hd s = CHR ''e'' \<or> hd s = CHR ''E'')")
  case True
  then obtain c s' where s: "s = c # s'" "c = CHR ''e'' \<or> c = CHR ''E''" by (cases s) auto
  define sg where "sg = takeWhile (\<lambda>x. x = CHR ''+'' \<or> x = CHR ''-'') (take 1 s')"
  obtain d q where q: "split_digits (drop (length sg) s') = (d, q)" by (cases "split_digits (drop (length sg) s')")
  with assms s have e: "e = c # sg @ d" "q = r" "d \<noteq> []" by (auto simp: exp_part_def sg_def split: if_splits)
  have sg: "s' = sg @ drop (length sg) s'" unfolding sg_def by (cases s') auto
  have d: "drop (length sg) s' = d @ r" "\<forall>c \<in> set d. digit c" using split_digitsD [OF q] e by auto
  have sgd: "takeWhile (\<lambda>x. x = CHR ''+'' \<or> x = CHR ''-'') (take 1 (sg @ d @ x)) = sg" for x
  proof (cases "sg = []")
    case True
    with d e(3) show ?thesis by (cases d) (auto simp: digit_marks)
  next
    case False
    then obtain y where "sg = [y]" "y = CHR ''+'' \<or> y = CHR ''-''"
      unfolding sg_def by (cases s') (auto split: if_splits)
    then show ?thesis by auto
  qed
  have "exp_part (e @ x) = Some (e, x)" if "stops x" for x
  proof -
    have "no_digit x" using that by (auto simp: stops_def no_digit_def split: list.splits)
    from split_digits_append [OF this d(2)] show ?thesis
      using s(2) e sgd [of x] by (auto simp: exp_part_def Let_def simp del: take_append)
  qed
  with s e sg d show ?thesis by auto
next
  case False
  with assms have "e = []" "r = s" by (auto simp: exp_part_def split: list.splits if_splits)
  then show ?thesis by (auto simp: exp_part_def stops_def split: list.splits)
qed

lemma json_number_Some:
  assumes "json_number s = Some (t, r)"
  shows "s = t @ r \<and> number t"
proof -
  define sg where "sg = takeWhile (\<lambda>x. x = CHR ''-'') (take 1 s)"
  obtain i s1 f s2 e where i: "int_part (drop (length sg) s) = Some (i, s1)" and f: "frac_part s1 = Some (f, s2)"
    and e: "exp_part s2 = Some (e, r)" and t: "t = sg @ i @ f @ e"
    using assms by (auto simp: json_number_def Let_def sg_def split: option.splits)
  note i' = int_part_Some [OF i] and f' = frac_part_Some [OF f] and e' = exp_part_Some [OF e]
  have sg: "sg = [] \<or> sg = ''-''" "s = sg @ drop (length sg) s"
    unfolding sg_def by (cases s; auto)+
  have sgi: "takeWhile (\<lambda>x. x = CHR ''-'') (take 1 (sg @ i @ x)) = sg" for x
    using sg(1) i' by (cases i) (auto simp: digit_marks)
  have "json_number (t @ x) = Some (t, x)" if x: "stops x" for x
  proof -
    have nx: "no_digit x" "x = [] \<or> hd x \<noteq> CHR ''.''"
      using x by (auto simp: stops_def no_digit_def split: list.splits)
    have ne: "no_digit (e @ x)" "e @ x = [] \<or> hd (e @ x) \<noteq> CHR ''.''"
      using nx e' by (cases e; auto simp: no_digit_def digit_marks)+
    have nf: "no_digit (f @ e @ x)" using ne f' by (cases f) (auto simp: no_digit_def digit_marks)
    have "int_part (i @ f @ e @ x) = Some (i, f @ e @ x)" "frac_part (f @ e @ x) = Some (f, e @ x)"
      "exp_part (e @ x) = Some (e, x)"
      using i' f' e' nf ne x by blast+
    then show ?thesis using sgi [of "f @ e @ x"] by (simp add: json_number_def t Let_def del: take_append)
  qed
  moreover have "s = t @ r" using sg(2) i' f' e' t by simp
  moreover have "t \<noteq> [] \<and> (hd t = CHR ''-'' \<or> digit (hd t))" using sg(1) i' t by (auto simp: hd_append)
  ultimately show ?thesis by (simp add: number_def)
qed

end
