(* ===== verification/Json_Props.thy ===== *)
theory Json_Props
  imports Json_Text
begin

text \<open>
  Trees: the reader returns only well-formed trees (\<open>json_value_wf\<close>), its fuel never decides (\<open>json_next_fuel\<close>), reading
  a printed well-formed tree gives it back, whatever follows (\<open>json_value_print\<close>), so printing is injective; and a Go
  map is determined by what it maps, not by the order in which its members were read (\<open>go_map_order\<close>).
\<close>

section \<open>Well-formed trees\<close>

fun wf_json :: "json \<Rightarrow> bool" where
  "wf_json (JNum t) \<longleftrightarrow> number t"
| "wf_json (JStr s) \<longleftrightarrow> utf8 s"
| "wf_json (JArr vs) \<longleftrightarrow> (\<forall>v \<in> set vs. wf_json v)"
| "wf_json (JObj ms) \<longleftrightarrow> (\<forall>m \<in> set ms. utf8 (fst m) \<and> wf_json (snd m))"
| "wf_json v \<longleftrightarrow> True"

fun nests :: "nat \<Rightarrow> json \<Rightarrow> bool" where
  "nests n (JArr vs) \<longleftrightarrow> 0 < n \<and> (\<forall>v \<in> set vs. nests (n - 1) v)"
| "nests n (JObj ms) \<longleftrightarrow> 0 < n \<and> (\<forall>m \<in> set ms. nests (n - 1) (snd m))"
| "nests n v \<longleftrightarrow> True"

section \<open>Reading back what was printed\<close>

abbreviation print_member :: "string \<times> json \<Rightarrow> bytes" where
  "print_member m \<equiv> print_string (fst m) @ '':'' @ json_print (snd m)"

lemma print_member_eq: "print_string k @ CHR '':'' # r = CHR 0x22 # print_text (length k) k @ CHR 0x22 # CHR '':'' # r"
  by (simp add: print_string_def)

lemma json_print_nonempty: "wf_json v \<Longrightarrow> json_print v \<noteq> [] \<and> \<not> json_space (hd (json_print v)) \<and> hd (json_print v) \<noteq> CHR '']''"
  by (cases v) (auto simp: json_space_def print_string_def number_def digit_def between_def)

lemma skip_printed: "wf_json v \<Longrightarrow> skip_space (json_print v @ r) = json_print v @ r"
  using json_print_nonempty [of v] by (cases "json_print v") auto

lemma json_literal_number:
  assumes "number t" and "stops r"
  shows "json_literal (t @ r) = Some (JNum t, r)"
proof -
  obtain c t' where t: "t = c # t'" "c = CHR ''-'' \<or> digit c" using assms(1) by (cases t) (auto simp: number_def)
  then have "c \<noteq> CHR ''n''" "c \<noteq> CHR ''t''" "c \<noteq> CHR ''f''" by (auto simp: digit_def between_def)
  then show ?thesis using assms t(1) by (auto simp: json_literal_def has_prefix_def number_def)
qed

lemma stops_marks: "stops (CHR '','' # r)" "stops (CHR '']'' # r)" "stops (CHR ''}'' # r)"
  by (simp_all add: stops_def digit_def between_def)

text \<open>
  The printed form of a non-empty list as the readers of arrays and objects see it: its first item, then the rest
  behind a comma or the closing bracket.
\<close>

lemma elems_print:
  assumes "vs \<noteq> []" and "2 * length (join '','' (map json_print vs) @ CHR '']'' # r) \<le> n + 2 * length r"
    and "\<And>v m x. v \<in> set vs \<Longrightarrow> stops x \<Longrightarrow> 2 * length (json_print v) \<le> m \<Longrightarrow> json_value m d (json_print v @ x) = Some (v, x)"
    and "\<forall>v \<in> set vs. wf_json v"
  shows "json_elems n d (join '','' (map json_print vs) @ CHR '']'' # r) = Some (vs, r)"
  using assms
proof (induction vs arbitrary: n)
  case (Cons v vs)
  obtain k where n: "n = Suc k" using Cons.prems(2) by (cases n) auto
  have ne: "json_print v \<noteq> []" using json_print_nonempty Cons.prems(4) by auto
  show ?case
  proof (cases vs)
    case Nil
    then have "json_value k d (json_print v @ CHR '']'' # r) = Some (v, CHR '']'' # r)"
      using Cons.prems n by (intro Cons.prems(3)) (auto simp: stops_marks)
    then show ?thesis by (simp add: n Nil json_space_def)
  next
    case (Cons w ws)
    let ?rest = "join '','' (map json_print vs) @ CHR '']'' # r"
    have len: "length (join '','' (map json_print (v # vs)) @ CHR '']'' # r) = length (json_print v) + 1 + length ?rest"
      using Cons by simp
    have "json_value k d (json_print v @ CHR '','' # ?rest) = Some (v, CHR '','' # ?rest)"
      using Cons.prems n len by (intro Cons.prems(3)) (auto simp: stops_marks)
    moreover have "json_elems k d ?rest = Some (vs, r)"
      using Cons.prems n len Cons ne by (intro Cons.IH) auto
    ultimately show ?thesis by (simp add: n Cons json_space_def)
  qed
qed simp

lemma member_print:
  assumes "utf8 k" and "json_value m d (json_print v @ x) = Some (v, x)"
    and x: "x = CHR ''}'' # r \<or> x = CHR '','' # r"
  shows "json_members (Suc m) d (print_member (k, v) @ x) =
    (if hd x = CHR ''}'' then Some ([(k, v)], r) else map_option (\<lambda>(ms, t). ((k, v) # ms, t)) (json_members m d r))"
proof -
  let ?s = "print_member (k, v) @ x"
  let ?t = "print_text (length k) k @ CHR 0x22 # CHR '':'' # json_print v @ x"
  have s: "?s = CHR 0x22 # ?t" by (simp add: print_string_def)
  have "json_string (length ?s) ?t = Some (k, CHR '':'' # json_print v @ x)"
    by (rule json_string_print [OF assms(1)]) (simp_all add: print_string_def)
  with assms(2) x show ?thesis
    unfolding json_members.simps s by (auto simp: json_space_def)
qed

lemma members_print:
  assumes "ms \<noteq> []" and "2 * length (join '','' (map print_member ms) @ CHR ''}'' # r) \<le> n + 2 * length r"
    and "\<And>k v m x. (k, v) \<in> set ms \<Longrightarrow> stops x \<Longrightarrow> 2 * length (json_print v) \<le> m \<Longrightarrow>
      json_value m d (json_print v @ x) = Some (v, x)"
    and "\<forall>m \<in> set ms. utf8 (fst m)"
  shows "json_members n d (join '','' (map print_member ms) @ CHR ''}'' # r) = Some (ms, r)"
  using assms
proof (induction ms arbitrary: n)
  case (Cons a ms)
  obtain k v where a: "a = (k, v)" by (cases a)
  obtain m where n: "n = Suc m" using Cons.prems(2) by (cases n) auto
  have u: "utf8 k" using Cons.prems(4) a by simp
  show ?case
  proof (cases ms)
    case Nil
    have "json_value m d (json_print v @ CHR ''}'' # r) = Some (v, CHR ''}'' # r)"
      using Cons.prems(2) n a Nil by (intro Cons.prems(3) [of k]) (auto simp: stops_marks)
    from member_print [OF u this] show ?thesis by (simp add: n a Nil)
  next
    case (Cons b bs)
    let ?rest = "join '','' (map print_member ms) @ CHR ''}'' # r"
    have eq: "join '','' (map print_member (a # ms)) @ CHR ''}'' # r = print_member (k, v) @ CHR '','' # ?rest"
      using Cons a by simp
    then have len: "length (join '','' (map print_member (a # ms)) @ CHR ''}'' # r) =
        length (print_member (k, v)) + 1 + length ?rest" by simp
    have "json_value m d (json_print v @ CHR '','' # ?rest) = Some (v, CHR '','' # ?rest)"
      using Cons.prems(2) n len a by (intro Cons.prems(3) [of k]) (auto simp: stops_marks)
    note first = member_print [OF u this]
    have "json_members m d ?rest = Some (ms, r)"
      using Cons.prems n len Cons by (intro Cons.IH) auto
    then have "json_members n d (print_member (k, v) @ CHR '','' # ?rest) = Some (a # ms, r)"
      using first by (simp add: n a del: json_members.simps)
    then show ?thesis by (simp only: eq)
  qed
qed simp

lemma array_print:
  assumes IH: "\<And>v n d r. v \<in> set vs \<Longrightarrow> wf_json v \<Longrightarrow> nests (max_nesting - d) v \<Longrightarrow> stops r \<Longrightarrow> 2 * length (json_print v) \<le> n \<Longrightarrow>
      json_value n d (json_print v @ r) = Some (v, r)"
    and prems: "wf_json (JArr vs)" "nests (max_nesting - d) (JArr vs)" "stops r" "2 * length (json_print (JArr vs)) \<le> n"
  shows "json_value n d (json_print (JArr vs) @ r) = Some (JArr vs, r)"
proof -
  obtain m where n: "n = Suc m" using prems(4) by (cases n) auto
  have d: "d < max_nesting" "max_nesting - d - 1 = max_nesting - Suc d" using prems(2) by auto
  show ?thesis
  proof (cases vs)
    case Nil
    then show ?thesis using d by (simp add: n json_space_def)
  next
    case (Cons v ws)
    let ?b = "join '','' (map json_print vs) @ CHR '']'' # r"
    have el: "json_elems m (Suc d) ?b = Some (vs, r)"
      using IH prems Cons d by (intro elems_print) (auto simp: n)
    obtain c u where cu: "?b = c # u" "c \<noteq> CHR '']''" "\<not> json_space c"
      using json_print_nonempty [of v] prems(1) Cons by (cases "json_print v"; cases ws) auto
    show ?thesis using d el by (simp add: n json_space_def cu(1)) (use cu in \<open>simp add: json_space_def\<close>)
  qed
qed

lemma object_print:
  assumes IH: "\<And>k v n d r. (k, v) \<in> set ms \<Longrightarrow> wf_json v \<Longrightarrow> nests (max_nesting - d) v \<Longrightarrow> stops r \<Longrightarrow> 2 * length (json_print v) \<le> n \<Longrightarrow>
      json_value n d (json_print v @ r) = Some (v, r)"
    and prems: "wf_json (JObj ms)" "nests (max_nesting - d) (JObj ms)" "stops r" "2 * length (json_print (JObj ms)) \<le> n"
  shows "json_value n d (json_print (JObj ms) @ r) = Some (JObj ms, r)"
proof -
  obtain m where n: "n = Suc m" using prems(4) by (cases n) auto
  have d: "d < max_nesting" "max_nesting - d - 1 = max_nesting - Suc d" using prems(2) by auto
  show ?thesis
  proof (cases ms)
    case Nil
    then show ?thesis using d by (simp add: n json_space_def)
  next
    case (Cons a as)
    let ?b = "join '','' (map print_member ms) @ CHR ''}'' # r"
    have el: "json_members m (Suc d) ?b = Some (ms, r)"
    proof (rule members_print)
      fix k v m x assume "(k, v) \<in> set ms" "stops x" "2 * length (json_print v) \<le> m"
      with prems d show "json_value m (Suc d) (json_print v @ x) = Some (v, x)" by (intro IH) force+
    qed (use prems n Cons in auto)
    obtain u where cu: "?b = CHR 0x22 # u" using Cons by (cases as) (auto simp: print_string_def)
    show ?thesis using d el cu by (simp add: n json_space_def)
  qed
qed

lemma json_value_print:
  assumes "wf_json v" and "nests (max_nesting - d) v" and "stops r" and "2 * length (json_print v) \<le> n"
  shows "json_value n d (json_print v @ r) = Some (v, r)"
  using assms
proof (induction v arbitrary: n d r)
  case JNull
  then show ?case by (cases n) (auto simp: json_space_def json_literal_def has_prefix_def)
next
  case (JBool b)
  then show ?case by (cases n; cases b) (auto simp: json_space_def json_literal_def has_prefix_def)
next
  case (JNum t)
  obtain c t' where t: "t = c # t'" "c = CHR ''-'' \<or> digit c" using JNum.prems(1) by (cases t) (auto simp: number_def)
  then have "\<not> json_space c" "c \<noteq> CHR 0x22" "c \<noteq> CHR ''[''" "c \<noteq> CHR ''{''"
    by (auto simp: json_space_def digit_def between_def)
  then show ?case
    using JNum.prems json_literal_number [of t r] t(1) by (cases n) auto
next
  case (JStr s)
  have "json_string (length (json_print (JStr s) @ r)) (print_text (length s) s @ CHR 0x22 # r) = Some (s, r)"
    using JStr.prems(1) by (intro json_string_print) (auto simp: print_string_def)
  then show ?case using JStr.prems by (cases n) (auto simp: print_string_def json_space_def)
next
  case (JArr vs)
  then show ?case by (intro array_print) blast+
next
  case (JObj ms)
  show ?case
  proof (rule object_print)
    fix k v n d r assume "(k, v) \<in> set ms" "wf_json v" "nests (max_nesting - d) v" "stops r" "2 * length (json_print v) \<le> n"
    then show "json_value n d (json_print v @ r) = Some (v, r)" by (intro JObj.IH [of "(k, v)" v]) auto
  qed (use JObj.prems in blast)+
qed

lemma json_next_print: "wf_json v \<Longrightarrow> nests max_nesting v \<Longrightarrow> json_next (json_print v) = Some (v, [])"
  using json_value_print [of v 0 "[]"] by (simp add: json_next_def stops_def del: json_value.simps)

section \<open>The reader returns well-formed trees\<close>

lemma utf8_simple: "simple_escape e = Some c \<Longrightarrow> utf8 [c]"
  by (rule utf8_ascii) (auto simp: simple_escape_def split: if_splits)

lemma utf8_replacement: "utf8 replacement"
  by (rule utf8_rune) (simp add: rune_def replacement_def between_def)

lemma low_surrogate_bound:
  "low_surrogate s = Some (l, r) \<Longrightarrow> 0xDC00 \<le> l \<and> l \<le> 0xDFFF \<and> length r < length s"
  by (auto simp: low_surrogate_def split: if_splits option.splits dest!: hex4_bound)

lemma unicode_escape_Some:
  assumes "unicode_escape s = Some (t, r)"
  shows "utf8 t \<and> length r < length s"
proof -
  obtain n q where h: "hex4 s = Some (n, q)" using assms by (auto simp: unicode_escape_def split: option.splits)
  note b = hex4_bound [OF h]
  show ?thesis
  proof (cases "0xD800 \<le> n \<and> n \<le> 0xDBFF")
    case True
    show ?thesis
    proof (cases "low_surrogate q")
      case None
      with assms h True b show ?thesis by (auto simp: unicode_escape_def utf8_replacement)
    next
      case (Some p)
      obtain l q' where p: "p = (l, q')" by (cases p)
      note lb = low_surrogate_bound [OF Some [unfolded p]]
      have "t = encode_rune ((n - 0xD800) * 1024 + (l - 0xDC00) + 0x10000)" "r = q'"
        using assms h True Some p by (auto simp: unicode_escape_def)
      moreover have "(n - 0xD800) * 1024 + (l - 0xDC00) + 0x10000 < 0x110000" using True lb by linarith
      ultimately show ?thesis using lb b by (auto intro!: utf8_rune rune_encode)
    qed
  next
    case False
    with assms h b show ?thesis
      by (auto simp: unicode_escape_def utf8_replacement split: if_splits intro!: utf8_rune rune_encode)
  qed
qed

lemma json_string_wf: "json_string n s = Some (t, r) \<Longrightarrow> utf8 t \<and> length r < length s"
proof (induction n s arbitrary: t r rule: json_string.induct)
  case (3 n c s)
  consider "c = CHR 0x22" | "c = CHR 0x5C" | "c \<noteq> CHR 0x22" "c \<noteq> CHR 0x5C" by blast
  then show ?case
  proof cases
    case 1
    with 3 show ?thesis by (auto intro: utf8.intros)
  next
    case 2
    with 3(4) obtain e s' where s: "s = e # s'" by (cases s) auto
    with 2 3(4) obtain x q u where x: "(if e = CHR ''u'' then unicode_escape s' else map_option (\<lambda>x. ([x], s')) (simple_escape e)) = Some (x, q)"
      and u: "json_string n q = Some (u, r)" "t = x @ u"
      by (auto split: option.splits)
    have "utf8 x \<and> length q \<le> length s'"
      using x unicode_escape_Some [of s' x q] utf8_simple [of e] by (auto split: if_splits)
    moreover have "utf8 u \<and> length r < length q"
      using 3(1) [OF _ 2 s x refl] 2 u by auto
    ultimately show ?thesis using u s by (auto intro: utf8_append)
  next
    case 3
    note c = this
    let ?k = "rune_size (c # s)"
    show ?thesis
    proof (cases "?k = 0")
      case True
      with c "3.prems" obtain u where "json_string n s = Some (u, r)" "t = replacement @ u"
        by (auto simp: Let_def simp del: rune_size.simps split: if_splits)
      with "3.IH"(2) [OF c _ refl True] c "3.prems" show ?thesis
        by (auto simp del: rune_size.simps intro: utf8_append utf8_replacement split: if_splits)
    next
      case False
      with c "3.prems" obtain u where "json_string n (drop ?k (c # s)) = Some (u, r)" "t = take ?k (c # s) @ u" "\<not> byte c < 0x20"
        by (auto simp: Let_def simp del: rune_size.simps split: if_splits)
      with "3.IH"(3) [OF c _ refl False] rune_take [OF False] False show ?thesis
        by (auto simp del: rune_size.simps intro: utf8_append utf8_rune)
    qed
  qed
qed auto

lemma skip_space_length: "length (skip_space s) \<le> length s"
  by (rule length_dropWhile_le)

lemma skip_space_Cons: "skip_space s = c # t \<Longrightarrow> length t < length s"
  using skip_space_length [of s] by simp

lemma json_literal_Some:
  assumes "json_literal s = Some (v, r)"
  shows "wf_json v \<and> nests n v \<and> length r < length s"
proof -
  have "length (drop k s) < length s" if "has_prefix s p" "length p = k" "0 < k" for p k
    using that drop_prefix_shorter [of p s] by auto
  from this [of "''null''" 4] this [of "''true''" 4] this [of "''false''" 5] assms show ?thesis
    by (auto simp: json_literal_def number_def split: if_splits dest!: json_number_Some)
qed

lemma json_elemsE:
  assumes "json_elems (Suc n) d s = Some (vs, r)"
  obtains v q where "json_value n d s = Some (v, q)" "skip_space q = CHR '']'' # r" "vs = [v]"
  | v q t ws where "json_value n d s = Some (v, q)" "skip_space q = CHR '','' # t" "json_elems n d t = Some (ws, r)" "vs = v # ws"
  using assms by (auto split: option.splits prod.splits list.splits if_splits simp del: dropWhile_eq_Nil_conv)

lemma json_membersE:
  assumes "json_members (Suc n) d s = Some (ms, r)"
  obtains s1 k s2 s3 v q where "skip_space s = CHR 0x22 # s1" "json_string (length s) s1 = Some (k, s2)"
    "skip_space s2 = CHR '':'' # s3" "json_value n d s3 = Some (v, q)"
    "(skip_space q = CHR ''}'' # r \<and> ms = [(k, v)]) \<or>
     (\<exists>t ws. skip_space q = CHR '','' # t \<and> json_members n d t = Some (ws, r) \<and> ms = (k, v) # ws)"
  using assms by (auto split: option.splits prod.splits list.splits if_splits simp del: dropWhile_eq_Nil_conv)

definition reads_wf :: "nat \<Rightarrow> bool" where
  "reads_wf n \<longleftrightarrow> (\<forall>d s v r. json_value n d s = Some (v, r) \<longrightarrow> wf_json v \<and> nests (max_nesting - d) v \<and> length r < length s) \<and>
     (\<forall>d s vs r. json_elems n d s = Some (vs, r) \<longrightarrow>
       (\<forall>v \<in> set vs. wf_json v \<and> nests (max_nesting - d) v) \<and> length r < length s) \<and>
     (\<forall>d s ms r. json_members n d s = Some (ms, r) \<longrightarrow>
       (\<forall>m \<in> set ms. utf8 (fst m) \<and> wf_json (snd m) \<and> nests (max_nesting - d) (snd m)) \<and> length r < length s)"

lemma reads_wfD:
  assumes "reads_wf n"
  shows "json_value n d s = Some (v, r) \<Longrightarrow> wf_json v \<and> nests (max_nesting - d) v \<and> length r < length s"
    and "json_elems n d s = Some (vs, r) \<Longrightarrow> (\<forall>v \<in> set vs. wf_json v \<and> nests (max_nesting - d) v) \<and> length r < length s"
    and "json_members n d s = Some (ms, r) \<Longrightarrow>
      (\<forall>m \<in> set ms. utf8 (fst m) \<and> wf_json (snd m) \<and> nests (max_nesting - d) (snd m)) \<and> length r < length s"
  using assms unfolding reads_wf_def by blast+

lemma value_wf_step:
  assumes wf: "reads_wf n" and read: "json_value (Suc n) d s = Some (v, r)"
  shows "wf_json v \<and> nests (max_nesting - d) v \<and> length r < length s"
proof -
  obtain c t where c: "skip_space s = c # t" using read by (cases "skip_space s") auto
  note l = skip_space_Cons [OF c]
  show ?thesis
  proof (cases "c = CHR ''['' \<or> c = CHR ''{''")
    case False
    with read c l json_string_wf [of "length s" t] json_literal_Some [of "c # t" v r "max_nesting - d"]
    show ?thesis by (auto split: if_splits)
  next
    case True
    then obtain e u where e: "skip_space t = e # u" "d < max_nesting"
      using read c by (cases "skip_space t") (auto split: if_splits simp del: dropWhile_eq_Nil_conv)
    note lu = skip_space_Cons [OF e(1)]
    have sd: "max_nesting - d - 1 = max_nesting - Suc d" by simp
    show ?thesis
    proof (cases "e = CHR '']'' \<and> c = CHR ''['' \<or> e = CHR ''}'' \<and> c = CHR ''{''")
      case True
      with read c e l lu show ?thesis by (auto split: if_splits)
    next
      case False
      with True read c e consider xs where "c = CHR ''[''" "e \<noteq> CHR '']''" "v = JArr xs" "json_elems n (Suc d) t = Some (xs, r)"
        | ms where "c = CHR ''{''" "e \<noteq> CHR ''}''" "v = JObj ms" "json_members n (Suc d) t = Some (ms, r)"
        by (auto split: if_splits)
      then show ?thesis
      proof cases
        case 1
        with reads_wfD(2) [OF wf, of "Suc d" t xs r] c e l sd show ?thesis by (auto simp: less_trans)
      next
        case 2
        with reads_wfD(3) [OF wf, of "Suc d" t ms r] c e l sd show ?thesis by (auto simp: less_trans)
      qed
    qed
  qed
qed

lemma elems_wf_step:
  assumes wf: "reads_wf n" and read: "json_elems (Suc n) d s = Some (vs, r)"
  shows "(\<forall>v \<in> set vs. wf_json v \<and> nests (max_nesting - d) v) \<and> length r < length s"
  using read
proof (cases rule: json_elemsE)
  case (1 v q)
  with reads_wfD(1) [OF wf 1(1)] skip_space_Cons [OF 1(2)] show ?thesis by auto
next
  case (2 v q t ws)
  with reads_wfD(1) [OF wf 2(1)] reads_wfD(2) [OF wf, of d t ws r] skip_space_Cons [OF 2(2)] show ?thesis by fastforce
qed

lemma members_wf_step:
  assumes wf: "reads_wf n" and read: "json_members (Suc n) d s = Some (ms, r)"
  shows "(\<forall>m \<in> set ms. utf8 (fst m) \<and> wf_json (snd m) \<and> nests (max_nesting - d) (snd m)) \<and> length r < length s"
proof -
  from read show ?thesis
  proof (rule json_membersE)
    fix s1 k s2 s3 v q
    assume s1: "skip_space s = CHR 0x22 # s1" and s2: "json_string (length s) s1 = Some (k, s2)"
      and s3: "skip_space s2 = CHR '':'' # s3" and v: "json_value n d s3 = Some (v, q)"
      and q: "(skip_space q = CHR ''}'' # r \<and> ms = [(k, v)]) \<or>
        (\<exists>t ws. skip_space q = CHR '','' # t \<and> json_members n d t = Some (ws, r) \<and> ms = (k, v) # ws)"
    have u: "utf8 k" "wf_json v" "nests (max_nesting - d) v" and len: "length q < length s"
      using json_string_wf [OF s2] reads_wfD(1) [OF wf v] skip_space_Cons [OF s1] skip_space_Cons [OF s3] by auto
    from q show ?thesis
    proof (elim disjE exE conjE)
      fix t ws
      assume t: "skip_space q = CHR '','' # t" and ws: "json_members n d t = Some (ws, r)" and ms: "ms = (k, v) # ws"
      have "(\<forall>m \<in> set ws. utf8 (fst m) \<and> wf_json (snd m) \<and> nests (max_nesting - d) (snd m)) \<and> length r < length t"
        by (rule reads_wfD(3) [OF wf ws])
      then show ?thesis using u len skip_space_Cons [OF t] by (simp add: ms)
    qed (use u len skip_space_Cons [of q] in auto)
  qed
qed

lemma json_reads_wf: "reads_wf n"
proof (induction n)
  case (Suc n)
  from value_wf_step [OF Suc] elems_wf_step [OF Suc] members_wf_step [OF Suc] show ?case
    unfolding reads_wf_def [of "Suc n"] by blast
qed (simp add: reads_wf_def)

lemmas json_value_wf = reads_wfD [OF json_reads_wf]

section \<open>Enough fuel\<close>

lemma json_string_fuel: "length s < n \<Longrightarrow> length s < m \<Longrightarrow> json_string n s = json_string m s"
proof (induction n s arbitrary: m rule: json_string.induct)
  case (3 n c s)
  obtain k where m: "m = Suc k" using 3(5) by (cases m) auto
  have esc: "json_string n q = json_string k q"
    if "c = CHR 0x5C" "s = e # s'" "(if e = CHR ''u'' then unicode_escape s' else map_option (\<lambda>x. ([x], s')) (simple_escape e)) = Some (t, q)"
    for e s' t q
  proof -
    have "length q \<le> length s'" using that(3) unicode_escape_Some [of s' t q] by (auto split: if_splits)
    then show ?thesis using 3(1) [OF _ that(1,2,3) refl, of k] 3(4,5) m that by auto
  qed
  have plain: "json_string n s = json_string k s" if "c \<noteq> CHR 0x22" "c \<noteq> CHR 0x5C" "\<not> byte c < 0x20" "rune_size (c # s) = 0"
    using 3(4,5) m by (intro 3(2) [OF that(1,2,3) refl that(4)]) auto
  have big: "json_string n (drop (rune_size (c # s)) (c # s)) = json_string k (drop (rune_size (c # s)) (c # s))"
    if "c \<noteq> CHR 0x22" "c \<noteq> CHR 0x5C" "\<not> byte c < 0x20" "rune_size (c # s) \<noteq> 0"
  proof -
    have "length (drop (rune_size (c # s)) (c # s)) \<le> length s" using that(4) by (simp del: rune_size.simps)
    then show ?thesis using 3(4,5) m by (intro 3(3) [OF that(1,2,3) refl that(4)]) auto
  qed
  consider "c = CHR 0x22" | "c = CHR 0x5C" | "c \<noteq> CHR 0x22" "c \<noteq> CHR 0x5C" "byte c < 0x20"
    | "c \<noteq> CHR 0x22" "c \<noteq> CHR 0x5C" "\<not> byte c < 0x20" by blast
  then show ?case
  proof cases
    case 2
    show ?thesis
    proof (cases s)
      case (Cons e s')
      show ?thesis
        using esc [OF 2 Cons]
        by (cases "if e = CHR ''u'' then unicode_escape s' else map_option (\<lambda>x. ([x], s')) (simple_escape e)")
          (simp_all add: m 2 Cons split: prod.split del: if_split)
    qed (simp add: m 2)
  next
    case 4
    then show ?thesis
      using plain big by (cases "rune_size (c # s) = 0") (simp_all add: m Let_def del: rune_size.simps)
  qed (simp_all add: m)
next
  case (2 n)
  then show ?case by (cases m) auto
qed auto

text \<open>The three readers on a text, given that enough fuel is enough on every shorter one.\<close>

definition fuel_enough :: "nat \<Rightarrow> bool" where
  "fuel_enough k \<longleftrightarrow> (\<forall>s n m d. length s = k \<longrightarrow>
     (2 * k + 1 \<le> n \<longrightarrow> 2 * k + 1 \<le> m \<longrightarrow> json_value n d s = json_value m d s) \<and>
     (2 * k + 2 \<le> n \<longrightarrow> 2 * k + 2 \<le> m \<longrightarrow> json_elems n d s = json_elems m d s) \<and>
     (2 * k + 2 \<le> n \<longrightarrow> 2 * k + 2 \<le> m \<longrightarrow> json_members n d s = json_members m d s))"

lemma fuel_enoughD:
  assumes "fuel_enough (length s)"
  shows "2 * length s + 1 \<le> n \<Longrightarrow> 2 * length s + 1 \<le> m \<Longrightarrow> json_value n d s = json_value m d s"
    and "2 * length s + 2 \<le> n \<Longrightarrow> 2 * length s + 2 \<le> m \<Longrightarrow> json_elems n d s = json_elems m d s"
    and "2 * length s + 2 \<le> n \<Longrightarrow> 2 * length s + 2 \<le> m \<Longrightarrow> json_members n d s = json_members m d s"
  using assms unfolding fuel_enough_def by blast+

lemma fuel_value:
  assumes less: "\<And>k. k < length s \<Longrightarrow> fuel_enough k" and ij: "2 * length s + 1 \<le> i" "2 * length s + 1 \<le> j"
  shows "json_value i d s = json_value j d s"
proof -
  obtain a b where ab: "i = Suc a" "j = Suc b" using ij by (cases i; cases j) auto
  show ?thesis
  proof (cases "skip_space s")
    case (Cons c t)
    note l = skip_space_Cons [OF Cons]
    have "json_elems a (Suc d) t = json_elems b (Suc d) t" "json_members a (Suc d) t = json_members b (Suc d) t"
      using l ij ab by (auto intro!: fuel_enoughD(2,3) less)
    then show ?thesis by (cases "skip_space t") (simp_all add: ab Cons del: dropWhile_eq_Nil_conv)
  qed (simp add: ab del: dropWhile_eq_Nil_conv)
qed

lemma fuel_elems:
  assumes less: "\<And>k. k < length s \<Longrightarrow> fuel_enough k" and nm: "2 * length s + 2 \<le> n" "2 * length s + 2 \<le> m"
  shows "json_elems n d s = json_elems m d s"
proof -
  obtain a b where ab: "n = Suc a" "m = Suc b" using nm by (cases n; cases m) auto
  have v: "json_value a d s = json_value b d s" using fuel_value [of s a b d, OF less] nm ab by simp
  have "json_elems a d t = json_elems b d t" if "json_value b d s = Some (x, q)" "skip_space q = e # t" for x q e t
    using json_value_wf(1) [OF that(1)] skip_space_Cons [OF that(2)] nm ab by (intro fuel_enoughD(2) less) auto
  then have *: "json_elems a d t = json_elems b d t" if "json_value b d s = Some p" "skip_space (snd p) = e # t" for p e t
    using that by (cases p) auto
  show ?thesis
  proof (cases "json_value b d s")
    case (Some p)
    show ?thesis
    proof (cases "skip_space (snd p)")
      case (Cons e t)
      with * [OF Some Cons] show ?thesis by (simp add: ab v Some split_beta)
    qed (simp add: ab v Some split_beta del: dropWhile_eq_Nil_conv)
  qed (simp add: ab v)
qed

lemma fuel_members:
  assumes less: "\<And>k. k < length s \<Longrightarrow> fuel_enough k" and nm: "2 * length s + 2 \<le> n" "2 * length s + 2 \<le> m"
  shows "json_members n d s = json_members m d s"
proof -
  obtain a b where ab: "n = Suc a" "m = Suc b" using nm by (cases n; cases m) auto
  have l: "length s3 < length s" if "skip_space s = f # s1" "json_string (length s) s1 = Some (k, s2)" "skip_space s2 = g # s3"
    for f s1 k s2 g s3
    using skip_space_Cons [OF that(1)] json_string_wf [OF that(2)] skip_space_Cons [OF that(3)] by simp
  have v: "json_value a d t = json_value b d t" "json_members a d t = json_members b d t" if "length t < length s" for t
    using that nm ab by (auto intro!: fuel_enoughD less)
  have mm: "json_members a d t = json_members b d t"
    if "length s3 < length s" "json_value b d s3 = Some (x, q)" "skip_space q = e # t" for s3 x q e t
    using v(2) [of t] that(1) json_value_wf(1) [OF that(2)] skip_space_Cons [OF that(3)] by simp
  show ?thesis
  proof (cases "skip_space s")
    case s: (Cons f s1)
    show ?thesis
    proof (cases "json_string (length s) s1")
      case k: (Some p)
      show ?thesis
      proof (cases "skip_space (snd p)")
        case s2: (Cons g s3)
        have l3: "length s3 < length s" using l [OF s _ s2, of "fst p"] k by simp
        show ?thesis
        proof (cases "json_value b d s3")
          case x: (Some y)
          show ?thesis
          proof (cases "skip_space (snd y)")
            case (Cons e t)
            with mm [OF l3 _ Cons, of "fst y"] x v(1) [OF l3] show ?thesis by (simp add: ab s k s2 split_beta)
          qed (use v(1) [OF l3] x in \<open>simp add: ab s k s2 split_beta del: dropWhile_eq_Nil_conv\<close>)
        qed (use v(1) [OF l3] in \<open>simp add: ab s k s2 split_beta\<close>)
      qed (simp add: ab s k split_beta del: dropWhile_eq_Nil_conv)
    qed (simp add: ab s)
  qed (simp add: ab del: dropWhile_eq_Nil_conv)
qed

lemma json_fuel: "fuel_enough k"
proof (induction k rule: less_induct)
  case (less k)
  then show ?case using fuel_value fuel_elems fuel_members unfolding fuel_enough_def [of k] by blast
qed

text \<open>The fuel of \<open>json_next\<close> never decides: any larger amount reads the same.\<close>

lemma json_next_fuel: "2 * length s + 1 \<le> n \<Longrightarrow> json_value n 0 s = json_next s"
  using fuel_enoughD(1) [OF json_fuel, of s n "2 * length s + 1" 0] by (simp add: json_next_def del: json_value.simps)

section \<open>Printing is injective\<close>

lemma print_string_inject:
  assumes "print_string a @ r = print_string b @ q" and "utf8 a" "utf8 b"
  shows "a = b \<and> r = q"
proof -
  have eq: "print_text (length a) a @ CHR 0x22 # r = print_text (length b) b @ CHR 0x22 # q"
    using assms(1) by (simp add: print_string_def)
  from json_string_print [OF assms(2) order_refl order_refl, of r] json_string_print [OF assms(3) order_refl order_refl, of q]
  show ?thesis unfolding eq by simp
qed

lemma json_print_inject:
  assumes "json_print a @ r = json_print b @ q" and "wf_json a" "wf_json b" "nests max_nesting a" "nests max_nesting b"
    and "stops r" "stops q"
  shows "a = b \<and> r = q"
proof -
  let ?n = "2 * length (json_print a) + 2 * length (json_print b)"
  have "json_value ?n 0 (json_print a @ r) = Some (a, r)" "json_value ?n 0 (json_print b @ q) = Some (b, q)"
    using assms(2-7) by (auto intro!: json_value_print)
  then have "Some (a, r) = Some (b, q)" unfolding assms(1) by (rule trans [OF sym])
  then show ?thesis by blast
qed

section \<open>Go maps\<close>

lemma str_le_refl [simp]: "str_le s s"
  by (induction s) auto

lemma str_le_total: "str_le s t \<or> str_le t s"
proof (induction s t rule: str_le.induct)
  case (3 x s y t)
  then show ?case by (cases "byte x" "byte y" rule: linorder_cases) auto
qed auto

lemma str_le_trans: "str_le s t \<Longrightarrow> str_le t u \<Longrightarrow> str_le s u"
proof (induction s t arbitrary: u rule: str_le.induct)
  case (3 x s y t)
  then show ?case by (cases u) auto
qed auto

lemma str_le_antisym: "str_le s t \<Longrightarrow> str_le t s \<Longrightarrow> s = t"
proof (induction s t rule: str_le.induct)
  case (1 t)
  then show ?case by (cases t) auto
qed auto

interpretation key_order: row_order "\<lambda>m n. str_le (fst m) (fst n)"
  by unfold_locales (use str_le_total str_le_trans in blast)+

definition key_less :: "string \<times> 'v \<Rightarrow> string \<times> 'v \<Rightarrow> bool" where
  "key_less m n \<longleftrightarrow> str_le (fst m) (fst n) \<and> fst m \<noteq> fst n"

lemma set_map_put: "set (map_put k v m) \<subseteq> insert (k, v) (set m)"
  by (induction m) (auto split: if_splits)

lemma map_of_map_put [simp]: "map_of (map_put k v m) = (map_of m)(k \<mapsto> v)"
  by (induction m) auto

lemma map_put_sorted: "sorted_wrt key_less m \<Longrightarrow> sorted_wrt key_less (map_put k v m)"
proof (induction m)
  case (Cons a m)
  obtain k' v' where a: "a = (k', v')" by (cases a)
  have low: "key_less (k', v') x" if "x \<in> set (map_put k v m)" "\<not> str_le k k'" for x
    using that Cons.prems set_map_put [of k v m] str_le_total [of k k'] by (auto simp: a key_less_def)
  have tr: "key_less (k, v) x" if "str_le k k'" "k \<noteq> k'" "x \<in> set m" for x
    using that Cons.prems str_le_trans str_le_antisym by (fastforce simp: a key_less_def)
  show ?case using Cons low tr by (auto simp: a key_less_def)
qed simp

lemma go_map_snoc: "go_map (ms @ [(k, v)]) = map_put k v (go_map ms)"
  by (simp add: go_map_def)

lemma go_map_sorted: "sorted_wrt key_less (go_map ms)"
  by (induction ms rule: rev_induct) (auto simp: go_map_snoc map_put_sorted, simp add: go_map_def)

lemma set_go_map: "set (go_map ms) \<subseteq> set ms"
proof (induction ms rule: rev_induct)
  case (snoc m ms)
  then show ?case using set_map_put [of "fst m" "snd m" "go_map ms"] by (cases m) (auto simp: go_map_snoc)
qed (simp add: go_map_def)

lemma map_of_go_map: "map_of (go_map ms) = map_of (rev ms)"
  by (induction ms rule: rev_induct) (auto simp: go_map_snoc, simp add: go_map_def)

lemma key_less_notin: "sorted_wrt key_less ((k, v) # m) \<Longrightarrow> k \<notin> fst ` set m"
  by (auto simp: key_less_def)

lemma map_of_tail: "sorted_wrt key_less ((k, v) # m) \<Longrightarrow> map_of m = (map_of ((k, v) # m))(k := None)"
  using key_less_notin [of k v m] by (auto simp: fun_eq_iff map_of_eq_None_iff)

text \<open>A Go map listed in key order is determined by what it maps.\<close>

lemma sorted_map_unique:
  assumes "sorted_wrt key_less m" "sorted_wrt key_less m'" and "map_of m = map_of m'"
  shows "m = m'"
  using assms
proof (induction m arbitrary: m')
  case Nil
  then show ?case by (metis map_of_eq_empty_iff)
next
  case (Cons a m)
  obtain k v where a: "a = (k, v)" by (cases a)
  have "m' \<noteq> []" using Cons.prems(3) by (metis list.distinct(1) map_of.simps(1) map_of_eq_empty_iff)
  then obtain k' v' n where m': "m' = (k', v') # n" by (cases m') auto
  have "k \<in> fst ` set m'" "k' \<in> fst ` set (a # m)"
    using Cons.prems(3) a m' by (metis dom_map_of_conv_image_fst fun_upd_same domI map_of.simps(2) fst_conv snd_conv)+
  then have "str_le k k'" "str_le k' k" using Cons.prems(1,2) a m' by (auto simp: key_less_def)
  then have k: "k = k'" by (rule str_le_antisym)
  moreover have "v = v'" using Cons.prems(3) a m' k by (auto dest: fun_cong [of _ _ k])
  moreover have "map_of m = (map_of (a # m))(k := None)"
    using Cons.prems(1) unfolding a k by (rule map_of_tail)
  moreover have "map_of n = (map_of m')(k := None)"
    using Cons.prems(2) unfolding m' k by (rule map_of_tail)
  ultimately have "map_of m = map_of n" "v = v'" by (simp_all only: Cons.prems(3))
  then have "m = n" using Cons m' by simp
  with \<open>v = v'\<close> show ?case by (simp add: a m' k)
qed

lemma go_map_eq_iff: "go_map ms = go_map ns \<longleftrightarrow> map_of (rev ms) = map_of (rev ns)"
  by (metis go_map_sorted map_of_go_map sorted_map_unique)

lemma go_map_order:
  assumes "distinct (map fst ms)" "distinct (map fst ns)" and "set ms = set ns"
  shows "go_map ms = go_map ns"
proof -
  have "map_of (rev ms) = map_of (rev ns)"
    by (rule map_of_inject_set [THEN iffD2]) (use assms in \<open>simp_all add: rev_map [symmetric]\<close>)
  then show ?thesis by (simp add: go_map_eq_iff)
qed

lemma go_value_wf: "wf_json v \<Longrightarrow> wf_json (go_value v)" and go_value_nests: "nests n v \<Longrightarrow> nests n (go_value v)"
proof (induction v arbitrary: n rule: go_value.induct)
  case (2 ms)
  let ?ms = "map (\<lambda>m. (fst m, go_value (snd m))) ms"
  have sub: "\<exists>m0 \<in> set ms. m = (fst m0, go_value (snd m0))" if "m \<in> set (go_map ?ms)" for m
    using that set_go_map [of ?ms] by auto
  {
    case 1
    with 2 sub show ?case by fastforce
  next
    case 2
    with "2.IH"(2) sub show ?case by fastforce
  }
qed auto

lemmas json_eval = json_next_def json_space_def max_nesting_def numeral_eq_Suc json_literal_def has_prefix_def
  json_number_def int_part_def frac_part_def exp_part_def split_digits_def digit_def between_def Let_def

end
