(* ===== verification/Events.thy ===== *)
theory Events
  imports Json_Props Security
begin

text \<open>
  \<^verbatim>\<open>src/internal/events/events.go\<close>: the ingestion request, its validation and the canonical form whose hash
  decides whether a repeated \<^verbatim>\<open>event_id\<close> is a duplicate or a conflict.
\<close>

record input =
  i_EventID :: string
  i_Type :: string
  i_Data :: bytes

datatype event_error = BadEventID | BadType | BadData

definition identifier_head :: "char \<Rightarrow> bool" where
  "identifier_head c \<longleftrightarrow> between 65 90 c \<or> between 97 122 c \<or> between 48 57 c"

definition identifier_tail :: "char \<Rightarrow> bool" where
  "identifier_tail c \<longleftrightarrow> identifier_head c \<or> c \<in> set ''._:-''"

definition valid_identifier :: "string \<Rightarrow> bool" where
  "valid_identifier s =
     (case s of [] \<Rightarrow> False | c # t \<Rightarrow> identifier_head c \<and> length t \<le> 127 \<and> list_all identifier_tail t)"

definition Validate :: "input \<Rightarrow> event_error + unit" where
  "Validate v =
     (if \<not> valid_identifier (i_EventID v) then Inl BadEventID
      else if \<not> valid_identifier (i_Type v) then Inl BadType
      else if length (i_Data v) = 0 \<or> \<not> json_valid (i_Data v) then Inl BadData
      else Inr ())"

definition canonical_tree :: "input \<Rightarrow> json \<Rightarrow> json" where
  "canonical_tree v data = JObj [(''event_id'', JStr (i_EventID v)), (''type'', JStr (i_Type v)), (''data'', data)]"

definition Canonical :: "crypto \<Rightarrow> input \<Rightarrow> (bytes \<times> string) option" where
  "Canonical cr v =
     map_option (\<lambda>(data, rest). let b = json_print (canonical_tree v (go_value data)) in (b, Hash cr b))
       (json_next (i_Data v))"

text \<open>The JSON tags of \<open>input\<close>, as \<^verbatim>\<open>decode\<close> in the API uses them.\<close>

definition input_names :: "string list" where
  "input_names = [''event_id'', ''type'', ''data'']"

definition put_input :: "input setter" where
  "put_input f raw v x =
     (if f = ''event_id'' then text_field v (\<lambda>t. x\<lparr>i_EventID := t\<rparr>) x
      else if f = ''type'' then text_field v (\<lambda>t. x\<lparr>i_Type := t\<rparr>) x
      else Some (x\<lparr>i_Data := raw\<rparr>))"

section \<open>Properties\<close>

lemma identifier_chars: "valid_identifier s \<Longrightarrow> s \<noteq> [] \<and> length s \<le> 128 \<and> (\<forall>c \<in> set s. identifier_tail c)"
  by (auto simp: valid_identifier_def identifier_tail_def list_all_iff split: list.splits)

lemma Validate_Canonical: "Validate v = Inr () \<Longrightarrow> \<exists>b. Canonical cr v = Some (b, Hash cr b)"
  by (auto simp: Validate_def json_valid_def Canonical_def Let_def split: if_splits option.splits)

lemma identifier_ascii: "identifier_tail c \<Longrightarrow> byte c < 0x80"
  by (auto simp: identifier_tail_def identifier_head_def between_def)

lemma identifier_utf8: "valid_identifier s \<Longrightarrow> utf8 s"
  by (rule utf8_ascii) (auto dest!: identifier_chars intro: identifier_ascii)

lemma json_next_wf: "json_next s = Some (t, r) \<Longrightarrow> wf_json t \<and> nests max_nesting t"
  using json_value_wf(1) [of "2 * length s + 1" 0 s t r] by (simp add: json_next_def del: json_value.simps)

lemma canonical_print:
  "json_print (canonical_tree v data) =
     ''{'' @ print_string ''event_id'' @ '':'' @ print_string (i_EventID v) @ '','' @
     print_string ''type'' @ '':'' @ print_string (i_Type v) @ '','' @ print_string ''data'' @ '':'' @ json_print data @ ''}''"
  by (simp add: canonical_tree_def)

lemma canonical_inject:
  assumes "json_print (canonical_tree v x) = json_print (canonical_tree v' x')"
    and "utf8 (i_EventID v)" "utf8 (i_EventID v')" "utf8 (i_Type v)" "utf8 (i_Type v')"
    and "wf_json x" "wf_json x'" "nests max_nesting x" "nests max_nesting x'"
  shows "i_EventID v = i_EventID v' \<and> i_Type v = i_Type v' \<and> x = x'"
proof -
  let ?ty = "\<lambda>v x. '','' @ print_string ''type'' @ '':'' @ print_string (i_Type v) @ '','' @ print_string ''data'' @ '':'' @ json_print x @ ''}''"
  have "print_string (i_EventID v) @ ?ty v x = print_string (i_EventID v') @ ?ty v' x'"
    using assms(1) by (simp add: canonical_print)
  from print_string_inject [OF this assms(2,3)] have id: "i_EventID v = i_EventID v'" "?ty v x = ?ty v' x'" by simp_all
  then have "print_string (i_Type v) @ '','' @ print_string ''data'' @ '':'' @ json_print x @ ''}'' =
      print_string (i_Type v') @ '','' @ print_string ''data'' @ '':'' @ json_print x' @ ''}''" by simp
  from print_string_inject [OF this assms(4,5)] have ty: "i_Type v = i_Type v'" "json_print x @ ''}'' = json_print x' @ ''}''"
    by simp_all
  from json_print_inject [OF ty(2) assms(6-9) stops_marks(3) stops_marks(3)] id ty show ?thesis by simp
qed

text \<open>
  C26: the canonical form decides what an event says. For two validated requests it is the same text exactly when
  the event ids, the types and the data agree as values: objects as maps from names to values, whatever the order
  of their members, the white space and the escapes used; numbers by their literal. In particular, listing the
  members of a top-level object in another order changes neither the text nor its hash.
\<close>

theorem Canonical_decides:
  assumes valid: "Validate v = Inr ()" "Validate v' = Inr ()"
    and can: "Canonical cr v = Some (b, h)" "Canonical cr v' = Some (b', h')"
    and data: "json_next (i_Data v) = Some (t, r)" "json_next (i_Data v') = Some (t', r')"
  shows "(b = b' \<longleftrightarrow> i_EventID v = i_EventID v' \<and> i_Type v = i_Type v' \<and> go_value t = go_value t') \<and>
    (b = b' \<longrightarrow> h = h') \<and>
    (\<forall>ms ms'. t = JObj ms \<and> t' = JObj ms' \<and> set ms = set ms' \<and> distinct (map fst ms) \<and> distinct (map fst ms') \<longrightarrow>
       go_value t = go_value t')"
proof -
  have u: "utf8 (i_EventID v)" "utf8 (i_EventID v')" "utf8 (i_Type v)" "utf8 (i_Type v')"
    using valid by (auto simp: Validate_def identifier_utf8 split: if_splits)
  have b: "b = json_print (canonical_tree v (go_value t))" "h = Hash cr b"
    "b' = json_print (canonical_tree v' (go_value t'))" "h' = Hash cr b'"
    using can data by (auto simp: Canonical_def Let_def)
  have "b = b' \<longrightarrow> i_EventID v = i_EventID v' \<and> i_Type v = i_Type v' \<and> go_value t = go_value t'"
    by (intro impI canonical_inject [OF _ u])
      (simp_all add: b go_value_wf go_value_nests json_next_wf [OF data(1)] json_next_wf [OF data(2)])
  moreover have "go_value (JObj ms) = go_value (JObj ms')"
    if "set ms = set ms'" "distinct (map fst ms)" "distinct (map fst ms')" for ms ms'
    using that go_map_order [of "map (\<lambda>m. (fst m, go_value (snd m))) ms" "map (\<lambda>m. (fst m, go_value (snd m))) ms'"]
    by (simp add: comp_def)
  moreover have "b = b'" if "i_EventID v = i_EventID v'" "i_Type v = i_Type v'" "go_value t = go_value t'"
    using b that by (simp add: canonical_tree_def)
  ultimately show ?thesis using b(2,4) by blast
qed

text \<open>The objects \<^verbatim>\<open>{"a":1,"b":2}\<close> and \<^verbatim>\<open>{"b":2, "a":1}\<close>.\<close>

definition sample_data :: "bytes \<times> bytes" where
  "sample_data =
     (let a = [CHR 0x22, CHR 0x61, CHR 0x22] @ '':1''; b = [CHR 0x22, CHR 0x62, CHR 0x22] @ '':2''
      in (''{'' @ a @ '','' @ b @ ''}'', ''{'' @ b @ '', '' @ a @ ''}''))"

lemma sample_data_next:
  "json_next (fst sample_data) = Some (JObj [(''a'', JNum ''1''), (''b'', JNum ''2'')], [])"
  "json_next (snd sample_data) = Some (JObj [(''b'', JNum ''2''), (''a'', JNum ''1'')], [])"
  by (simp_all add: sample_data_def json_eval)

theorem Canonical_decides_witness:
  "map_option fst (Canonical sample_crypto \<lparr>i_EventID = ''o1'', i_Type = ''t'', i_Data = fst sample_data\<rparr>) =
   map_option fst (Canonical sample_crypto \<lparr>i_EventID = ''o1'', i_Type = ''t'', i_Data = snd sample_data\<rparr>)"
proof -
  let ?v = "\<lambda>d. \<lparr>i_EventID = ''o1'', i_Type = ''t'', i_Data = d\<rparr>"
  have "Validate (?v (fst sample_data)) = Inr ()" "Validate (?v (snd sample_data)) = Inr ()"
    using sample_data_next
    by (simp_all add: Validate_def json_valid_def valid_identifier_def identifier_head_def identifier_tail_def between_def)
      (simp_all add: sample_data_def)
  moreover obtain b h b' h' where "Canonical sample_crypto (?v (fst sample_data)) = Some (b, h)"
    "Canonical sample_crypto (?v (snd sample_data)) = Some (b', h')"
    using sample_data_next by (simp add: Canonical_def Let_def)
  ultimately show ?thesis
    using Canonical_decides [of "?v (fst sample_data)" "?v (snd sample_data)" sample_crypto b h b' h'
        "JObj [(''a'', JNum ''1''), (''b'', JNum ''2'')]" "[]" "JObj [(''b'', JNum ''2''), (''a'', JNum ''1'')]" "[]"]
      sample_data_next by auto
qed

end
