(* ===== verification/Api_Ingest.thy ===== *)
theory Api_Ingest
  imports Api_Server Events
begin

text \<open>
  \<^verbatim>\<open>src/internal/api/ingest.go\<close>: an event is stored once per project and \<^verbatim>\<open>event_id\<close>, and fanned out to the
  project's live endpoints in the same transaction. Database calls: 0 key lookup, 1 \<^verbatim>\<open>Begin\<close>, 2 \<^verbatim>\<open>INSERT\<close> of the
  event, 3 \<^verbatim>\<open>SELECT\<close> of the existing event, 4 \<^verbatim>\<open>INSERT\<close> of the deliveries, 5 \<^verbatim>\<open>Commit\<close>. The unique index on
  \<^verbatim>\<open>(project_id, event_id)\<close> makes concurrent inserts of one event wait for each other, so the transaction
  is one step. Leaving it early, by an error or for a duplicate, rolls it back.
\<close>

definition live_key :: "db \<Rightarrow> string \<Rightarrow> api_key_row option" where
  "live_key s h = find (\<lambda>k. k_key_hash k = h \<and> k_revoked_at k = None) (api_keys s)"

definition event_of :: "string \<Rightarrow> string \<Rightarrow> input \<Rightarrow> bytes \<Rightarrow> string \<Rightarrow> time \<Rightarrow> event_row" where
  "event_of eid project v stored hash now =
     \<lparr>ev_id = eid, ev_project_id = project, ev_event_id = i_EventID v, ev_type = i_Type v, ev_payload = stored,
      ev_payload_hash = hash, ev_created_at = now\<rparr>"

definition fan_out_target :: "string \<Rightarrow> endpoint_row \<Rightarrow> bool" where
  "fan_out_target project e \<longleftrightarrow> ep_project_id e = project \<and> ep_active e \<and> ep_deleted_at e = None"

definition new_delivery :: "pg \<Rightarrow> string \<Rightarrow> time \<Rightarrow> endpoint_row \<Rightarrow> delivery_row" where
  "new_delivery pg eid now e =
     \<lparr>d_id = ''dlv_'' @ pg_md5 pg (eid @ '':'' @ ep_id e), d_event_id = eid, d_endpoint_id = ep_id e, d_status = Pending,
      d_attempt_count = 0, d_generation = 0, d_next_attempt_at = now, d_lease_until = None, d_lease_token = None,
      d_created_at = now, d_updated_at = now\<rparr>"

definition fan_out :: "pg \<Rightarrow> string \<Rightarrow> string \<Rightarrow> time \<Rightarrow> db \<Rightarrow> delivery_row list" where
  "fan_out pg eid project now s = map (new_delivery pg eid now) (filter (fan_out_target project) (endpoints s))"

definition accepted :: "string \<Rightarrow> bool \<Rightarrow> json" where
  "accepted eid duplicate = any_obj [(''id'', JStr eid), (''duplicate'', JBool duplicate)]"

definition ingest_tx ::
  "server \<Rightarrow> io \<Rightarrow> request \<Rightarrow> string \<Rightarrow> string \<Rightarrow> input \<Rightarrow> bytes \<Rightarrow> string \<Rightarrow> db \<Rightarrow> response + (db \<times> response)" where
  "ingest_tx sv i r eid project v payload hash s =
     (case stmt (io_db i 2)
             (case pg_jsonb (sv_pg sv) payload of
                None \<Rightarrow> Inl DataException
              | Some stored \<Rightarrow> insert_event (event_of eid project v stored hash (io_now i)) s) of
        Inl e \<Rightarrow> Inl (dbError r e)
      | Inr (s1, inserted) \<Rightarrow>
          (if \<not> inserted
           then case stmt (io_db i 3) (of_option
                       (find (\<lambda>e. ev_project_id e = project \<and> ev_event_id e = i_EventID v) (events s1))) of
                  Inl e \<Rightarrow> Inl (dbError r e)
                | Inr old \<Rightarrow>
                    (if ev_payload_hash old \<noteq> hash
                     then Inl (fail r 409 ''IDEMPOTENCY_CONFLICT'' ''event_id already exists with different content'')
                     else Inl (write_json 200 (accepted (ev_id old) True)))
           else case stmt (io_db i 4) (insert_deliveries (fan_out (sv_pg sv) eid project (io_now i) s1) s1) of
                  Inl e \<Rightarrow> Inl (dbError r e)
                | Inr s2 \<Rightarrow> Inr (s2, write_json 202 (accepted eid False))))"

definition event_message :: "event_error \<Rightarrow> string" where
  "event_message e =
     (case e of BadEventID \<Rightarrow> ''event_id must be 1..128 identifier characters''
      | BadType \<Rightarrow> ''type must be 1..128 identifier characters'' | BadData \<Rightarrow> ''data must be valid JSON'')"

definition collapse :: "'a + 'a \<Rightarrow> 'a" where
  "collapse x = (case x of Inl a \<Rightarrow> a | Inr a \<Rightarrow> a)"

definition ingest_event :: "server \<Rightarrow> io \<Rightarrow> string \<Rightarrow> input \<Rightarrow> handler" where
  "ingest_event sv i project v r w =
     (case Validate v of
        Inl e \<Rightarrow> (w, fail r 400 ''INVALID_EVENT'' (event_message e))
      | Inr _ \<Rightarrow>
          (case Canonical (sv_cr sv) v of
             None \<Rightarrow> (w, fail r 400 ''INVALID_EVENT'' ''invalid payload'')
           | Some (payload, hash) \<Rightarrow>
               (let (s', res) = run_tx (io_db i 1) (io_db i 5) (dbError r Unavailable)
                      (ingest_tx sv i r (new_token i 1 ''evt_'') project v payload hash) (w_db w)
                in (w\<lparr>w_db := s'\<rparr>, collapse res))))"

definition ingest :: "server \<Rightarrow> io \<Rightarrow> handler" where
  "ingest sv i r w =
     (let key = trim_prefix (r_Header r ''Authorization'') ''Bearer '' in
      case stmt (io_db i 0) (of_option (live_key (w_db w) (Hash (sv_cr sv) key))) of
        Inl e \<Rightarrow> (w, if e = ErrNoRows then fail r 401 ''UNAUTHORIZED'' ''valid API key required'' else dbError r e)
      | Inr k \<Rightarrow>
          (let (ls, res) = Allow (io_redis_now i) (io_redis i 0) (''ingest:'' @ k_id k) 50 100 (w_limits w);
               w1 = w\<lparr>w_limits := ls\<rparr>
           in case res of
                Inl e \<Rightarrow> (w1, fail r 503 ''UNAVAILABLE'' ''rate limiter unavailable; retry later'')
              | Inr allowed \<Rightarrow>
                  (if \<not> allowed
                   then (w1, add_header ''Retry-After'' ''1'' (fail r 429 ''RATE_LIMITED'' ''ingestion rate exceeded''))
                   else case decode r input_names put_input \<lparr>i_EventID = [], i_Type = [], i_Data = []\<rparr> of
                          Inl rsp \<Rightarrow> (w1, rsp)
                        | Inr v \<Rightarrow> ingest_event sv i (k_project_id k) v r w1)))"

end
