(* ===== verification/Api_Auth.thy ===== *)
theory Api_Auth
  imports Api_Server
begin

text \<open>
  \<^verbatim>\<open>src/internal/api/auth.go\<close>: registration, login, sessions and the wrapper that admits signed-in users.
  Database calls: \<open>register\<close> 0 \<^verbatim>\<open>INSERT\<close> user, 1 \<^verbatim>\<open>INSERT\<close> session; \<open>login\<close> 0 \<^verbatim>\<open>SELECT\<close>, 1 \<^verbatim>\<open>INSERT\<close> session; \<open>auth\<close> 0, the
  wrapped handler from 1 on.
\<close>

record credentials =
  cr_Email :: string
  cr_Password :: string

definition credential_names :: "string list" where
  "credential_names = [''email'', ''password'']"

definition put_credentials :: "credentials setter" where
  "put_credentials f raw v x =
     (if f = ''email'' then text_field v (\<lambda>t. x\<lparr>cr_Email := t\<rparr>) x
      else text_field v (\<lambda>t. x\<lparr>cr_Password := t\<rparr>) x)"

definition authLimit :: "io \<Rightarrow> request \<Rightarrow> world \<Rightarrow> world \<times> (response + unit)" where
  "authLimit i r w =
     (let ip = (case SplitHostPort (r_RemoteAddr r) of None \<Rightarrow> [] | Some (h, p) \<Rightarrow> h);
          (ls, res) = Allow (io_redis_now i) (io_redis i 0) (''auth:'' @ ip) 1 10 (w_limits w);
          w' = w\<lparr>w_limits := ls\<rparr>
      in case res of
           Inl e \<Rightarrow> (w', Inl (fail r 503 ''UNAVAILABLE'' ''authentication temporarily unavailable''))
         | Inr ok \<Rightarrow>
             (w', if ok then Inr ()
                  else Inl (add_header ''Retry-After'' ''1'' (fail r 429 ''RATE_LIMITED'' ''try again shortly''))))"

definition session_cookie :: "server \<Rightarrow> string \<Rightarrow> int \<Rightarrow> cookie" where
  "session_cookie sv v age =
     \<lparr>ck_Name = ''pulseroute_session'', ck_Value = v, ck_Path = ''/'', ck_HttpOnly = True,
      ck_Secure = c_CookieSecure (sv_Config sv), ck_SameSiteStrict = True, ck_MaxAge = age\<rparr>"

definition day :: time where
  "day = 24 * 3600 * 1000000"

definition session :: "server \<Rightarrow> io \<Rightarrow> nat \<Rightarrow> string \<Rightarrow> int \<Rightarrow> handler" where
  "session sv i k uid status r w =
     (let token = new_token i k ''ses_'';
          row = \<lparr>s_token_hash = Hash (sv_cr sv) token, s_user_id = uid, s_expires_at = io_clock i + day\<rparr>;
          (s', res) = exec sv [] (io_db i 1) (\<lambda>s. res_bind (insert_session row s) (\<lambda>s1. Inr (s1, ()))) (w_db w)
      in (w\<lparr>w_db := s'\<rparr>,
          case res of
            Inl e \<Rightarrow> dbError r e
          | Inr _ \<Rightarrow> (write_json status (str_obj [(''id'', uid)]))\<lparr>rsp_cookie := Some (session_cookie sv token 86400)\<rparr>))"

definition password_message :: "security_error \<Rightarrow> string" where
  "password_message e =
     (case e of BcryptError t \<Rightarrow> t | _ \<Rightarrow> ''password must contain 12..72 bytes'')"

definition register_user :: "server \<Rightarrow> io \<Rightarrow> credentials \<Rightarrow> handler" where
  "register_user sv i c r w =
     (let email = sv_lower sv (trim_space (cr_Email c)) in
      if sv_mail sv email \<noteq> Some email \<or> length email > 254
      then (w, fail r 400 ''INVALID_EMAIL'' ''a valid email is required'')
      else case Password (sv_cr sv) (cr_Password c) of
             Inl e \<Rightarrow> (w, fail r 400 ''INVALID_PASSWORD'' (password_message e))
           | Inr hash \<Rightarrow>
               (let uid = new_token i 1 ''usr_'';
                    row = \<lparr>u_id = uid, u_email = email, u_password_hash = hash, u_created_at = io_now i\<rparr>;
                    (s', res) = exec sv [email] (io_db i 0) (\<lambda>s. res_bind (insert_user row s) (\<lambda>s1. Inr (s1, ()))) (w_db w);
                    w' = w\<lparr>w_db := s'\<rparr>
                in case res of
                     Inl e \<Rightarrow>
                       (w', if e = UniqueViolation then fail r 409 ''CONFLICT'' ''email already registered'' else dbError r e)
                   | Inr _ \<Rightarrow> session sv i 2 uid 201 r w'))"

definition register :: "server \<Rightarrow> io \<Rightarrow> handler" where
  "register sv i r w =
     (let (w1, lim) = authLimit i r w in
      case lim of
        Inl rsp \<Rightarrow> (w1, rsp)
      | Inr _ \<Rightarrow>
          (case decode r credential_names put_credentials \<lparr>cr_Email = [], cr_Password = []\<rparr> of
             Inl rsp \<Rightarrow> (w1, rsp)
           | Inr c \<Rightarrow> register_user sv i c r w1))"

definition login :: "server \<Rightarrow> io \<Rightarrow> handler" where
  "login sv i r w =
     (let (w1, lim) = authLimit i r w in
      case lim of
        Inl rsp \<Rightarrow> (w1, rsp)
      | Inr _ \<Rightarrow>
          (case decode r credential_names put_credentials \<lparr>cr_Email = [], cr_Password = []\<rparr> of
             Inl rsp \<Rightarrow> (w1, rsp)
           | Inr c \<Rightarrow>
               (let email = sv_lower sv (trim_space (cr_Email c));
                    denied = fail r 401 ''UNAUTHORIZED'' ''invalid email or password''
                in case query sv [email] (io_db i 0) (of_option (lookup_by u_email (users (w_db w1)) email)) of
                     Inl e \<Rightarrow> (w1, denied)
                   | Inr u \<Rightarrow>
                       (if CheckPassword (sv_cr sv) (u_password_hash u) (cr_Password c)
                        then session sv i 1 (u_id u) 200 r w1 else (w1, denied)))))"

definition live_session :: "time \<Rightarrow> db \<Rightarrow> string \<Rightarrow> session_row option" where
  "live_session now s h = find (\<lambda>x. s_token_hash x = h \<and> now < s_expires_at x) (sessions s)"

definition auth :: "server \<Rightarrow> io \<Rightarrow> handler \<Rightarrow> handler" where
  "auth sv i next r w =
     (case r_Cookie r ''pulseroute_session'' of
        None \<Rightarrow> (w, fail r 401 ''UNAUTHORIZED'' ''sign in required'')
      | Some c \<Rightarrow>
          (case query sv [] (io_db i 0) (of_option (live_session (io_now i) (w_db w) (Hash (sv_cr sv) c))) of
             Inl e \<Rightarrow> (w, fail r 401 ''UNAUTHORIZED'' ''session expired or invalid'')
           | Inr x \<Rightarrow> next (r\<lparr>r_user := s_user_id x\<rparr>) w))"

definition me :: "handler" where
  "me r w = (w, write_json 200 (str_obj [(''id'', user r)]))"

text \<open>Behind \<open>auth\<close> the cookie is present; without it the code would panic and \<open>middleware\<close> answer 500.\<close>

definition logout :: "server \<Rightarrow> io \<Rightarrow> handler" where
  "logout sv i r w =
     (case r_Cookie r ''pulseroute_session'' of
        None \<Rightarrow> (w, fail r 500 ''INTERNAL'' ''internal error'')
      | Some c \<Rightarrow>
          (let (s', res) = exec sv [] (io_db i 1)
                 (\<lambda>s. Inr (s\<lparr>sessions := tbl_delete (\<lambda>x. s_token_hash x = Hash (sv_cr sv) c) (sessions s)\<rparr>, ())) (w_db w)
           in (w\<lparr>w_db := s'\<rparr>,
               case res of
                 Inl e \<Rightarrow> dbError r e
               | Inr _ \<Rightarrow> (write_header 204)\<lparr>rsp_cookie := Some (session_cookie sv [] (-1))\<rparr>)))"

end
