(* ===== verification/Api_Projects.thy ===== *)
theory Api_Projects
  imports Api_Auth
begin

text \<open>
  \<^verbatim>\<open>src/internal/api/projects.go\<close> and \<^verbatim>\<open>src/internal/api/endpoints.go\<close>: projects, API keys and endpoints of the
  signed-in user. Call 0 is \<open>auth\<close>'s; the calls here are numbered from 1 in the order the handler makes
  them. A list query selects, orders and pages its rows, then names its columns.
\<close>

section \<open>Projects and API keys\<close>

record named =
  n_Name :: string

definition put_named :: "named setter" where
  "put_named f raw v x = text_field v (\<lambda>t. x\<lparr>n_Name := t\<rparr>) x"

definition validName :: "string \<Rightarrow> bool" where
  "validName s \<longleftrightarrow> trim_space s \<noteq> [] \<and> length s \<le> 100"

definition time_json :: "server \<Rightarrow> time \<Rightarrow> json" where
  "time_json sv t = JStr (sv_time_json sv t)"

definition opt_json :: "('a \<Rightarrow> json) \<Rightarrow> 'a option \<Rightarrow> json" where
  "opt_json f x = (case x of None \<Rightarrow> JNull | Some a \<Rightarrow> f a)"

definition int_json :: "int \<Rightarrow> json" where
  "int_json n = JNum (FormatInt n)"

definition page_of :: "pg \<Rightarrow> ('r \<Rightarrow> time) \<Rightarrow> ('r \<Rightarrow> string) \<Rightarrow> request \<Rightarrow> 'r list \<Rightarrow> 'r list" where
  "page_of pg created key r rs =
     (let (l, o') = page r in limit_offset l o' (sort_by (newest_first pg created key) rs))"

definition list_projects :: "server \<Rightarrow> io \<Rightarrow> handler" where
  "list_projects sv i r w =
     (w, rows r (query sv [user r] (io_db i 1) (Inr
        (map (\<lambda>p. [(''id'', JStr (p_id p)), (''name'', JStr (p_name p)), (''created_at'', time_json sv (p_created_at p))])
          (page_of (sv_pg sv) p_created_at p_id r (filter (\<lambda>p. p_owner_id p = user r) (projects (w_db w))))))))"

definition createProject :: "server \<Rightarrow> io \<Rightarrow> handler" where
  "createProject sv i r w =
     (case decode r [''name''] put_named \<lparr>n_Name = []\<rparr> of
        Inl rsp \<Rightarrow> (w, rsp)
      | Inr n \<Rightarrow>
          (if \<not> validName (n_Name n) then (w, fail r 400 ''INVALID_NAME'' ''name must contain 1..100 characters'')
           else let pid = new_token i 1 ''prj_'';
                    row = \<lparr>p_id = pid, p_owner_id = user r, p_name = trim_space (n_Name n), p_created_at = io_now i\<rparr>;
                    (s', res) = exec sv [user r, trim_space (n_Name n)] (io_db i 1)
                       (\<lambda>s. res_bind (insert_project row s) (\<lambda>s1. Inr (s1, ()))) (w_db w)
                in (w\<lparr>w_db := s'\<rparr>,
                    case res of
                      Inl e \<Rightarrow> dbError r e
                    | Inr _ \<Rightarrow> write_json 201 (str_obj [(''id'', pid), (''name'', n_Name n)]))))"

definition owned_project :: "db \<Rightarrow> string \<Rightarrow> string \<Rightarrow> project_row option" where
  "owned_project s u pid = find (\<lambda>p. p_id p = pid \<and> p_owner_id p = u) (projects s)"

definition project :: "server \<Rightarrow> io \<Rightarrow> handler" where
  "project sv i r w =
     (w, one r (query sv [r_ID r, user r] (io_db i 1)
        (res_bind (of_option (owned_project (w_db w) (user r) (r_ID r))) (\<lambda>p.
           Inr (JObj [(''id'', JStr (p_id p)), (''name'', JStr (p_name p)),
             (''created_at'', JStr (pg_time (sv_pg sv) (p_created_at p)))])))))"

definition keys :: "server \<Rightarrow> io \<Rightarrow> handler" where
  "keys sv i r w =
     (if \<not> owner sv (io_db i 1) r (w_db w) (r_ID r) then (w, fail r 404 ''NOT_FOUND'' ''project not found'')
      else (w, rows r (query sv [r_ID r] (io_db i 2) (Inr
        (map (\<lambda>k. [(''id'', JStr (k_id k)), (''name'', JStr (k_name k)), (''prefix'', JStr (k_prefix k)),
             (''revoked_at'', opt_json (time_json sv) (k_revoked_at k)), (''created_at'', time_json sv (k_created_at k))])
          (page_of (sv_pg sv) k_created_at k_id r (filter (\<lambda>k. k_project_id k = r_ID r) (api_keys (w_db w)))))))))"

definition createKey :: "server \<Rightarrow> io \<Rightarrow> handler" where
  "createKey sv i r w =
     (if \<not> owner sv (io_db i 1) r (w_db w) (r_ID r) then (w, fail r 404 ''NOT_FOUND'' ''project not found'')
      else case decode r [''name''] put_named \<lparr>n_Name = []\<rparr> of
        Inl rsp \<Rightarrow> (w, rsp)
      | Inr n \<Rightarrow>
          (if \<not> validName (n_Name n) then (w, fail r 400 ''INVALID_NAME'' ''name must contain 1..100 characters'')
           else let kid = new_token i 1 ''key_''; key = new_token i 2 ''pr_live_'';
                    row = \<lparr>k_id = kid, k_project_id = r_ID r, k_name = n_Name n, k_key_hash = Hash (sv_cr sv) key,
                      k_prefix = take 16 key, k_revoked_at = None, k_created_at = io_now i\<rparr>;
                    (s', res) = exec sv [r_ID r, n_Name n] (io_db i 2)
                       (\<lambda>s. res_bind (insert_api_key row s) (\<lambda>s1. Inr (s1, ()))) (w_db w)
                in (w\<lparr>w_db := s'\<rparr>,
                    case res of
                      Inl e \<Rightarrow> dbError r e
                    | Inr _ \<Rightarrow> write_json 201 (str_obj [(''id'', kid), (''key'', key), (''prefix'', take 16 key)]))))"

text \<open>\<^verbatim>\<open>UPDATE ... FROM projects p WHERE k.project_id=p.id AND p.owner_id=$1 AND k.id=$2\<close>\<close>

definition key_of_user :: "db \<Rightarrow> string \<Rightarrow> string \<Rightarrow> api_key_row \<Rightarrow> bool" where
  "key_of_user s u kid k \<longleftrightarrow> k_id k = kid \<and> owns_project s u (k_project_id k)"

definition revoke_keys :: "time \<Rightarrow> string \<Rightarrow> string \<Rightarrow> db \<Rightarrow> db" where
  "revoke_keys now u kid s =
     s\<lparr>api_keys := tbl_update (key_of_user s u kid) (\<lambda>k. k\<lparr>k_revoked_at := Some now\<rparr>) (api_keys s)\<rparr>"

definition deleteKey :: "server \<Rightarrow> io \<Rightarrow> handler" where
  "deleteKey sv i r w =
     (let (s', res) = exec sv [user r, r_ID r] (io_db i 1)
            (\<lambda>s. Inr (revoke_keys (io_now i) (user r) (r_ID r) s, tbl_count (key_of_user s (user r) (r_ID r)) (api_keys s))) (w_db w)
      in (w\<lparr>w_db := s'\<rparr>,
          case res of
            Inl e \<Rightarrow> dbError r e
          | Inr n \<Rightarrow> if n = 0 then fail r 404 ''NOT_FOUND'' ''API key not found'' else write_header 204))"

section \<open>Endpoints\<close>

record endpointInput =
  ei_Name :: string
  ei_URL :: string
  ei_Secret :: string
  ei_Active :: "bool option"
  ei_MaxAttempts :: int
  ei_BaseDelay :: int
  ei_Rate :: int

definition endpoint_names :: "string list" where
  "endpoint_names = [''name'', ''url'', ''secret'', ''active'', ''max_attempts'', ''base_delay_seconds'', ''rate_per_second'']"

definition put_endpoint :: "endpointInput setter" where
  "put_endpoint f raw v x =
     (if f = ''name'' then text_field v (\<lambda>t. x\<lparr>ei_Name := t\<rparr>) x
      else if f = ''url'' then text_field v (\<lambda>t. x\<lparr>ei_URL := t\<rparr>) x
      else if f = ''secret'' then text_field v (\<lambda>t. x\<lparr>ei_Secret := t\<rparr>) x
      else if f = ''active'' then bool_ptr_field v (\<lambda>b. x\<lparr>ei_Active := b\<rparr>)
      else if f = ''max_attempts'' then int_field v (\<lambda>n. x\<lparr>ei_MaxAttempts := n\<rparr>) x
      else if f = ''base_delay_seconds'' then int_field v (\<lambda>n. x\<lparr>ei_BaseDelay := n\<rparr>) x
      else int_field v (\<lambda>n. x\<lparr>ei_Rate := n\<rparr>) x)"

definition url_message :: "url_error \<Rightarrow> string" where
  "url_message e =
     (case e of InvalidURL \<Rightarrow> ''invalid destination URL'' | RequiresHTTPS \<Rightarrow> ''destination requires HTTPS''
      | TooLong \<Rightarrow> ''destination URL too long'')"

definition validateEndpoint :: "server \<Rightarrow> request \<Rightarrow> endpointInput \<Rightarrow> response + unit" where
  "validateEndpoint sv r v =
     (if \<not> validName (ei_Name v) then Inl (fail r 400 ''INVALID_NAME'' ''name must contain 1..100 characters'')
      else case ValidateURL (sv_url sv) (ei_URL v) (c_AllowPrivate (sv_Config sv)) of
             Inl e \<Rightarrow> Inl (fail r 400 ''INVALID_URL'' (url_message e))
           | Inr _ \<Rightarrow>
               (if ei_MaxAttempts v < 1 \<or> ei_MaxAttempts v > 10 \<or> ei_BaseDelay v < 1 \<or> ei_BaseDelay v > 3600 \<or>
                   ei_Rate v < 1 \<or> ei_Rate v > 1000
                then Inl (fail r 400 ''INVALID_POLICY'' ''attempts 1..10, base delay 1..3600, rate 1..1000 required'')
                else if ei_Secret v \<noteq> [] \<and> (length (ei_Secret v) < 16 \<or> length (ei_Secret v) > 256)
                then Inl (fail r 400 ''INVALID_SECRET'' ''secret must contain 16..256 bytes'')
                else Inr ()))"

definition list_endpoints :: "server \<Rightarrow> io \<Rightarrow> handler" where
  "list_endpoints sv i r w =
     (if \<not> owner sv (io_db i 1) r (w_db w) (r_ID r) then (w, fail r 404 ''NOT_FOUND'' ''project not found'')
      else (w, rows r (query sv [r_ID r] (io_db i 2) (Inr
        (map (\<lambda>e. [(''id'', JStr (ep_id e)), (''name'', JStr (ep_name e)), (''url'', JStr (ep_url e)),
             (''active'', JBool (ep_active e)), (''max_attempts'', int_json (ep_max_attempts e)),
             (''base_delay_seconds'', int_json (ep_base_delay_seconds e)),
             (''rate_per_second'', int_json (ep_rate_per_second e)), (''created_at'', time_json sv (ep_created_at e))])
          (page_of (sv_pg sv) ep_created_at ep_id r
             (filter (\<lambda>e. ep_project_id e = r_ID r \<and> ep_deleted_at e = None) (endpoints (w_db w)))))))))"

definition createEndpoint :: "server \<Rightarrow> io \<Rightarrow> handler" where
  "createEndpoint sv i r w =
     (if \<not> owner sv (io_db i 1) r (w_db w) (r_ID r) then (w, fail r 404 ''NOT_FOUND'' ''project not found'')
      else case decode r endpoint_names put_endpoint
                  \<lparr>ei_Name = [], ei_URL = [], ei_Secret = [], ei_Active = None, ei_MaxAttempts = 5, ei_BaseDelay = 5, ei_Rate = 10\<rparr> of
        Inl rsp \<Rightarrow> (w, rsp)
      | Inr v \<Rightarrow>
          (case validateEndpoint sv r v of
             Inl rsp \<Rightarrow> (w, rsp)
           | Inr _ \<Rightarrow>
               (let secret = (if ei_Secret v = [] then new_token i 1 ''whsec_'' else ei_Secret v) in
                case Encrypt (sv_cr sv) (c_EncryptionKey (sv_Config sv)) (Some (io_rand i 2)) secret of
                  Inl e \<Rightarrow> (w, dbError r Unavailable)
                | Inr cipher \<Rightarrow>
                    (let eid = new_token i 3 ''ep_'';
                         row = \<lparr>ep_id = eid, ep_project_id = r_ID r, ep_name = ei_Name v, ep_url = ei_URL v,
                           ep_secret_cipher = cipher, ep_active = (case ei_Active v of None \<Rightarrow> True | Some b \<Rightarrow> b),
                           ep_max_attempts = ei_MaxAttempts v, ep_base_delay_seconds = ei_BaseDelay v,
                           ep_rate_per_second = ei_Rate v, ep_created_at = io_now i, ep_deleted_at = None\<rparr>;
                         (s', res) = exec sv [r_ID r, ei_Name v, ei_URL v] (io_db i 2)
                            (\<lambda>s. res_bind (insert_endpoint row s) (\<lambda>s1. Inr (s1, ()))) (w_db w)
                     in (w\<lparr>w_db := s'\<rparr>,
                         case res of
                           Inl e \<Rightarrow> dbError r e
                         | Inr _ \<Rightarrow> write_json 201 (str_obj [(''id'', eid), (''secret'', secret)]))))))"

definition endpoint_of_user :: "db \<Rightarrow> string \<Rightarrow> string \<Rightarrow> endpoint_row \<Rightarrow> bool" where
  "endpoint_of_user s u eid e \<longleftrightarrow> ep_id e = eid \<and> owns_project s u (ep_project_id e) \<and> ep_deleted_at e = None"

text \<open>The second statement updates by identifier alone; between the two, other requests may have changed the row.\<close>

definition write_endpoint :: "string \<Rightarrow> endpointInput \<Rightarrow> string \<Rightarrow> bool \<Rightarrow> db \<Rightarrow> db" where
  "write_endpoint eid v cipher active s =
     s\<lparr>endpoints := tbl_update (\<lambda>e. ep_id e = eid)
        (\<lambda>e. e\<lparr>ep_name := ei_Name v, ep_url := ei_URL v, ep_secret_cipher := cipher, ep_active := active,
           ep_max_attempts := ei_MaxAttempts v, ep_base_delay_seconds := ei_BaseDelay v, ep_rate_per_second := ei_Rate v\<rparr>)
        (endpoints s)\<rparr>"

text \<open>\<open>meanwhile\<close>: what the other requests do to the database between the \<^verbatim>\<open>SELECT\<close> and the \<^verbatim>\<open>UPDATE\<close>.\<close>

definition updateEndpoint :: "server \<Rightarrow> io \<Rightarrow> (db \<Rightarrow> db) \<Rightarrow> handler" where
  "updateEndpoint sv i meanwhile r w =
     (case query sv [r_ID r, user r] (io_db i 1) (of_option (find (endpoint_of_user (w_db w) (user r) (r_ID r)) (endpoints (w_db w)))) of
        Inl e \<Rightarrow> (w, dbError r e)
      | Inr old \<Rightarrow>
          (let w1 = w\<lparr>w_db := meanwhile (w_db w)\<rparr> in
           case decode r endpoint_names put_endpoint
                  \<lparr>ei_Name = ep_name old, ei_URL = ep_url old, ei_Secret = [], ei_Active = Some (ep_active old),
                   ei_MaxAttempts = ep_max_attempts old, ei_BaseDelay = ep_base_delay_seconds old,
                   ei_Rate = ep_rate_per_second old\<rparr> of
             Inl rsp \<Rightarrow> (w1, rsp)
           | Inr v \<Rightarrow>
               (case validateEndpoint sv r v of
                  Inl rsp \<Rightarrow> (w1, rsp)
                | Inr _ \<Rightarrow>
                    (case (if ei_Secret v \<noteq> []
                           then Encrypt (sv_cr sv) (c_EncryptionKey (sv_Config sv)) (Some (io_rand i 1)) (ei_Secret v)
                           else Inr (ep_secret_cipher old)) of
                       Inl e \<Rightarrow> (w1, dbError r Unavailable)
                     | Inr cipher \<Rightarrow>
                         (case ei_Active v of
                            None \<Rightarrow> (w1, fail r 400 ''INVALID_ACTIVE'' ''active must be boolean'')
                          | Some active \<Rightarrow>
                              (let (s', res) = exec sv [r_ID r, ei_Name v, ei_URL v] (io_db i 2)
                                     (\<lambda>s. Inr (write_endpoint (r_ID r) v cipher active s, ())) (w_db w1)
                               in (w1\<lparr>w_db := s'\<rparr>,
                                   case res of
                                     Inl e \<Rightarrow> dbError r e
                                   | Inr _ \<Rightarrow> write_json 200 (str_obj [(''id'', r_ID r)]))))))))"

definition delete_endpoints :: "time \<Rightarrow> string \<Rightarrow> string \<Rightarrow> db \<Rightarrow> db" where
  "delete_endpoints now u eid s =
     s\<lparr>endpoints := tbl_update (endpoint_of_user s u eid) (\<lambda>e. e\<lparr>ep_active := False, ep_deleted_at := Some now\<rparr>) (endpoints s)\<rparr>"

definition deleteEndpoint :: "server \<Rightarrow> io \<Rightarrow> handler" where
  "deleteEndpoint sv i r w =
     (let (s', res) = exec sv [user r, r_ID r] (io_db i 1)
            (\<lambda>s. Inr (delete_endpoints (io_now i) (user r) (r_ID r) s,
               tbl_count (endpoint_of_user s (user r) (r_ID r)) (endpoints s))) (w_db w)
      in (w\<lparr>w_db := s'\<rparr>,
          case res of
            Inl e \<Rightarrow> dbError r e
          | Inr n \<Rightarrow> if n = 0 then fail r 404 ''NOT_FOUND'' ''endpoint not found'' else write_header 204))"

end
