(* ===== verification/Api_Inspection.thy ===== *)
theory Api_Inspection
  imports Api_Projects
begin

text \<open>
  \<^verbatim>\<open>src/internal/api/inspection.go\<close>: the filtered lists of events and deliveries, their details, replay of a dead
  delivery and the dashboard. Call 0 is \<open>auth\<close>'s; \<open>replay\<close> makes 1 \<^verbatim>\<open>Begin\<close>, 2 \<^verbatim>\<open>SELECT ... FOR UPDATE\<close>, 3 \<^verbatim>\<open>UPDATE\<close>,
  4 \<^verbatim>\<open>DELETE\<close>, 5 \<^verbatim>\<open>Commit\<close>. The row lock makes the replay one step on its row.
\<close>

section \<open>Lists\<close>

definition filters :: "request \<Rightarrow> string \<times> string \<times> string \<times> string" where
  "filters r = (r_Query r ''project_id'', r_Query r ''status'', r_Query r ''type'', r_Query r ''endpoint_id'')"

definition since :: "server \<Rightarrow> request \<Rightarrow> time option" where
  "since sv r = (let v = r_Query r ''since'' in if v \<noteq> [] then sv_rfc3339 sv v else Some 0)"

definition wanted :: "string \<Rightarrow> string \<Rightarrow> bool" where
  "wanted f v \<longleftrightarrow> f = [] \<or> v = f"

definition event_visible :: "db \<Rightarrow> string \<Rightarrow> event_row \<Rightarrow> bool" where
  "event_visible s u e \<longleftrightarrow> owns_project s u (ev_project_id e)"

definition list_events :: "server \<Rightarrow> io \<Rightarrow> handler" where
  "list_events sv i r w =
     (let (p, _, t, _) = filters r in
      case since sv r of
        None \<Rightarrow> (w, fail r 400 ''INVALID_DATE'' ''since must be RFC3339'')
      | Some start \<Rightarrow>
          (w, rows r (query sv [user r, p, t] (io_db i 1) (Inr
             (map (\<lambda>e. [(''id'', JStr (ev_id e)), (''project_id'', JStr (ev_project_id e)), (''event_id'', JStr (ev_event_id e)),
                  (''type'', JStr (ev_type e)), (''created_at'', time_json sv (ev_created_at e))])
               (page_of (sv_pg sv) ev_created_at ev_id r
                 (filter (\<lambda>e. event_visible (w_db w) (user r) e \<and> wanted p (ev_project_id e) \<and> wanted t (ev_type e) \<and>
                    start \<le> ev_created_at e) (events (w_db w)))))))))"

text \<open>A delivery joined with its event and endpoint, and the reason of its dead letter if it has one.\<close>

record joined =
  x_d :: delivery_row
  x_ev :: event_row
  x_ep :: endpoint_row
  x_reason :: "string option"

definition join_delivery :: "db \<Rightarrow> delivery_row \<Rightarrow> joined option" where
  "join_delivery s d =
     (case (lookup_by ev_id (events s) (d_event_id d), lookup_by ep_id (endpoints s) (d_endpoint_id d)) of
        (Some e, Some ep) \<Rightarrow>
          Some \<lparr>x_d = d, x_ev = e, x_ep = ep, x_reason = map_option dl_reason (lookup_by dl_delivery_id (dead_letters s) (d_id d))\<rparr>
      | _ \<Rightarrow> None)"

definition joined_deliveries :: "db \<Rightarrow> string \<Rightarrow> joined list" where
  "joined_deliveries s u = filter (\<lambda>x. event_visible s u (x_ev x)) (List.map_filter (join_delivery s) (deliveries s))"

definition delivery_item :: "server \<Rightarrow> joined \<Rightarrow> (string \<times> json) list" where
  "delivery_item sv x =
     [(''id'', JStr (d_id (x_d x))), (''event_id'', JStr (d_event_id (x_d x))), (''external_event_id'', JStr (ev_event_id (x_ev x))),
      (''type'', JStr (ev_type (x_ev x))), (''project_id'', JStr (ev_project_id (x_ev x))),
      (''endpoint_id'', JStr (d_endpoint_id (x_d x))), (''endpoint_name'', JStr (ep_name (x_ep x))),
      (''status'', JStr (status_text (d_status (x_d x)))), (''attempt_count'', int_json (d_attempt_count (x_d x))),
      (''generation'', int_json (d_generation (x_d x))), (''next_attempt_at'', time_json sv (d_next_attempt_at (x_d x))),
      (''created_at'', time_json sv (d_created_at (x_d x))), (''reason'', opt_json JStr (x_reason x))]"

definition deliveryList :: "server \<Rightarrow> io \<Rightarrow> bool \<Rightarrow> handler" where
  "deliveryList sv i dead r w =
     (let (p, status0, t, endpoint) = filters r;
          status = (if dead then ''dead'' else status0)
      in case since sv r of
           None \<Rightarrow> (w, fail r 400 ''INVALID_DATE'' ''since must be RFC3339'')
         | Some start \<Rightarrow>
             (w, rows r (query sv [user r, p, status, t, endpoint] (io_db i 1) (Inr
                (map (delivery_item sv)
                  (page_of (sv_pg sv) (\<lambda>x. d_created_at (x_d x)) (\<lambda>x. d_id (x_d x)) r
                    (filter (\<lambda>x. wanted p (ev_project_id (x_ev x)) \<and> wanted status (status_text (d_status (x_d x))) \<and>
                       wanted t (ev_type (x_ev x)) \<and> wanted endpoint (ep_id (x_ep x)) \<and> start \<le> d_created_at (x_d x))
                      (joined_deliveries (w_db w) (user r)))))))))"

definition list_deliveries :: "server \<Rightarrow> io \<Rightarrow> handler" where
  "list_deliveries sv i = deliveryList sv i False"

definition deadLetters :: "server \<Rightarrow> io \<Rightarrow> handler" where
  "deadLetters sv i = deliveryList sv i True"

section \<open>Details\<close>

text \<open>The document a \<^verbatim>\<open>jsonb\<close> column returns, as a value.\<close>

definition raw_json :: "bytes \<Rightarrow> json" where
  "raw_json b = (case json_next b of None \<Rightarrow> JNull | Some (v, rest) \<Rightarrow> v)"

definition pg_ts :: "server \<Rightarrow> time \<Rightarrow> json" where
  "pg_ts sv t = JStr (pg_time (sv_pg sv) t)"

definition event :: "server \<Rightarrow> io \<Rightarrow> handler" where
  "event sv i r w =
     (w, one r (query sv [r_ID r, user r] (io_db i 1)
        (res_bind (of_option (find (\<lambda>e. ev_id e = r_ID r \<and> event_visible (w_db w) (user r) e) (events (w_db w)))) (\<lambda>e.
           Inr (JObj [(''id'', JStr (ev_id e)), (''project_id'', JStr (ev_project_id e)), (''event_id'', JStr (ev_event_id e)),
             (''type'', JStr (ev_type e)), (''payload'', raw_json (ev_payload e)), (''created_at'', pg_ts sv (ev_created_at e)),
             (''deliveries'', JArr (map (\<lambda>d. JObj [(''id'', JStr (d_id d)), (''endpoint_id'', JStr (d_endpoint_id d)),
                (''status'', JStr (status_text (d_status d))), (''attempt_count'', int_json (d_attempt_count d))])
                (filter (\<lambda>d. d_event_id d = ev_id e) (deliveries (w_db w)))))])))))"

definition attempt_before :: "attempt_row \<Rightarrow> attempt_row \<Rightarrow> bool" where
  "attempt_before a b \<longleftrightarrow>
     a_generation a < a_generation b \<or> (a_generation a = a_generation b \<and> a_attempt a \<le> a_attempt b)"

definition attempt_json :: "server \<Rightarrow> attempt_row \<Rightarrow> json" where
  "attempt_json sv a =
     JObj [(''id'', JStr (a_id a)), (''delivery_id'', JStr (a_delivery_id a)), (''generation'', int_json (a_generation a)),
       (''attempt'', int_json (a_attempt a)), (''status_code'', int_json (a_status_code a)),
       (''duration_ms'', int_json (a_duration_ms a)), (''error'', JStr (a_error a)), (''created_at'', pg_ts sv (a_created_at a))]"

definition delivery :: "server \<Rightarrow> io \<Rightarrow> handler" where
  "delivery sv i r w =
     (w, one r (query sv [r_ID r, user r] (io_db i 1)
        (res_bind (of_option (find (\<lambda>x. d_id (x_d x) = r_ID r) (joined_deliveries (w_db w) (user r)))) (\<lambda>x.
           let d = x_d x in
           Inr (JObj [(''id'', JStr (d_id d)), (''event_id'', JStr (d_event_id d)), (''endpoint_id'', JStr (d_endpoint_id d)),
             (''endpoint_name'', JStr (ep_name (x_ep x))), (''status'', JStr (status_text (d_status d))),
             (''attempt_count'', int_json (d_attempt_count d)), (''generation'', int_json (d_generation d)),
             (''next_attempt_at'', pg_ts sv (d_next_attempt_at d)), (''created_at'', pg_ts sv (d_created_at d)),
             (''attempts'', JArr (map (attempt_json sv)
                (sort_by attempt_before (filter (\<lambda>a. a_delivery_id a = d_id d) (delivery_attempts (w_db w))))))])))))"

section \<open>Replay\<close>

definition replay_row :: "time \<Rightarrow> delivery_row \<Rightarrow> delivery_row" where
  [row_defs]: "replay_row now d =
     d\<lparr>d_status := Pending, d_attempt_count := 0, d_generation := d_generation d + 1, d_next_attempt_at := now,
       d_lease_until := None, d_lease_token := None, d_updated_at := now\<rparr>"

definition replay_update :: "time \<Rightarrow> string \<Rightarrow> db \<Rightarrow> db_error + db" where
  "replay_update now did s =
     (if \<exists>d \<in> set (deliveries s). d_id d = did \<and> \<not> int4_range (d_generation d + 1) then Inl DataException
      else Inr (s\<lparr>deliveries := tbl_update (\<lambda>d. d_id d = did) (replay_row now) (deliveries s)\<rparr>))"

definition replay_tx :: "server \<Rightarrow> io \<Rightarrow> request \<Rightarrow> db \<Rightarrow> response + (db \<times> response)" where
  "replay_tx sv i r s =
     (case query sv [r_ID r, user r] (io_db i 2)
             (of_option (find (\<lambda>x. d_id (x_d x) = r_ID r) (joined_deliveries s (user r)))) of
        Inl e \<Rightarrow> Inl (dbError r e)
      | Inr x \<Rightarrow>
          (if d_status (x_d x) \<noteq> Dead \<or> \<not> (ep_active (x_ep x) \<and> ep_deleted_at (x_ep x) = None)
           then Inl (fail r 409 ''REPLAY_CONFLICT'' ''only dead deliveries with an active endpoint can be replayed'')
           else case res_bind (stmt (io_db i 3) (replay_update (io_now i) (r_ID r) s))
                  (\<lambda>s1. stmt (io_db i 4) (Inr (s1\<lparr>dead_letters := tbl_delete (\<lambda>l. dl_delivery_id l = r_ID r) (dead_letters s1)\<rparr>))) of
                  Inl e \<Rightarrow> Inl (dbError r e)
                | Inr s2 \<Rightarrow> Inr (s2, write_json 202 (str_obj [(''id'', r_ID r), (''status'', ''pending'')]))))"

definition replay :: "server \<Rightarrow> io \<Rightarrow> handler" where
  "replay sv i r w =
     (let (s', res) = run_tx (io_db i 1) (io_db i 5) (dbError r Unavailable) (replay_tx sv i r) (w_db w)
      in (w\<lparr>w_db := s'\<rparr>, case res of Inl rsp \<Rightarrow> rsp | Inr rsp \<Rightarrow> rsp))"

section \<open>Dashboard\<close>

definition day_start :: "time \<Rightarrow> time" where
  "day_start now = now div day * day"

definition ratio :: "int \<Rightarrow> int \<Rightarrow> rat" where
  "ratio a b = (if b = 0 then 0 else of_int a / of_int b)"

definition dashboard_counts :: "server \<Rightarrow> time \<Rightarrow> db \<Rightarrow> string \<Rightarrow> string \<Rightarrow> json" where
  "dashboard_counts sv now s u p =
     (let evs = filter (\<lambda>e. event_visible s u e \<and> wanted p (ev_project_id e)) (events s);
          ds = filter (\<lambda>d. d_event_id d \<in> ev_id ` set evs) (deliveries s);
          ats = filter (\<lambda>a. a_delivery_id a \<in> d_id ` set ds) (delivery_attempts s);
          c = (\<lambda>st. int (length (filter (\<lambda>d. d_status d = st) ds)));
          num = (\<lambda>q. JNum (pg_numeric (sv_pg sv) q))
      in JObj
        [(''events_received'', int_json (int (length evs))),
         (''events_today'', int_json (int (length (filter (\<lambda>e. day_start now \<le> ev_created_at e) evs)))),
         (''deliveries_attempted'', int_json (int (length ats))),
         (''succeeded'', int_json (c Succeeded)),
         (''failed'', int_json (int (length (filter (\<lambda>a. a_status_code a < 200 \<or> a_status_code a \<ge> 300) ats)))),
         (''retrying'', int_json (c Retrying)), (''dead'', int_json (c Dead)),
         (''pending'', int_json (c Pending + c Processing)),
         (''success_rate'', num (100 * ratio (c Succeeded) (c Succeeded + c Dead))),
         (''average_latency_ms'', num (ratio (sum_list (map a_duration_ms ats)) (int (length ats)))),
         (''cache_ttl_seconds'', int_json 5)])"

definition dashboard_key :: "string \<Rightarrow> string \<Rightarrow> string" where
  "dashboard_key u p = ''dashboard:'' @ u @ '':'' @ p"

text \<open>The cache holds the printed document; \<^verbatim>\<open>Cached\<close> unmarshals it into a \<^verbatim>\<open>json.RawMessage\<close>, which any valid document fits.\<close>

definition dashboard :: "server \<Rightarrow> io \<Rightarrow> handler" where
  "dashboard sv i r w =
     (let p = r_Query r ''project_id''; key = dashboard_key (user r) p in
      case Cached json_valid (io_redis_now i) (io_redis i 0) (w_cache w) key of
        Some b \<Rightarrow> (w, write_json 200 (raw_json b))
      | None \<Rightarrow>
          (case query sv [user r, p] (io_db i 1) (Inr (dashboard_counts sv (io_now i) (w_db w) (user r) p)) of
             Inl e \<Rightarrow> (w, dbError r e)
           | Inr v \<Rightarrow>
               (w\<lparr>w_cache := Cache (io_redis_now i) (io_redis i 1) key (json_print v) (w_cache w)\<rparr>, write_json 200 v)))"

end
