(* ===== verification/Sample.thy ===== *)
theory Sample
  imports Queue Go_Text
begin

text \<open>
  A small concrete database, used by the closed instances of the properties: one user with one project,
  one API key, an active and a deleted endpoint, one event, and a delivery of it that is due. \<open>sample_claimed\<close>
  is the same database after a claim and \<open>sample_job\<close> the job that claim returns.
\<close>

definition sample_pg :: pg where
  "sample_pg = \<lparr>pg_interval = (\<lambda>d. d div 1000), pg_id_le = (\<lambda>a b. length a \<le> length b),
     pg_md5 = (\<lambda>t. t), pg_jsonb = Some, pg_text = (\<lambda>t. True), pg_time = FormatInt,
     pg_numeric = (\<lambda>q. FormatInt \<lfloor>q\<rfloor>)\<rparr>"

definition sample_endpoint :: endpoint_row where
  "sample_endpoint = \<lparr>ep_id = ''ep_1'', ep_project_id = ''prj_1'', ep_name = ''hook'',
     ep_url = ''https://hooks.test/in'', ep_secret_cipher = ''cipher'', ep_active = True,
     ep_max_attempts = 5, ep_base_delay_seconds = 5, ep_rate_per_second = 10, ep_created_at = 10,
     ep_deleted_at = None\<rparr>"

definition sample_event :: event_row where
  "sample_event = \<lparr>ev_id = ''evt_1'', ev_project_id = ''prj_1'', ev_event_id = ''order-1'',
     ev_type = ''order.created'', ev_payload = ''{}'', ev_payload_hash = ''h1'', ev_created_at = 20\<rparr>"

definition sample_delivery :: delivery_row where
  "sample_delivery = \<lparr>d_id = ''dlv_1'', d_event_id = ''evt_1'', d_endpoint_id = ''ep_1'',
     d_status = Pending, d_attempt_count = 0, d_generation = 0, d_next_attempt_at = 20,
     d_lease_until = None, d_lease_token = None, d_created_at = 20, d_updated_at = 20\<rparr>"

definition sample_db :: db where
  "sample_db = \<lparr>users = [\<lparr>u_id = ''usr_1'', u_email = ''a@b.c'', u_password_hash = ''pw'', u_created_at = 1\<rparr>],
     sessions = [\<lparr>s_token_hash = ''sess'', s_user_id = ''usr_1'', s_expires_at = 1000000\<rparr>],
     projects = [\<lparr>p_id = ''prj_1'', p_owner_id = ''usr_1'', p_name = ''Shop'', p_created_at = 2\<rparr>],
     api_keys = [\<lparr>k_id = ''key_1'', k_project_id = ''prj_1'', k_name = ''ci'', k_key_hash = ''kh'',
       k_prefix = ''pr_live_aaaaaaaa'', k_revoked_at = None, k_created_at = 3\<rparr>],
     endpoints = [sample_endpoint,
       sample_endpoint\<lparr>ep_id := ''ep_2'', ep_active := False, ep_deleted_at := Some 15\<rparr>],
     events = [sample_event], deliveries = [sample_delivery], delivery_attempts = [], dead_letters = []\<rparr>"

definition sample_claim :: "db \<times> (db_error + job)" where
  "sample_claim = Claim sample_pg 60000000000 ''lease_a'' 30 (\<lambda>_. False) Done sample_db"

definition sample_job :: job where
  "sample_job = \<lparr>j_ID = ''dlv_1'', j_Token = ''lease_a'', j_EventID = ''order-1'', j_ProjectID = ''prj_1'',
     j_EndpointID = ''ep_1'', j_URL = ''https://hooks.test/in'', j_Secret = ''cipher'', j_Payload = ''{}'',
     j_Attempt = 1, j_Generation = 0, j_MaxAttempts = 5, j_BaseDelay = 5, j_Rate = 10, j_Active = True\<rparr>"

definition sample_leased :: delivery_row where
  "sample_leased = claim_row ''lease_a'' 60000030 30 sample_delivery"

definition sample_claimed :: db where
  "sample_claimed = sample_db\<lparr>deliveries := [sample_leased]\<rparr>"

lemmas sample_defs = sample_pg_def sample_endpoint_def sample_event_def sample_delivery_def sample_db_def

lemma sample_claim_value: "sample_claim = (sample_claimed, Inr sample_job)"
  by (simp add: sample_claim_def Claim_def sample_defs candidate_def due_def claim_row_def job_of_def
      lookup_by_def endpoint_live_def apply_out_def tbl_update_def sample_claimed_def sample_leased_def
      sample_job_def)

lemma sample_db_wf: "db_wf sample_db"
  by (simp add: sample_defs db_wf_def wf_defs policy_check_def int4_range_def)

lemma sample_claimed_wf: "db_wf sample_claimed"
  using sample_db_wf by (simp add: sample_claimed_def sample_leased_def sample_defs db_wf_def wf_defs
      claim_row_def int4_range_def policy_check_def)

lemma no_attempts_at [simp]: "attempts_at [] k g = {}"
  by (simp add: attempts_at_def)

lemma sample_budget: "budget_ok [] sample_delivery" "budget_ok [] sample_leased"
  by (auto simp: budget_ok_def sample_leased_def claim_row_def sample_delivery_def open_status_def
      intro: exI [of _ 0])

lemma sample_db_inv: "queue_inv sample_db"
  using sample_budget by (simp add: queue_inv_def delivery_ok_def lease_ok_def sample_defs)

lemma sample_claimed_inv: "queue_inv sample_claimed"
  using sample_budget by (simp add: queue_inv_def delivery_ok_def lease_ok_def sample_claimed_def
      sample_db_def) (simp add: sample_leased_def claim_row_def)

lemma sample_job_ok: "job_ok sample_claimed sample_job"
  by (simp add: job_ok_def sample_job_def sample_claimed_def sample_leased_def claim_row_def
      sample_delivery_def)

lemma sample_owned: "sample_leased \<in> set (deliveries sample_claimed)" "owns sample_job sample_leased"
  by (simp_all add: sample_claimed_def owns_def sample_job_def sample_leased_def claim_row_def
      sample_delivery_def)

end
