(* ===== verification/Queue_Props.thy ===== *)
theory Queue_Props
  imports Sample
begin

text \<open>
  The queue's properties: what \<open>Claim\<close> hands out, the fencing of \<open>Defer\<close> and \<open>Finish\<close>, the atomicity
  of \<open>Finish\<close> under every pattern of failing calls, and the preservation of the schema's constraints
  (\<open>db_wf\<close>) and of \<open>queue_inv\<close> by all three operations.
\<close>

section \<open>The row updates write no key column\<close>

interpretation claim_upd: delivery_update "claim_row token until now" for token until now
  by unfold_locales (simp_all add: row_defs)

interpretation release_upd: delivery_update "release_row st count next_at now" for st count next_at now
  by unfold_locales (simp_all add: row_defs)

interpretation defer_upd: delivery_update "defer_row st next_at now" for st next_at now
  by unfold_locales (simp_all add: row_defs)

section \<open>Claim\<close>

lemma candidate_SomeD:
  "candidate pg now locked ds = Some c \<Longrightarrow> c \<in> set ds \<and> due now c \<and> \<not> locked (d_id c)"
  unfolding candidate_def by (drule first_by_mem) simp

lemma candidate_None:
  "candidate pg now locked ds = None \<longleftrightarrow> (\<forall>d \<in> set ds. due now d \<longrightarrow> locked (d_id d))"
  by (auto simp: candidate_def filter_empty_conv)

lemma first_by_earliest:
  "first_by (delivery_before pg) ds = Some c \<Longrightarrow> d \<in> set ds \<Longrightarrow>
     d_next_attempt_at c \<le> d_next_attempt_at d"
  by (induction ds arbitrary: c)
    (fastforce simp: delivery_before_def split: option.splits if_splits)+

lemma candidate_earliest:
  assumes "candidate pg now locked ds = Some c" and "d \<in> set ds" and "due now d" and "\<not> locked (d_id d)"
  shows "d_next_attempt_at c \<le> d_next_attempt_at d"
  using first_by_earliest [of pg "filter (\<lambda>d. due now d \<and> \<not> locked (d_id d)) ds" c d] assms
  by (simp add: candidate_def)

lemma delivery_refs:
  assumes "db_wf s" and "d \<in> set (deliveries s)"
  obtains e ep where "lookup_by ev_id (events s) (d_event_id d) = Some e"
    "lookup_by ep_id (endpoints s) (d_endpoint_id d) = Some ep"
    "e \<in> set (events s)" "ev_id e = d_event_id d" "ep \<in> set (endpoints s)" "ep_id ep = d_endpoint_id d"
    "policy_check ep"
proof -
  from assms have "lookup_by ev_id (events s) (d_event_id d) \<noteq> None"
    and "lookup_by ep_id (endpoints s) (d_endpoint_id d) \<noteq> None"
    unfolding db_wf_def wf_deliveries_def by (auto simp: lookup_by_None)
  then obtain e ep where "lookup_by ev_id (events s) (d_event_id d) = Some e"
    "lookup_by ep_id (endpoints s) (d_endpoint_id d) = Some ep" by blast
  with assms(1) that show ?thesis
    by (auto simp: db_wf_def wf_endpoints_def dest!: lookup_by_SomeD)
qed

lemma claim_row_simps [simp]:
  "d_id (claim_row t u n d) = d_id d" "d_event_id (claim_row t u n d) = d_event_id d"
  "d_endpoint_id (claim_row t u n d) = d_endpoint_id d"
  "d_status (claim_row t u n d) = Processing" "d_lease_token (claim_row t u n d) = Some t"
  "d_lease_until (claim_row t u n d) = Some u"
  "d_attempt_count (claim_row t u n d) = d_attempt_count d"
  "d_generation (claim_row t u n d) = d_generation d"
  "d_next_attempt_at (claim_row t u n d) = d_next_attempt_at d"
  by (simp_all add: claim_row_def)

lemma release_row_simps [simp]:
  "d_id (release_row st c n w d) = d_id d" "d_event_id (release_row st c n w d) = d_event_id d"
  "d_endpoint_id (release_row st c n w d) = d_endpoint_id d"
  "d_status (release_row st c n w d) = st" "d_lease_token (release_row st c n w d) = None"
  "d_lease_until (release_row st c n w d) = None"
  "d_attempt_count (release_row st c n w d) = c" "d_generation (release_row st c n w d) = d_generation d"
  "d_next_attempt_at (release_row st c n w d) = n"
  by (simp_all add: release_row_def)

text \<open>
  C10: when the database answers, \<open>Claim\<close> returns a job exactly when some delivery is due and not locked,
  and \<^verbatim>\<open>ErrNoRows\<close> with the database untouched otherwise. The job is for a due row, earliest in
  \<^verbatim>\<open>next_attempt_at\<close> among the due unlocked ones, carries the next attempt number, the current
  generation and the endpoint's present settings; that row, and no other, is leased to the job's token
  until \<open>now + lease\<close>.
\<close>

theorem Claim_correct:
  assumes wf: "db_wf s"
  shows "(case Claim pg lease token now locked Done s of
      (s', Inl e) \<Rightarrow> e = ErrNoRows \<and> s' = s \<and>
        (\<forall>d \<in> set (deliveries s). due now d \<longrightarrow> locked (d_id d))
    | (s', Inr j) \<Rightarrow>
        (\<exists>d \<in> set (deliveries s). \<exists>e \<in> set (events s). \<exists>ep \<in> set (endpoints s).
           due now d \<and> \<not> locked (d_id d) \<and>
           (\<forall>x \<in> set (deliveries s). due now x \<and> \<not> locked (d_id x) \<longrightarrow>
              d_next_attempt_at d \<le> d_next_attempt_at x) \<and>
           ev_id e = d_event_id d \<and> ep_id ep = d_endpoint_id d \<and>
           j_ID j = d_id d \<and> j_Token j = token \<and> j_Payload j = ev_payload e \<and> j_URL j = ep_url ep \<and>
           j_Secret j = ep_secret_cipher ep \<and> j_Active j = endpoint_live ep \<and>
           j_Attempt j = d_attempt_count d + 1 \<and> j_Generation j = d_generation d \<and>
           j_MaxAttempts j = ep_max_attempts ep \<and> j_BaseDelay j = ep_base_delay_seconds ep \<and>
           s' = s\<lparr>deliveries := tbl_update (\<lambda>x. d_id x = d_id d)
                  (claim_row token (now + pg_interval pg lease) now) (deliveries s)\<rparr>))"
proof (cases "candidate pg now locked (deliveries s)")
  case None
  then have "\<forall>d \<in> set (deliveries s). due now d \<longrightarrow> locked (d_id d)"
    by (simp only: candidate_None)
  with None show ?thesis by (simp add: Claim_def)
next
  case (Some c)
  note c = candidate_SomeD [OF Some]
  from delivery_refs [OF wf] c obtain e ep where
    look: "lookup_by ev_id (events s) (d_event_id c) = Some e"
      "lookup_by ep_id (endpoints s) (d_endpoint_id c) = Some ep"
    and refs: "e \<in> set (events s)" "ev_id e = d_event_id c" "ep \<in> set (endpoints s)"
      "ep_id ep = d_endpoint_id c" by metis
  have "\<forall>x \<in> set (deliveries s). due now x \<and> \<not> locked (d_id x) \<longrightarrow>
      d_next_attempt_at c \<le> d_next_attempt_at x"
    using candidate_earliest [OF Some] by blast
  with c refs show ?thesis
    by (simp add: Claim_def Some job_of_def look apply_out_def Let_def)
      (intro bexI [of _ c] conjI bexI [of _ e] bexI [of _ ep]; simp)
qed

theorem Claim_correct_witness:
  "db_wf sample_db \<and>
   (case Claim sample_pg 60000000000 ''lease_a'' 30 (\<lambda>_. False) Done sample_db of
      (s', Inl e) \<Rightarrow> False
    | (s', Inr j) \<Rightarrow> \<exists>d \<in> set (deliveries sample_db). due 30 d \<and> j_ID j = d_id d \<and> j_Token j = ''lease_a'')"
proof -
  have "Claim sample_pg 60000000000 ''lease_a'' 30 (\<lambda>_. False) Done sample_db = (sample_claimed, Inr sample_job)"
    using sample_claim_value by (simp add: sample_claim_def)
  then show ?thesis
    using sample_db_wf Claim_correct [OF sample_db_wf, where pg = sample_pg and lease = 60000000000
      and token = "''lease_a''" and now = 30 and locked = "\<lambda>_. False"]
    by auto
qed

lemma Claim_state:
  "fst (Claim pg lease token now locked oc s) = s \<or>
   (\<exists>c \<in> set (deliveries s). due now c \<and> \<not> locked (d_id c) \<and>
      fst (Claim pg lease token now locked oc s) =
        s\<lparr>deliveries := tbl_update (\<lambda>d. d_id d = d_id c)
            (claim_row token (now + pg_interval pg lease) now) (deliveries s)\<rparr>)"
proof (cases "candidate pg now locked (deliveries s)")
  case (Some c)
  then show ?thesis
    using candidate_SomeD [OF Some] by (auto simp: Claim_def apply_out_def Let_def)
qed (simp add: Claim_def)

lemma Claim_Inr:
  assumes "Claim pg lease token now locked oc s = (s', Inr j)"
  obtains c where "c \<in> set (deliveries s)" "due now c" "\<not> locked (d_id c)"
    "s' = s\<lparr>deliveries := tbl_update (\<lambda>d. d_id d = d_id c)
        (claim_row token (now + pg_interval pg lease) now) (deliveries s)\<rparr>"
    "job_of token s (claim_row token (now + pg_interval pg lease) now c) = Some j"
proof (cases "candidate pg now locked (deliveries s)")
  case None
  with assms show ?thesis by (simp add: Claim_def)
next
  case (Some c)
  with assms candidate_SomeD [OF Some] that [of c] show ?thesis
    by (simp add: Claim_def apply_out_def Let_def split: if_splits option.splits)
qed

section \<open>Keeping the schema's constraints\<close>

lemma wf_delivery_int4:
  assumes "d \<in> set (deliveries s)" and "db_wf s"
  shows "int4_range (d_attempt_count d)" and "int4_range (d_generation d)"
  using assms by (simp_all add: db_wf_def wf_deliveries_def)

lemma Claim_wf: "db_wf s \<Longrightarrow> db_wf (fst (Claim pg lease token now locked oc s))"
  using Claim_state [of pg lease token now locked oc s]
  by (auto intro!: claim_upd.update_wf simp: wf_delivery_int4 [where s = s])

lemma Defer_state:
  "fst (Defer pg now oc j status delay s) = s \<or>
   (\<exists>st. status_of_text status = Some st \<and> fst (Defer pg now oc j status delay s) =
      s\<lparr>deliveries := tbl_update (owns j) (defer_row st (now + pg_interval pg delay) now) (deliveries s)\<rparr>)"
  by (auto simp: Defer_def apply_out_def split: option.splits)

lemma Defer_wf: "db_wf s \<Longrightarrow> db_wf (fst (Defer pg now oc j status delay s))"
  using Defer_state [of pg now oc j status delay s]
  by (auto intro!: defer_upd.update_wf simp: defer_row_def wf_delivery_int4 [where s = s])

lemma insert_attempt_Inr:
  assumes "insert_attempt r s = Inr s1"
  shows "s1 = s\<lparr>delivery_attempts := delivery_attempts s @ [r]\<rparr>" and "int4_range (a_attempt r)"
  using assms by (auto simp: insert_attempt_def split: if_splits)

lemma finish_update_wf:
  "db_wf s \<Longrightarrow> int4_range (j_Attempt j) \<Longrightarrow> db_wf (finish_update pg now j st delay s)"
  unfolding finish_update_def by (rule release_upd.update_wf) (auto simp: wf_delivery_int4 [where s = s])

lemma finish_body_Inr:
  assumes "finish_body pg draw att now pl j c dur reason s = Inr (s', u)"
  obtains st delay s1 where "tbl_count (owns j) (deliveries s) \<noteq> 0"
    "finish_decision draw j c = Some (st, delay)"
    "insert_attempt (attempt_of att now j c dur reason) s = Inr s1"
    "st \<noteq> Dead \<Longrightarrow> s' = finish_update pg now j st delay s1"
    "st = Dead \<Longrightarrow> upsert_dead_letter \<lparr>dl_delivery_id = j_ID j, dl_reason = reason, dl_created_at = now\<rparr>
       (finish_update pg now j st delay s1) = Inr s'"
proof (cases "finish_decision draw j c")
  case None
  with assms show ?thesis by (simp add: finish_body_def split: if_split_asm)
next
  case (Some p)
  obtain st delay where p: "p = (st, delay)" by (cases p)
  from assms Some obtain s1 where owned: "tbl_count (owns j) (deliveries s) \<noteq> 0"
    and ins: "insert_attempt (attempt_of att now j c dur reason) s = Inr s1"
    and fin: "(if st = Dead then stmt (pl 4) (upsert_dead_letter
        \<lparr>dl_delivery_id = j_ID j, dl_reason = reason, dl_created_at = now\<rparr>
        (finish_update pg now j st delay s1)) else Inr (finish_update pg now j st delay s1)) = Inr s'"
    by (auto simp: finish_body_def p simp del: tbl_count_0 split: if_split_asm)
  show ?thesis
    using fin by (intro that [OF owned Some [unfolded p] ins]) simp_all
qed

lemma finish_body_wf:
  assumes "db_wf s" and "finish_body pg draw att now pl j c dur reason s = Inr (s', u)"
  shows "db_wf s'"
  using assms(2)
proof (rule finish_body_Inr)
  fix st delay s1
  assume ins: "insert_attempt (attempt_of att now j c dur reason) s = Inr s1"
    and ok: "st \<noteq> Dead \<Longrightarrow> s' = finish_update pg now j st delay s1"
    and dead: "st = Dead \<Longrightarrow> upsert_dead_letter \<lparr>dl_delivery_id = j_ID j, dl_reason = reason,
      dl_created_at = now\<rparr> (finish_update pg now j st delay s1) = Inr s'"
  have "int4_range (j_Attempt j)"
    using insert_attempt_Inr(2) [OF ins] by (simp add: attempt_of_def)
  then have "db_wf (finish_update pg now j st delay s1)"
    using insert_attempt_wf [OF assms(1) ins] by (intro finish_update_wf)
  then show "db_wf s'"
    using ok dead by (cases "st = Dead") (auto intro: upsert_dead_letter_wf)
qed

interpretation finish_tx_wf: tx_invariant db_wf "finish_body pg draw att now pl j c dur reason"
  for pg draw att now pl j c dur reason
  by unfold_locales (rule finish_body_wf)

section \<open>Fencing\<close>

lemma not_owned_count: "tbl_count (owns j) ds = 0 \<longleftrightarrow> (\<forall>d \<in> set ds. \<not> owns j d)"
  by simp

text \<open>
  C11: a job whose token is no longer the row's lease token changes nothing. \<open>Finish\<close> and \<open>Defer\<close> both
  report \<^verbatim>\<open>ErrStale\<close> when the database answers, and leave the database as it was under every outcome of
  their calls.
\<close>

theorem stale_job_is_fenced:
  assumes stale: "\<forall>d \<in> set (deliveries s). d_id d = j_ID j \<longrightarrow> d_lease_token d \<noteq> Some (j_Token j)"
  shows "Finish pg draw att now all_done j statusCode dur reason s = (s, Inl (Stop ErrStale)) \<and>
    Defer pg now Done j status delay s = (s, Inl ErrStale) \<and>
    fst (Finish pg draw att now pl j statusCode dur reason s) = s \<and>
    fst (Defer pg now oc j status delay s) = s"
proof -
  have none: "tbl_count (owns j) (deliveries s) = 0"
    using stale by (auto simp: owns_def)
  have "\<exists>e. finish_body pg draw att now pl j statusCode dur reason s = Inl e" for pl
    using none by (simp add: finish_body_def)
  then have "fst (Finish pg draw att now pl j statusCode dur reason s) = s"
    unfolding Finish_def using run_tx_atomic by (metis Inl_Inr_False)
  then show ?thesis
    using none by (simp add: Finish_def Defer_def run_tx_def finish_body_def)
qed

theorem stale_job_is_fenced_witness:
  "fst (Finish sample_pg (\<lambda>_. 0) ''att_1'' 40 (\<lambda>_. Lost) (sample_job\<lparr>j_Token := ''lease_old''\<rparr>) 200 0 [] sample_claimed)
     = sample_claimed"
proof -
  have "\<forall>d \<in> set (deliveries sample_claimed). d_id d = j_ID (sample_job\<lparr>j_Token := ''lease_old''\<rparr>) \<longrightarrow>
      d_lease_token d \<noteq> Some (j_Token (sample_job\<lparr>j_Token := ''lease_old''\<rparr>))"
    by (simp add: sample_claimed_def sample_leased_def claim_row_def)
  from stale_job_is_fenced [OF this] show ?thesis by blast
qed

section \<open>Keeping the queue invariant\<close>

lemma attempts_at_snoc:
  "attempts_at (ats @ [a]) k g =
     (if a_delivery_id a = k \<and> a_generation a = g then insert (a_attempt a) (attempts_at ats k g)
      else attempts_at ats k g)"
  by (auto simp: attempts_at_def)

lemma queue_invD:
  "queue_inv s \<Longrightarrow> d \<in> set (deliveries s) \<Longrightarrow> delivery_ok (delivery_attempts s) (dead_letters s) d"
  by (simp add: queue_inv_def)

lemma due_open: "due now d \<Longrightarrow> open_status (d_status d)"
  by (auto simp: due_def open_status_def)

lemma delivery_ok_claim:
  assumes "delivery_ok ats dls d" and "open_status (d_status d)"
  shows "delivery_ok ats dls (claim_row token until now d)"
  using assms by (auto simp: delivery_ok_def lease_ok_def budget_ok_def open_status_def)

lemma delivery_ok_defer:
  assumes "delivery_ok ats dls d" and "open_status (d_status d)" and "open_status st" "st \<noteq> Processing"
  shows "delivery_ok ats dls (defer_row st next_at now d)"
  using assms by (auto simp: delivery_ok_def lease_ok_def budget_ok_def open_status_def defer_row_def)

lemma Claim_inv:
  assumes wf: "db_wf s" and inv: "queue_inv s"
  shows "queue_inv (fst (Claim pg lease token now locked oc s))"
  using Claim_state [of pg lease token now locked oc s]
proof (elim disjE bexE conjE)
  fix c
  let ?u = "claim_row token (now + pg_interval pg lease) now"
  assume c: "c \<in> set (deliveries s)" "due now c"
    and eq: "fst (Claim pg lease token now locked oc s) =
      s\<lparr>deliveries := tbl_update (\<lambda>d. d_id d = d_id c) ?u (deliveries s)\<rparr>"
  have "delivery_ok (delivery_attempts s) (dead_letters s) r"
    if "r \<in> set (tbl_update (\<lambda>d. d_id d = d_id c) ?u (deliveries s))" for r
    using that
  proof (cases rule: tbl_update_memE)
    case (2 r0)
    then have "r0 = c"
      using wf c(1) by (auto simp: db_wf_def wf_deliveries_def intro: key_unique)
    with 2 c show ?thesis
      using queue_invD [OF inv c(1)] by (simp add: delivery_ok_claim due_open)
  qed (rule queue_invD [OF inv])
  then show ?thesis by (simp add: eq queue_inv_def)
qed (simp add: inv)

lemma Defer_inv:
  assumes inv: "queue_inv s" and status: "status = status_text st" "st \<in> {Pending, Retrying, Cancelled}"
  shows "queue_inv (fst (Defer pg now oc j status delay s))"
  using Defer_state [of pg now oc j status delay s]
proof (elim disjE exE conjE)
  fix st'
  let ?u = "defer_row st' (now + pg_interval pg delay) now"
  assume "status_of_text status = Some st'"
  then have st': "open_status st'" "st' \<noteq> Processing"
    using status by (auto simp: open_status_def)
  assume eq: "fst (Defer pg now oc j status delay s) =
      s\<lparr>deliveries := tbl_update (owns j) ?u (deliveries s)\<rparr>"
  have "delivery_ok (delivery_attempts s) (dead_letters s) r"
    if "r \<in> set (tbl_update (owns j) ?u (deliveries s))" for r
    using that
  proof (cases rule: tbl_update_memE)
    case (2 r0)
    then show ?thesis
      using queue_invD [OF inv 2(1)] st' by (simp add: delivery_ok_defer owns_def open_status_def)
  qed (rule queue_invD [OF inv])
  then show ?thesis by (simp add: eq queue_inv_def)
qed (simp add: inv)

text \<open>What a committed \<open>Finish\<close> leaves of one row: the new attempt extends the current generation by one.\<close>

lemma budget_ok_attempt:
  assumes "budget_ok ats d" and "open_status (d_status d)"
    and a: "a_delivery_id a = d_id d" "a_generation a = d_generation d" "a_attempt a = d_attempt_count d + 1"
    and st: "st \<in> {Succeeded, Dead} \<or> d_attempt_count d + 1 \<le> 9"
  shows "budget_ok (ats @ [a]) (release_row st (d_attempt_count d + 1) next_at now d)"
proof -
  let ?n = "d_attempt_count d"
  have n: "0 \<le> ?n" "?n \<le> 9" and cur: "attempts_at ats (d_id d) (d_generation d) = {1..?n}"
    and later: "\<forall>g > d_generation d. attempts_at ats (d_id d) g = {}"
    and all: "\<forall>g. \<exists>n \<le> 10. attempts_at ats (d_id d) g = {1..n}"
    using assms by (auto simp: budget_ok_def)
  have new: "attempts_at (ats @ [a]) (d_id d) (d_generation d) = {1..?n + 1}"
    using n a by (auto simp: attempts_at_snoc cur)
  have old: "attempts_at (ats @ [a]) (d_id d) g = attempts_at ats (d_id d) g" if "g \<noteq> d_generation d" for g
    using that a by (simp add: attempts_at_snoc)
  have "\<exists>m \<le> 10. attempts_at (ats @ [a]) (d_id d) g = {1..m}" for g
  proof (cases "g = d_generation d")
    case True
    then show ?thesis using new n by (intro exI [of _ "?n + 1"]) simp
  qed (simp add: old all)
  then show ?thesis
    using assms n new old later by (auto simp: budget_ok_def open_status_def)
qed

lemma delivery_ok_other:
  assumes "delivery_ok ats dls d" and "a_delivery_id a \<noteq> d_id d"
    and "d_id d \<in> dl_delivery_id ` set dls' \<longleftrightarrow> d_id d \<in> dl_delivery_id ` set dls"
  shows "delivery_ok (ats @ [a]) dls' d"
  using assms by (simp add: delivery_ok_def budget_ok_def attempts_at_snoc)

lemma finish_decision_cases:
  assumes "finish_decision draw j c = Some (st, delay)"
  shows "st = Succeeded \<or> st = Dead \<or> (st = Retrying \<and> j_Attempt j < j_MaxAttempts j)"
  using assms by (auto simp: finish_decision_def split: if_splits)

lemma owned_row_unique:
  assumes "db_wf s" and "d \<in> set (deliveries s)" "owns j d" and "x \<in> set (deliveries s)" "d_id x = j_ID j"
  shows "x = d"
  using assms by (auto simp: db_wf_def wf_deliveries_def owns_def intro: key_unique)

lemma finish_rows:
  assumes wf: "db_wf s" and d: "d \<in> set (deliveries s)" "owns j d"
    and r: "r \<in> set (deliveries (finish_update pg now j st delay s))"
  obtains "r = release_row st (j_Attempt j) (now + pg_interval pg delay) now d"
  | "r \<in> set (deliveries s)" "d_id r \<noteq> j_ID j"
proof -
  from d have t: "d_id d = j_ID j" "d_lease_token d = Some (j_Token j)" by (auto simp: owns_def)
  let ?u = "release_row st (j_Attempt j) (now + pg_interval pg delay) now"
  from r have "r \<in> set (tbl_update (\<lambda>x. d_id x = j_ID j \<and> d_lease_token x = Some (j_Token j)) ?u
      (deliveries s))" by (simp add: finish_update_def)
  then show ?thesis
  proof (cases rule: tbl_update_memE)
    case 1
    with owned_row_unique [OF wf d] t have "d_id r \<noteq> j_ID j" by blast
    with 1 that show ?thesis by blast
  next
    case (2 r0)
    then have "r0 = d" using owned_row_unique [OF wf d] by blast
    with 2 that show ?thesis by blast
  qed
qed

lemma finish_update_frame [simp]:
  "delivery_attempts (finish_update pg now j st delay s) = delivery_attempts s"
  "dead_letters (finish_update pg now j st delay s) = dead_letters s"
  "d_id ` set (deliveries (finish_update pg now j st delay s)) = d_id ` set (deliveries s)"
  by (simp_all add: finish_update_def release_upd.pk.keys_update)

lemma upsert_dead_letter_Inr:
  assumes "upsert_dead_letter r s = Inr s'"
  shows "deliveries s' = deliveries s \<and> delivery_attempts s' = delivery_attempts s \<and>
    dl_delivery_id ` set (dead_letters s') = insert (dl_delivery_id r) (dl_delivery_id ` set (dead_letters s))"
  using assms
  by (cases "dl_delivery_id r \<in> dl_delivery_id ` set (dead_letters s)")
    (clarsimp simp: upsert_dead_letter_def dead_letter_touch.keys_update insert_absorb
      simp del: image_iff split: if_split_asm)+

lemma finish_inv_state:
  assumes wf: "db_wf s" and inv: "queue_inv s" and job: "job_ok s j"
    and d: "d \<in> set (deliveries s)" "owns j d"
    and dec: "finish_decision draw j c = Some (st, delay)"
    and s': "deliveries s' = deliveries (finish_update pg now j st delay s)"
      "delivery_attempts s' = delivery_attempts s @ [attempt_of att now j c dur reason]"
      "dl_delivery_id ` set (dead_letters s') =
         (if st = Dead then insert (j_ID j) else id) (dl_delivery_id ` set (dead_letters s))"
  shows "queue_inv s'"
  unfolding queue_inv_def
proof
  fix r assume "r \<in> set (deliveries s')"
  then have r: "r \<in> set (deliveries (finish_update pg now j st delay s))" by (simp add: s')
  let ?a = "attempt_of att now j c dur reason"
  have n: "j_Attempt j = d_attempt_count d + 1" "j_Generation j = d_generation d" "j_MaxAttempts j \<le> 10"
    and t: "d_id d = j_ID j" "d_status d = Processing"
    using job d by (auto simp: job_ok_def owns_def)
  show "delivery_ok (delivery_attempts s') (dead_letters s') r"
    using wf d r
  proof (cases rule: finish_rows)
    case 1
    have ok: "budget_ok (delivery_attempts s) d" "d_status d = Dead \<longleftrightarrow> d_id d \<in> dl_delivery_id ` set (dead_letters s)"
      using queue_invD [OF inv d(1)] by (auto simp: delivery_ok_def)
    have "budget_ok (delivery_attempts s @ [?a]) (release_row st (d_attempt_count d + 1) (now + pg_interval pg delay) now d)"
      using finish_decision_cases [OF dec] n t
      by (intro budget_ok_attempt [OF ok(1)]) (auto simp: attempt_of_def open_status_def)
    moreover have "st \<noteq> Processing" using finish_decision_cases [OF dec] by auto
    ultimately show ?thesis
      using ok(2) t n by (auto simp: 1 s' delivery_ok_def lease_ok_def)
  next
    case 2
    then show ?thesis
      using queue_invD [OF inv 2(1)] unfolding s'
      by (intro delivery_ok_other) (auto simp: s' attempt_of_def split: if_splits)
  qed
qed

lemma finish_body_inv:
  assumes inv: "db_wf s \<and> queue_inv s \<and> job_ok s j"
    and fin: "finish_body pg draw att now pl j c dur reason s = Inr (s', u)"
  shows "queue_inv s'"
  using fin
proof (rule finish_body_Inr)
  fix st delay s1
  let ?a = "attempt_of att now j c dur reason"
  assume "tbl_count (owns j) (deliveries s) \<noteq> 0"
  then obtain d where d: "d \<in> set (deliveries s)" "owns j d" by auto
  assume dec: "finish_decision draw j c = Some (st, delay)"
    and "insert_attempt ?a s = Inr s1"
  then have s1: "s1 = s\<lparr>delivery_attempts := delivery_attempts s @ [?a]\<rparr>"
    using insert_attempt_Inr by blast
  assume ok: "st \<noteq> Dead \<Longrightarrow> s' = finish_update pg now j st delay s1"
    and dead: "st = Dead \<Longrightarrow> upsert_dead_letter \<lparr>dl_delivery_id = j_ID j, dl_reason = reason,
      dl_created_at = now\<rparr> (finish_update pg now j st delay s1) = Inr s'"
  have "deliveries s' = deliveries (finish_update pg now j st delay s) \<and>
      delivery_attempts s' = delivery_attempts s @ [?a] \<and>
      dl_delivery_id ` set (dead_letters s') =
        (if st = Dead then insert (j_ID j) else id) (dl_delivery_id ` set (dead_letters s))"
  proof (cases "st = Dead")
    case True
    show ?thesis
      using upsert_dead_letter_Inr [OF dead [OF True]] True by (simp add: s1 finish_update_def)
  qed (simp add: ok s1 finish_update_def)
  then show "queue_inv s'"
    using inv d dec by (blast intro: finish_inv_state)
qed

lemma Finish_state:
  "fst (Finish pg draw att now pl j c dur reason s) = s \<or>
   (\<exists>u. finish_body pg draw att now pl j c dur reason s =
      Inr (fst (Finish pg draw att now pl j c dur reason s), u))"
  unfolding Finish_def by (rule run_tx_atomic)

lemma Finish_inv:
  assumes "db_wf s" and "queue_inv s" and "job_ok s j"
  shows "queue_inv (fst (Finish pg draw att now pl j statusCode dur reason s))"
proof -
  let ?s' = "fst (Finish pg draw att now pl j statusCode dur reason s)"
  consider "?s' = s" | u where "finish_body pg draw att now pl j statusCode dur reason s = Inr (?s', u)"
    using Finish_state [of pg draw att now pl j statusCode dur reason s] by blast
  then show ?thesis
  proof cases
    case (2 u)
    show ?thesis by (rule finish_body_inv [OF _ 2]) (simp add: assms)
  qed (simp add: assms)
qed

section \<open>Finish, outcome by outcome\<close>

lemma finish_decision_total:
  assumes "job_ok s j" and "draw_ok draw"
  obtains st w where "finish_decision draw j c = Some (st, w)"
    "st = Succeeded \<longleftrightarrow> 200 \<le> c \<and> c < 300"
    "st = Retrying \<longleftrightarrow> Retryable c \<and> j_Attempt j < j_MaxAttempts j"
    "st = Succeeded \<or> st = Retrying \<or> st = Dead"
    "if st = Retrying then Backoff draw (j_Attempt j) (j_BaseDelay j) = Some w else w = 0"
proof -
  have "1 \<le> j_BaseDelay j" "j_BaseDelay j \<le> 3600" using assms(1) by (auto simp: job_ok_def)
  from Backoff_value(1) [OF this assms(2)] obtain w
    where w: "Backoff draw (j_Attempt j) (j_BaseDelay j) = Some w" by blast
  have no: "\<not> Retryable c" if "200 \<le> c" "c < 300" using that by (simp add: Retryable_def)
  consider "200 \<le> c \<and> c < 300" | "\<not> (200 \<le> c \<and> c < 300)" "Retryable c \<and> j_Attempt j < j_MaxAttempts j"
    | "\<not> (200 \<le> c \<and> c < 300)" "\<not> (Retryable c \<and> j_Attempt j < j_MaxAttempts j)" by blast
  then show ?thesis
  proof cases
    case 1
    then show ?thesis using no by (intro that [of Succeeded 0]) (auto simp: finish_decision_def)
  next
    case 2
    then show ?thesis using w by (intro that [of Retrying w]) (auto simp: finish_decision_def)
  next
    case 3
    then show ?thesis by (intro that [of Dead 0]) (auto simp: finish_decision_def)
  qed
qed

lemma insert_attempt_fresh:
  assumes wf: "db_wf s" and inv: "queue_inv s" and job: "job_ok s j"
    and d: "d \<in> set (deliveries s)" "owns j d"
    and att: "att \<notin> a_id ` set (delivery_attempts s)" and c: "int4_range c"
  shows "insert_attempt (attempt_of att now j c dur reason) s =
    Inr (s\<lparr>delivery_attempts := delivery_attempts s @ [attempt_of att now j c dur reason]\<rparr>)"
proof -
  have n: "j_Attempt j = d_attempt_count d + 1" "j_Generation j = d_generation d" "d_id d = j_ID j"
    using job d by (auto simp: job_ok_def owns_def)
  have b: "budget_ok (delivery_attempts s) d" and "open_status (d_status d)"
    using queue_invD [OF inv d(1)] d by (auto simp: delivery_ok_def owns_def open_status_def)
  then have "0 \<le> d_attempt_count d \<and> d_attempt_count d \<le> 9" by (simp add: budget_ok_def)
  then have "int4_range (j_Attempt j)" using n by (simp add: int4_range_def)
  moreover have "int4_range (j_Generation j)" using wf_delivery_int4 [OF d(1) wf] n by simp
  moreover have "j_Attempt j \<notin> attempts_at (delivery_attempts s) (d_id d) (d_generation d)"
    using b n by (simp add: budget_ok_def)
  then have "\<not> (\<exists>a \<in> set (delivery_attempts s). a_delivery_id a = j_ID j \<and>
      a_generation a = j_Generation j \<and> a_attempt a = j_Attempt j)"
    using n unfolding attempts_at_def image_iff by auto
  moreover have "j_ID j \<in> d_id ` set (deliveries s)" using d n by (metis imageI)
  ultimately show ?thesis
    using att c by (simp add: insert_attempt_def attempt_of_def)
qed

lemma Finish_commits:
  assumes wf: "db_wf s" and inv: "queue_inv s" and job: "job_ok s j"
    and d: "d \<in> set (deliveries s)" "owns j d"
    and att: "att \<notin> a_id ` set (delivery_attempts s)" and c: "int4_range statusCode" and draw: "draw_ok draw"
  shows "\<exists>st w. Finish pg draw att now all_done j statusCode dur reason s =
      (s\<lparr>deliveries := tbl_update (\<lambda>x. x = d)
            (release_row st (j_Attempt j) (now + pg_interval pg w) now) (deliveries s),
         delivery_attempts := delivery_attempts s @ [attempt_of att now j statusCode dur reason],
         dead_letters := dead_letters s @
           (if st = Dead then [\<lparr>dl_delivery_id = j_ID j, dl_reason = reason, dl_created_at = now\<rparr>] else [])\<rparr>,
       Inr ()) \<and>
    (st = Succeeded \<longleftrightarrow> 200 \<le> statusCode \<and> statusCode < 300) \<and>
    (st = Retrying \<longleftrightarrow> Retryable statusCode \<and> j_Attempt j < j_MaxAttempts j) \<and>
    (st = Succeeded \<or> st = Retrying \<or> st = Dead) \<and>
    (if st = Retrying then Backoff draw (j_Attempt j) (j_BaseDelay j) = Some w else w = 0)"
proof -
  obtain st w where dec: "finish_decision draw j statusCode = Some (st, w)"
    and st: "(st = Succeeded \<longleftrightarrow> 200 \<le> statusCode \<and> statusCode < 300) \<and>
    (st = Retrying \<longleftrightarrow> Retryable statusCode \<and> j_Attempt j < j_MaxAttempts j) \<and>
    (st = Succeeded \<or> st = Retrying \<or> st = Dead) \<and>
    (if st = Retrying then Backoff draw (j_Attempt j) (j_BaseDelay j) = Some w else w = 0)"
    by (rule finish_decision_total [OF job draw, of statusCode]) blast
  have owned: "tbl_count (owns j) (deliveries s) \<noteq> 0" using d by auto
  have t: "d_id d = j_ID j" "d_lease_token d = Some (j_Token j)" "d_status d = Processing"
    using d by (auto simp: owns_def)
  have "d_id x = j_ID j \<and> d_lease_token x = Some (j_Token j) \<longleftrightarrow> x = d" if "x \<in> set (deliveries s)" for x
    using owned_row_unique [OF wf d that] t by blast
  then have rows: "tbl_update (\<lambda>x. d_id x = j_ID j \<and> d_lease_token x = Some (j_Token j)) f (deliveries s) =
      tbl_update (\<lambda>x. x = d) f (deliveries s)" for f
    by (simp add: tbl_update_def)
  have nodl: "j_ID j \<notin> dl_delivery_id ` set (dead_letters s)"
    using queue_invD [OF inv d(1)] t by (auto simp: delivery_ok_def)
  have fk: "j_ID j \<in> d_id ` set (tbl_update P (release_row st' (j_Attempt j) (now + pg_interval pg w) now) (deliveries s))"
    for P st' using d t by (metis imageI release_upd.pk.keys_update)
  show ?thesis
    by (rule exI [of _ st], rule exI [of _ w], rule conjI [OF _ st])
      (use owned dec nodl fk in \<open>simp add: Finish_def run_tx_def finish_body_def finish_update_def
        insert_attempt_fresh [OF wf inv job d att c] upsert_dead_letter_def rows del: tbl_count_0\<close>)
qed

text \<open>
  C12: \<open>Finish\<close> of an owned job always commits when the database answers, and what it commits is
  determined by the HTTP status. The attempt row is appended; the delivery is released with its attempt
  count advanced, as \<^verbatim>\<open>succeeded\<close> exactly on 2xx, as \<^verbatim>\<open>retrying\<close> exactly when the status is retryable
  and the attempt is below the endpoint's maximum (then delayed by the backoff), and as \<^verbatim>\<open>dead\<close>
  otherwise, in which case, and only then, a dead letter with the reason is added. Nothing else changes.
\<close>

theorem Finish_outcomes:
  assumes wf: "db_wf s" and inv: "queue_inv s" and job: "job_ok s j"
    and d: "d \<in> set (deliveries s)" "owns j d"
    and att: "att \<notin> a_id ` set (delivery_attempts s)" and c: "int4_range statusCode" and draw: "draw_ok draw"
  shows "\<exists>st w. Finish pg draw att now all_done j statusCode dur reason s =
      (s\<lparr>deliveries := tbl_update (\<lambda>x. x = d)
            (release_row st (j_Attempt j) (now + pg_interval pg w) now) (deliveries s),
         delivery_attempts := delivery_attempts s @ [attempt_of att now j statusCode dur reason],
         dead_letters := dead_letters s @
           (if st = Dead then [\<lparr>dl_delivery_id = j_ID j, dl_reason = reason, dl_created_at = now\<rparr>] else [])\<rparr>,
       Inr ()) \<and>
    (st = Succeeded \<longleftrightarrow> 200 \<le> statusCode \<and> statusCode < 300) \<and>
    (st = Retrying \<longleftrightarrow> Retryable statusCode \<and> j_Attempt j < j_MaxAttempts j) \<and>
    (st = Succeeded \<or> st = Retrying \<or> st = Dead) \<and>
    (if st = Retrying then Backoff draw (j_Attempt j) (j_BaseDelay j) = Some w else w = 0)"
  by (rule Finish_commits [OF wf inv job d att c draw])

theorem Finish_outcomes_witness:
  "\<exists>st. d_status (hd (deliveries (fst (Finish sample_pg (\<lambda>_. 0) ''att_1'' 40 all_done sample_job 503 0 ''HTTP 503''
      sample_claimed)))) = st \<and> st = Retrying"
proof -
  have "''att_1'' \<notin> a_id ` set (delivery_attempts sample_claimed)" "int4_range 503"
    by (simp_all add: sample_claimed_def sample_db_def int4_range_def)
  from Finish_outcomes [OF sample_claimed_wf sample_claimed_inv sample_job_ok sample_owned this draw_zero_ok,
      of sample_pg 40 0 "''HTTP 503''"]
  obtain st w where "Finish sample_pg (\<lambda>_. 0) ''att_1'' 40 all_done sample_job 503 0 ''HTTP 503'' sample_claimed =
      (sample_claimed\<lparr>deliveries := tbl_update (\<lambda>x. x = sample_leased)
            (release_row st (j_Attempt sample_job) (40 + pg_interval sample_pg w) 40) (deliveries sample_claimed),
         delivery_attempts := delivery_attempts sample_claimed @ [attempt_of ''att_1'' 40 sample_job 503 0 ''HTTP 503''],
         dead_letters := dead_letters sample_claimed @
           (if st = Dead then [\<lparr>dl_delivery_id = j_ID sample_job, dl_reason = ''HTTP 503'', dl_created_at = 40\<rparr>]
            else [])\<rparr>, Inr ())"
    and "st = Retrying \<longleftrightarrow> Retryable 503 \<and> j_Attempt sample_job < j_MaxAttempts sample_job" by blast
  then show ?thesis
    by (simp add: Retryable_def sample_job_def sample_claimed_def tbl_update_def)
qed

end
