(* ===== verification/Api_Props.thy ===== *)
theory Api_Props
  imports Api_Ingest Api_Inspection Queue_Props
begin

text \<open>
  What the handlers of the API do to the database: each keeps the schema's constraints and the queue's
  invariant under every outcome of its calls, and none touches a leased delivery (\<open>db_step\<close>).
  Then the functional properties: idempotent ingestion with exact fan-out, replay, ownership, paging.
\<close>

section \<open>Steps of the database\<close>

text \<open>Rows that carry a lease are left exactly as they are.\<close>

definition leases_kept :: "db \<Rightarrow> db \<Rightarrow> bool" where
  "leases_kept s s' \<longleftrightarrow> (\<forall>d \<in> set (deliveries s'). d_lease_token d = None \<or> d \<in> set (deliveries s))"

definition same_queue :: "db \<Rightarrow> db \<Rightarrow> bool" where
  "same_queue s s' \<longleftrightarrow> deliveries s' = deliveries s \<and> delivery_attempts s' = delivery_attempts s \<and>
     dead_letters s' = dead_letters s"

text \<open>A deleted endpoint stays in the table and stays deleted.\<close>

definition deleted_kept :: "db \<Rightarrow> db \<Rightarrow> bool" where
  "deleted_kept s s' \<longleftrightarrow>
     (\<forall>e \<in> set (endpoints s). ep_deleted_at e \<noteq> None \<longrightarrow>
        (\<exists>e' \<in> set (endpoints s'). ep_id e' = ep_id e \<and> ep_deleted_at e' \<noteq> None))"

text \<open>
  No delivery is lost, and only a dead one changes, by a replay; a new one is fresh: pending, in its first
  generation, with nothing attempted and no lease.
\<close>

definition fresh_delivery :: "delivery_row \<Rightarrow> bool" where
  "fresh_delivery d \<longleftrightarrow> d_status d = Pending \<and> d_attempt_count d = 0 \<and> d_generation d = 0 \<and>
     d_lease_token d = None \<and> d_lease_until d = None"

definition rows_kept :: "db \<Rightarrow> db \<Rightarrow> bool" where
  "rows_kept s s' \<longleftrightarrow>
     (\<forall>d \<in> set (deliveries s). d \<in> set (deliveries s') \<or>
        d_status d = Dead \<and> (\<exists>now. replay_row now d \<in> set (deliveries s'))) \<and>
     (\<forall>d \<in> set (deliveries s'). d_id d \<in> d_id ` set (deliveries s) \<or> fresh_delivery d)"

definition db_step :: "db \<Rightarrow> db \<Rightarrow> bool" where
  "db_step s s' \<longleftrightarrow>
     (db_wf s \<and> queue_inv s \<longrightarrow> db_wf s' \<and> queue_inv s' \<and> rows_kept s s') \<and> leases_kept s s' \<and> deleted_kept s s' \<and>
     delivery_attempts s' = delivery_attempts s"

lemma deleted_kept_subset: "set (endpoints s) \<subseteq> set (endpoints s') \<Longrightarrow> deleted_kept s s'"
  unfolding deleted_kept_def by blast

lemma rows_kept_same: "deliveries s' = deliveries s \<Longrightarrow> rows_kept s s'"
  by (simp add: rows_kept_def)

text \<open>So a leased row stays as it is: the queue invariant allows a lease only in \<open>Processing\<close>.\<close>

lemma rows_kept_leased:
  assumes "queue_inv s" "rows_kept s s'" "d \<in> set (deliveries s)" "d_lease_token d \<noteq> None"
  shows "d \<in> set (deliveries s')"
proof -
  have "d_status d = Processing" using queue_invD [OF assms(1,3)] assms(4) by (auto simp: delivery_ok_def lease_ok_def)
  then show ?thesis using assms(2,3) unfolding rows_kept_def by auto
qed

lemma db_step_refl [simp]: "db_step s s"
  by (simp add: rows_kept_same db_step_def leases_kept_def deleted_kept_subset)

lemma db_step_same:
  assumes "same_queue s s'" and "deleted_kept s s'" and "db_wf s \<Longrightarrow> db_wf s'"
  shows "db_step s s'"
  using assms by (simp add: db_step_def same_queue_def leases_kept_def queue_inv_def rows_kept_same)

lemma exec_step:
  assumes "\<And>s' a. f s = Inr (s', a) \<Longrightarrow> db_step s s'"
  shows "db_step s (fst (exec sv params oc f s))"
  using assms by (auto simp: exec_def apply_out_def split: sum.split)

lemma run_tx_step:
  assumes "\<And>s' a. body s = Inr (s', a) \<Longrightarrow> db_step s s'"
  shows "db_step s (fst (run_tx bg cm un body s))"
  using run_tx_atomic [of bg cm un body s] assms by (metis db_step_refl)

text \<open>An \<^verbatim>\<open>INSERT\<close> into a table the queue does not read, made by a statement that commits by itself.\<close>

locale plain_insert =
  fixes ins :: "'r \<Rightarrow> db \<Rightarrow> db_error + db"
  assumes ins_wf: "db_wf s \<Longrightarrow> ins r s = Inr s' \<Longrightarrow> db_wf s'"
    and ins_frame: "ins r s = Inr s' \<Longrightarrow> same_queue s s' \<and> set (endpoints s) \<subseteq> set (endpoints s')"
begin

lemma ins_step: "ins r s = Inr s' \<Longrightarrow> db_step s s'"
  using ins_frame [of r s s'] by (intro db_step_same) (auto intro: ins_wf deleted_kept_subset)

lemma exec_ins_step: "db_step s (fst (exec sv params oc (\<lambda>s. res_bind (ins r s) (\<lambda>s1. Inr (s1, ()))) s))"
  by (rule exec_step) (auto intro: ins_step)

end

interpretation user_ins: plain_insert insert_user
  by unfold_locales (rule insert_user_wf, assumption+, auto simp: same_queue_def insert_user_def split: if_splits)

interpretation session_ins: plain_insert insert_session
  by unfold_locales (rule insert_session_wf, assumption+, auto simp: same_queue_def insert_session_def split: if_splits)

interpretation project_ins: plain_insert insert_project
  by unfold_locales (rule insert_project_wf, assumption+, auto simp: same_queue_def insert_project_def split: if_splits)

interpretation key_ins: plain_insert insert_api_key
  by unfold_locales (rule insert_api_key_wf, assumption+, auto simp: same_queue_def insert_api_key_def split: if_splits)

interpretation endpoint_ins: plain_insert insert_endpoint
  by unfold_locales (rule insert_endpoint_wf, assumption+, auto simp: same_queue_def insert_endpoint_def split: if_splits)

section \<open>Accounts, projects, endpoints\<close>

lemma session_step: "db_step (w_db w) (w_db (fst (session sv i k uid status r w)))"
  using session_ins.exec_ins_step [of "w_db w" sv "[]" "io_db i 1"]
  by (simp add: session_def Let_def split_beta)

lemma delivery_id_unique:
  "db_wf s \<Longrightarrow> d \<in> set (deliveries s) \<Longrightarrow> x \<in> set (deliveries s) \<Longrightarrow> d_id x = d_id d \<Longrightarrow> x = d"
  by (auto simp: db_wf_def wf_deliveries_def intro: key_unique)

lemma rows_kept_trans:
  assumes 1: "rows_kept s s'" and 2: "rows_kept s' s''" and wf: "db_wf s''"
  shows "rows_kept s s''"
  unfolding rows_kept_def
proof (intro conjI ballI)
  fix d assume "d \<in> set (deliveries s)"
  with 1 consider "d \<in> set (deliveries s')" | now where "d_status d = Dead" "replay_row now d \<in> set (deliveries s')"
    unfolding rows_kept_def by blast
  then show "d \<in> set (deliveries s'') \<or> d_status d = Dead \<and> (\<exists>now. replay_row now d \<in> set (deliveries s''))"
  proof cases
    case (2 now)
    moreover have "d_status (replay_row now d) = Pending" by (simp add: replay_row_def)
    ultimately show ?thesis using \<open>rows_kept s' s''\<close> unfolding rows_kept_def
      by (metis delivery_status.distinct(7))
  qed (use 2 in \<open>auto simp: rows_kept_def\<close>)
next
  fix d assume d: "d \<in> set (deliveries s'')"
  show "d_id d \<in> d_id ` set (deliveries s) \<or> fresh_delivery d"
  proof (rule disjCI)
    assume "\<not> fresh_delivery d"
    with 2 d obtain d' where d': "d' \<in> set (deliveries s')" "d_id d' = d_id d"
      unfolding rows_kept_def by (metis imageE)
    show "d_id d \<in> d_id ` set (deliveries s)"
    proof (rule ccontr)
      assume "d_id d \<notin> d_id ` set (deliveries s)"
      with 1 d' have "fresh_delivery d'" unfolding rows_kept_def by metis
      moreover from this 2 d'(1) have "d' \<in> set (deliveries s'')"
        unfolding rows_kept_def fresh_delivery_def by auto
      with d d'(2) wf have "d' = d" by (metis delivery_id_unique)
      ultimately show False using \<open>\<not> fresh_delivery d\<close> by simp
    qed
  qed
qed

lemma db_step_trans:
  assumes "db_step s s'" and "db_step s' s''"
  shows "db_step s s''"
proof -
  have "deleted_kept s s''"
    using assms unfolding db_step_def deleted_kept_def by metis
  moreover have "leases_kept s s''"
    using assms unfolding db_step_def leases_kept_def by blast
  moreover have "rows_kept s s''" if "db_wf s \<and> queue_inv s"
    using assms that rows_kept_trans unfolding db_step_def by blast
  ultimately show ?thesis using assms unfolding db_step_def by presburger
qed

lemma user_then_session:
  assumes s1: "s1 = fst (exec sv ps oc (\<lambda>s. res_bind (insert_user row s) (\<lambda>s1. Inr (s1, ()))) (w_db w))"
  shows "db_step (w_db w) (w_db (fst (session sv' i k uid st r (w\<lparr>w_db := s1\<rparr>))))"
proof (rule db_step_trans)
  show "db_step (w_db w) s1" unfolding s1 by (rule user_ins.exec_ins_step)
  show "db_step s1 (w_db (fst (session sv' i k uid st r (w\<lparr>w_db := s1\<rparr>))))"
    using session_step [of "w\<lparr>w_db := s1\<rparr>"] by simp
qed

lemma register_user_step: "db_step (w_db w) (w_db (fst (register_user sv i c r w)))"
  by (simp add: register_user_def Let_def split_beta user_then_session [OF refl] user_ins.exec_ins_step split: sum.split)

lemma authLimit_db [simp]: "w_db (fst (authLimit i r w)) = w_db w"
  by (simp add: authLimit_def Let_def split_beta split: sum.split)

lemma register_step: "db_step (w_db w) (w_db (fst (register sv i r w)))"
  using register_user_step [of "fst (authLimit i r w)"]
  by (auto simp: register_def Let_def split_beta split: sum.split)

lemma login_step: "db_step (w_db w) (w_db (fst (login sv i r w)))"
  using session_step [of "fst (authLimit i r w)"]
  by (auto simp: login_def Let_def split_beta split: sum.split)

lemma logout_wf: "db_wf s \<Longrightarrow> db_wf (s\<lparr>sessions := tbl_delete P (sessions s)\<rparr>)"
  by (auto simp: db_wf_def wf_defs distinct_tbl_delete)

lemma logout_step: "db_step (w_db w) (w_db (fst (logout sv i r w)))"
proof -
  have "db_step s (s\<lparr>sessions := tbl_delete P (sessions s)\<rparr>)" for s P
    by (rule db_step_same) (simp_all add: same_queue_def logout_wf deleted_kept_subset)
  then have "db_step s (fst (exec sv [] oc (\<lambda>s. Inr (s\<lparr>sessions := tbl_delete P (sessions s)\<rparr>, ())) s))" for s P oc
    by (intro exec_step) auto
  then show ?thesis by (simp add: logout_def split_beta split: option.split)
qed

lemma createProject_step: "db_step (w_db w) (w_db (fst (createProject sv i r w)))"
  by (simp add: createProject_def Let_def split_beta project_ins.exec_ins_step split: sum.split)

lemma createKey_step: "db_step (w_db w) (w_db (fst (createKey sv i r w)))"
  by (simp add: createKey_def Let_def split_beta key_ins.exec_ins_step split: sum.split)

lemma createEndpoint_step: "db_step (w_db w) (w_db (fst (createEndpoint sv i r w)))"
  by (simp add: createEndpoint_def Let_def split_beta endpoint_ins.exec_ins_step split: sum.split)

text \<open>Updates of keys and endpoints write no key column.\<close>

interpretation revoke_id: pk_update k_id "\<lambda>k. k\<lparr>k_revoked_at := t\<rparr>" for t
  by unfold_locales simp
interpretation revoke_hash: pk_update k_key_hash "\<lambda>k. k\<lparr>k_revoked_at := t\<rparr>" for t
  by unfold_locales simp
interpretation revoke_project: pk_update k_project_id "\<lambda>k. k\<lparr>k_revoked_at := t\<rparr>" for t
  by unfold_locales simp

lemma deleteKey_step: "db_step (w_db w) (w_db (fst (deleteKey sv i r w)))"
proof -
  have "db_step s (revoke_keys now u kid s)" for now u kid s
    by (rule db_step_same)
      (simp_all add: same_queue_def deleted_kept_subset revoke_keys_def db_wf_def wf_defs revoke_id.map_key_update
        revoke_hash.map_key_update revoke_project.keys_update)
  then have "db_step s (fst (exec sv ps oc (\<lambda>s. Inr (revoke_keys now u kid s, g s)) s))" for s ps oc now u kid and g :: "db \<Rightarrow> nat"
    by (intro exec_step) auto
  then show ?thesis by (simp add: deleteKey_def split_beta)
qed

locale endpoint_update =
  fixes f :: "endpoint_row \<Rightarrow> endpoint_row"
  assumes f_id: "ep_id (f e) = ep_id e" and f_project: "ep_project_id (f e) = ep_project_id e"
    and f_policy: "policy_check e \<Longrightarrow> policy_check (f e)"
    and f_deleted: "ep_deleted_at e \<noteq> None \<Longrightarrow> ep_deleted_at (f e) \<noteq> None"
begin

sublocale pk: pk_update ep_id f
  by unfold_locales (rule f_id)

sublocale pr: pk_update ep_project_id f
  by unfold_locales (rule f_project)

lemma endpoints_step: "db_step s (s\<lparr>endpoints := tbl_update P f (endpoints s)\<rparr>)"
proof (rule db_step_same)
  assume wf: "db_wf s"
  then have "\<forall>e \<in> set (endpoints s). policy_check e" by (simp add: db_wf_def wf_endpoints_def)
  then have "\<forall>e \<in> set (tbl_update P f (endpoints s)). policy_check e"
    using f_policy by (blast elim: tbl_update_memE)
  with wf show "db_wf (s\<lparr>endpoints := tbl_update P f (endpoints s)\<rparr>)"
    by (simp add: db_wf_def wf_defs pk.map_key_update pk.keys_update pr.keys_update)
next
  have "\<exists>e' \<in> set (tbl_update P f (endpoints s)). ep_id e' = ep_id e \<and> ep_deleted_at e' \<noteq> None"
    if "e \<in> set (endpoints s)" "ep_deleted_at e \<noteq> None" for e
    using that f_id f_deleted by (intro bexI [of _ "if P e then f e else e"]) (auto simp: tbl_update_def)
  then show "deleted_kept s (s\<lparr>endpoints := tbl_update P f (endpoints s)\<rparr>)"
    unfolding deleted_kept_def by simp
qed (simp add: same_queue_def)

end

interpretation delete_endpoint: endpoint_update "\<lambda>e. e\<lparr>ep_active := False, ep_deleted_at := Some now\<rparr>" for now
  by unfold_locales (simp_all add: policy_check_def)

lemma deleteEndpoint_step: "db_step (w_db w) (w_db (fst (deleteEndpoint sv i r w)))"
proof -
  have "db_step s (fst (exec sv ps oc (\<lambda>s. Inr (delete_endpoints now u eid s, g s)) s))"
    for s ps oc now u eid and g :: "db \<Rightarrow> nat"
    by (intro exec_step) (auto simp: delete_endpoints_def intro: delete_endpoint.endpoints_step)
  then show ?thesis by (simp add: deleteEndpoint_def split_beta)
qed

lemma validateEndpoint_policy:
  assumes "validateEndpoint sv r v = Inr u"
  shows "1 \<le> ei_MaxAttempts v \<and> ei_MaxAttempts v \<le> 10 \<and> 1 \<le> ei_BaseDelay v \<and> ei_BaseDelay v \<le> 3600 \<and>
    1 \<le> ei_Rate v \<and> ei_Rate v \<le> 1000 \<and> validName (ei_Name v) \<and>
    ValidateURL (sv_url sv) (ei_URL v) (c_AllowPrivate (sv_Config sv)) = Inr ()"
  using assms by (auto simp: validateEndpoint_def split: if_splits sum.splits)

lemma write_endpoint_step:
  assumes "validateEndpoint sv r v = Inr u"
  shows "db_step s (write_endpoint eid v cipher active s)"
proof -
  have "endpoint_update (\<lambda>e. e\<lparr>ep_name := ei_Name v, ep_url := ei_URL v, ep_secret_cipher := cipher, ep_active := active,
      ep_max_attempts := ei_MaxAttempts v, ep_base_delay_seconds := ei_BaseDelay v, ep_rate_per_second := ei_Rate v\<rparr>)"
    using validateEndpoint_policy [OF assms] by unfold_locales (simp_all add: policy_check_def)
  from endpoint_update.endpoints_step [OF this] show ?thesis by (simp add: write_endpoint_def)
qed

lemma updateEndpoint_step:
  assumes "\<And>s. db_step s (meanwhile s)"
  shows "db_step (w_db w) (w_db (fst (updateEndpoint sv i meanwhile r w)))"
proof -
  have "db_step s (fst (exec sv ps oc (\<lambda>s. Inr (write_endpoint eid v cipher active s, ())) (meanwhile s)))"
    if "validateEndpoint sv r v = Inr u" for s ps oc eid v cipher active u
    by (rule db_step_trans [OF assms exec_step]) (use write_endpoint_step [OF that] in auto)
  with assms show ?thesis
    by (auto simp: updateEndpoint_def Let_def split_beta split: sum.split option.split)
qed

section \<open>Ingestion and replay\<close>

lemma insert_deliveries_fresh:
  "insert_deliveries rs s = Inr s' \<Longrightarrow> r \<in> set rs \<Longrightarrow> d_id r \<notin> d_id ` set (deliveries s)"
proof (induction rs arbitrary: s)
  case (Cons a rs)
  then obtain s1 where s1: "insert_delivery a s = Inr s1" "insert_deliveries rs s1 = Inr s'" by auto
  then have "d_id a \<notin> d_id ` set (deliveries s)" and "deliveries s1 = deliveries s @ [a]"
    by (auto simp: insert_delivery_def split: if_splits)
  with Cons.IH [OF s1(2)] Cons.prems(2) show ?case by auto
qed simp

lemma fresh_delivery_ok:
  assumes "db_wf s" and "fresh_delivery d" and "d_id d \<notin> d_id ` set (deliveries s)"
  shows "delivery_ok (delivery_attempts s) (dead_letters s) d"
proof -
  have sub: "a_delivery_id ` set (delivery_attempts s) \<subseteq> d_id ` set (deliveries s)"
    "dl_delivery_id ` set (dead_letters s) \<subseteq> d_id ` set (deliveries s)"
    using assms(1) by (simp_all add: db_wf_def wf_history_def)
  have "a_delivery_id a \<noteq> d_id d" if "a \<in> set (delivery_attempts s)" for a
    using sub(1) assms(3) imageI [OF that, of a_delivery_id] by (metis subsetD)
  then have "attempts_at (delivery_attempts s) (d_id d) g = {}" for g
    by (auto simp: attempts_at_def)
  moreover have "d_id d \<notin> dl_delivery_id ` set (dead_letters s)"
    using sub(2) assms(3) by (meson subsetD)
  ultimately show ?thesis
    using assms(2)
    by (auto simp: delivery_ok_def lease_ok_def budget_ok_def fresh_delivery_def open_status_def intro!: exI [of _ 0])
qed

lemma insert_deliveries_step:
  assumes ins: "insert_deliveries rs s = Inr s'" and new: "\<forall>r \<in> set rs. fresh_delivery r"
  shows "db_step s s'"
proof -
  have s': "s' = s\<lparr>deliveries := deliveries s @ rs\<rparr>" by (rule insert_deliveries_frame [OF ins])
  have "queue_inv s'" if "db_wf s" "queue_inv s"
    using that new fresh_delivery_ok [OF that(1)] insert_deliveries_fresh [OF ins]
    by (auto simp: s' queue_inv_def)
  moreover have "leases_kept s s'" using new by (auto simp: s' leases_kept_def fresh_delivery_def)
  moreover have "deleted_kept s s'" by (rule deleted_kept_subset) (simp add: s')
  moreover have "rows_kept s s'" using new by (auto simp: rows_kept_def s')
  ultimately show ?thesis using insert_deliveries_wf [OF _ ins] by (simp add: db_step_def s')
qed

lemma insert_event_step: "insert_event e s = Inr (s', b) \<Longrightarrow> db_step s s'"
proof (rule db_step_same)
  assume "insert_event e s = Inr (s', b)"
  then show "same_queue s s'" "deleted_kept s s'"
    by (auto simp: insert_event_def same_queue_def deleted_kept_subset split: if_splits)
qed (rule insert_event_wf)

lemma fan_out_fresh: "d \<in> set (fan_out pg eid prj now s) \<Longrightarrow> fresh_delivery d"
  by (auto simp: fan_out_def new_delivery_def fresh_delivery_def)

text \<open>What a transaction of \<open>ingest\<close> that reaches its commit has done.\<close>

lemma ingest_tx_Inr:
  assumes "ingest_tx sv i r eid prj v payload hash s = Inr (s', rsp)"
  obtains stored s1 where "pg_jsonb (sv_pg sv) payload = Some stored"
    "insert_event (event_of eid prj v stored hash (io_now i)) s = Inr (s1, True)"
    "insert_deliveries (fan_out (sv_pg sv) eid prj (io_now i) s1) s1 = Inr s'"
    "rsp = write_json 202 (accepted eid False)"
  using assms
  by (auto simp: ingest_tx_def stmt_def of_option_def split: if_splits sum.splits option.splits prod.splits)

lemma ingest_tx_step:
  assumes "ingest_tx sv i r eid prj v payload hash s = Inr (s', rsp)"
  shows "db_step s s'"
  using assms
proof (rule ingest_tx_Inr)
  fix stored s1
  assume "insert_event (event_of eid prj v stored hash (io_now i)) s = Inr (s1, True)"
    and "insert_deliveries (fan_out (sv_pg sv) eid prj (io_now i) s1) s1 = Inr s'"
  then show "db_step s s'"
    by (meson db_step_trans insert_event_step insert_deliveries_step fan_out_fresh)
qed

lemma ingest_event_step: "db_step (w_db w) (w_db (fst (ingest_event sv i prj v r w)))"
proof -
  have "db_step (w_db w) (fst (run_tx bg cm un (ingest_tx sv i r eid prj v payload hash) (w_db w)))"
    for bg cm un eid payload hash
    by (rule run_tx_step) (rule ingest_tx_step)
  then show ?thesis
    by (simp add: ingest_event_def split_beta split: sum.split option.split)
qed

lemma ingest_step: "db_step (w_db w) (w_db (fst (ingest sv i r w)))"
  using ingest_event_step [where w = "w\<lparr>w_limits := ls\<rparr>" for ls]
  by (auto simp: ingest_def Let_def split_beta split: sum.split)

interpretation replay_upd: delivery_update "replay_row now" for now
  by unfold_locales (simp_all add: row_defs)

text \<open>The rows a replay reads are rows of the table.\<close>

lemma joined_deliveriesD:
  assumes "x \<in> set (joined_deliveries s u)"
  shows "x_d x \<in> set (deliveries s) \<and> event_visible s u (x_ev x) \<and> x_ev x \<in> set (events s) \<and>
    ev_id (x_ev x) = d_event_id (x_d x) \<and> x_ep x \<in> set (endpoints s) \<and> ep_id (x_ep x) = d_endpoint_id (x_d x)"
proof -
  obtain d where d: "d \<in> set (deliveries s)" "join_delivery s d = Some x" "event_visible s u (x_ev x)"
    using assms by (auto simp: joined_deliveries_def map_filter_def)
  then have "x_d x = d" "lookup_by ev_id (events s) (d_event_id d) = Some (x_ev x)"
    "lookup_by ep_id (endpoints s) (d_endpoint_id d) = Some (x_ep x)"
    by (auto simp: join_delivery_def split: option.splits)
  with d show ?thesis by (auto dest: lookup_by_SomeD)
qed

lemma replay_tx_Inr:
  assumes "replay_tx sv i r s = Inr (s', rsp)"
  obtains x where "x \<in> set (joined_deliveries s (user r))" "d_id (x_d x) = r_ID r" "d_status (x_d x) = Dead"
    "endpoint_live (x_ep x)" "int4_range (d_generation (x_d x) + 1)"
    "s' = s\<lparr>deliveries := tbl_update (\<lambda>d. d_id d = r_ID r) (replay_row (io_now i)) (deliveries s),
       dead_letters := tbl_delete (\<lambda>l. dl_delivery_id l = r_ID r) (dead_letters s)\<rparr>"
    "rsp = write_json 202 (str_obj [(''id'', r_ID r), (''status'', ''pending'')])"
proof -
  obtain x where x: "find (\<lambda>x. d_id (x_d x) = r_ID r) (joined_deliveries s (user r)) = Some x"
    and live: "d_status (x_d x) = Dead" "endpoint_live (x_ep x)"
    and gen: "\<not> (\<exists>d \<in> set (deliveries s). d_id d = r_ID r \<and> \<not> int4_range (d_generation d + 1))"
    and s': "s' = s\<lparr>deliveries := tbl_update (\<lambda>d. d_id d = r_ID r) (replay_row (io_now i)) (deliveries s),
       dead_letters := tbl_delete (\<lambda>l. dl_delivery_id l = r_ID r) (dead_letters s)\<rparr>"
    and rsp: "rsp = write_json 202 (str_obj [(''id'', r_ID r), (''status'', ''pending'')])"
    using assms
    by (auto simp: replay_tx_def query_def of_option_def replay_update_def endpoint_live_def
        split: if_splits sum.splits option.splits)
  then have m: "x \<in> set (joined_deliveries s (user r))" "d_id (x_d x) = r_ID r"
    by (auto simp: find_Some_iff)
  with joined_deliveriesD [OF m(1)] gen have "int4_range (d_generation (x_d x) + 1)" by auto
  with that m live s' rsp show ?thesis by blast
qed

lemma replay_row_simps [simp]:
  "d_id (replay_row now d) = d_id d" "d_status (replay_row now d) = Pending" "d_attempt_count (replay_row now d) = 0"
  "d_generation (replay_row now d) = d_generation d + 1" "d_lease_token (replay_row now d) = None"
  "d_lease_until (replay_row now d) = None" "d_next_attempt_at (replay_row now d) = now"
  by (simp_all add: replay_row_def)

lemma delivery_ok_replay:
  assumes ok: "delivery_ok ats dls d"
  shows "delivery_ok ats (tbl_delete (\<lambda>l. dl_delivery_id l = d_id d) dls) (replay_row now d)"
  using assms by (auto simp: delivery_ok_def lease_ok_def budget_ok_def open_status_def)

lemma dead_letters_wf: "db_wf s \<Longrightarrow> db_wf (s\<lparr>dead_letters := tbl_delete P (dead_letters s)\<rparr>)"
  by (auto simp: db_wf_def wf_defs distinct_tbl_delete)

lemma replay_tx_step:
  assumes "replay_tx sv i r s = Inr (s', rsp)"
  shows "db_step s s'"
  using assms
proof (rule replay_tx_Inr)
  fix x
  let ?ds = "tbl_update (\<lambda>d. d_id d = r_ID r) (replay_row (io_now i)) (deliveries s)"
  assume x: "x \<in> set (joined_deliveries s (user r))" "d_id (x_d x) = r_ID r" "int4_range (d_generation (x_d x) + 1)"
    and dead: "d_status (x_d x) = Dead"
    and s': "s' = s\<lparr>deliveries := ?ds, dead_letters := tbl_delete (\<lambda>l. dl_delivery_id l = r_ID r) (dead_letters s)\<rparr>"
  have xd: "x_d x \<in> set (deliveries s)" using joined_deliveriesD [OF x(1)] by blast
  show "db_step s s'"
    unfolding db_step_def
  proof (intro conjI impI)
    assume inv: "db_wf s \<and> queue_inv s"
    have uniq: "d = x_d x" if "d \<in> set (deliveries s)" "d_id d = r_ID r" for d
      using inv that xd x(2) by (auto simp: db_wf_def wf_deliveries_def intro: key_unique)
    have "db_wf (s\<lparr>deliveries := ?ds\<rparr>)"
      by (rule replay_upd.update_wf) (use inv uniq x(3) in \<open>auto simp: int4_range_def\<close>)
    from dead_letters_wf [OF this] show "db_wf s'" by (simp add: s')
    have "delivery_ok (delivery_attempts s') (dead_letters s') d" if "d \<in> set ?ds" for d
      using that
    proof (cases rule: tbl_update_memE)
      case 1
      then show ?thesis using queue_invD [of s d] inv by (auto simp: s' delivery_ok_def)
    next
      case (2 d0)
      then show ?thesis
        using delivery_ok_replay [OF queue_invD [of s d0], of "io_now i"] inv by (simp add: s')
    qed
    then show "queue_inv s'" by (simp add: queue_inv_def s')
    have "d \<in> set ?ds \<or> d_status d = Dead \<and> replay_row (io_now i) d \<in> set ?ds" if "d \<in> set (deliveries s)" for d
      using that uniq [OF that] dead by (cases "d_id d = r_ID r") (auto simp: tbl_simps)
    moreover have "d_id ` set ?ds = d_id ` set (deliveries s)" by (rule replay_upd.pk.keys_update)
    ultimately show "rows_kept s s'" unfolding rows_kept_def s' by (auto simp del: image_iff)
  next
    show "leases_kept s s'" by (auto simp: leases_kept_def s' elim!: tbl_update_memE)
    show "deleted_kept s s'" by (rule deleted_kept_subset) (simp add: s')
    show "delivery_attempts s' = delivery_attempts s" by (simp add: s')
  qed
qed

lemma replay_step: "db_step (w_db w) (w_db (fst (replay sv i r w)))"
proof -
  have "db_step s (fst (run_tx bg cm un (replay_tx sv i r) s))" for bg cm un s
    by (rule run_tx_step) (rule replay_tx_step)
  then show ?thesis by (simp add: replay_def split_beta)
qed

lemma readers_db [simp]:
  "w_db (fst (list_projects sv i r w)) = w_db w" "w_db (fst (project sv i r w)) = w_db w"
  "w_db (fst (keys sv i r w)) = w_db w" "w_db (fst (list_endpoints sv i r w)) = w_db w"
  "w_db (fst (list_events sv i r w)) = w_db w" "w_db (fst (event sv i r w)) = w_db w"
  "w_db (fst (deliveryList sv i dead r w)) = w_db w" "w_db (fst (delivery sv i r w)) = w_db w"
  "w_db (fst (dashboard sv i r w)) = w_db w" "w_db (fst (me r w)) = w_db w" "w_db (fst (ready i r w)) = w_db w"
  by (simp_all add: list_projects_def project_def keys_def list_endpoints_def list_events_def event_def deliveryList_def
      delivery_def dashboard_def me_def ready_def Let_def split_beta split: option.split sum.split)

lemmas handler_steps = register_step login_step logout_step createProject_step createKey_step deleteKey_step
  createEndpoint_step deleteEndpoint_step ingest_step replay_step

end
