(* ===== verification/Api_Handler.thy ===== *)
theory Api_Handler
  imports Api_Props
begin

text \<open>
  \<open>Server.Handler\<close> of \<^verbatim>\<open>src/internal/api/server.go\<close>: the routing table, the wrapping of the authenticated routes
  in \<open>auth\<close>, and the whole of it in \<open>middleware\<close>. A path is the list of its segments (decoded; a dot segment written with an
  escape is not told apart); a \<^verbatim>\<open>GET\<close> pattern also serves \<^verbatim>\<open>HEAD\<close>; a wildcard takes one non-empty segment; \<^verbatim>\<open>/api/\<close> catches
  every other path below it. What \<^verbatim>\<open>net/http\<close> answers by itself is the parameter \<open>files\<close>: the redirects of \<^verbatim>\<open>ServeMux\<close> to the cleaned
  path and from \<^verbatim>\<open>/api\<close> to \<^verbatim>\<open>/api/\<close>, and the file server, which gets everything else.
\<close>

datatype route = Health | Ready | Register | Login | Logout | Me | Ingest
  | Projects | CreateProject | Project string | Endpoints string | CreateEndpoint string
  | UpdateEndpoint string | DeleteEndpoint string | Keys string | CreateKey string | DeleteKey string
  | Events | Event string | Deliveries | Delivery string | Replay string | DeadLetters | Dashboard
  | ApiNotFound | Moved | Static

definition below :: "string \<Rightarrow> string list \<Rightarrow> string option" where
  "below a p = (case p of [x, y, i] \<Rightarrow> if x = ''api'' \<and> y = a \<and> i \<noteq> [] then Some i else None | _ \<Rightarrow> None)"

definition below2 :: "string \<Rightarrow> string \<Rightarrow> string list \<Rightarrow> string option" where
  "below2 a b p =
     (case p of [x, y, i, z] \<Rightarrow> if x = ''api'' \<and> y = a \<and> i \<noteq> [] \<and> z = b then Some i else None | _ \<Rightarrow> None)"

definition catch_all :: "string list \<Rightarrow> route" where
  "catch_all p = (if length p \<ge> 2 \<and> hd p = ''api'' then ApiNotFound else Static)"

definition get_route :: "string list \<Rightarrow> route" where
  "get_route p =
     (if p = [''health''] then Health else if p = [''ready''] then Ready
      else if p = [''api'', ''auth'', ''me''] then Me
      else if p = [''api'', ''projects''] then Projects
      else if p = [''api'', ''events''] then Events
      else if p = [''api'', ''deliveries''] then Deliveries
      else if p = [''api'', ''dead-letters''] then DeadLetters
      else if p = [''api'', ''dashboard''] then Dashboard
      else case below ''projects'' p of Some i \<Rightarrow> Project i | None \<Rightarrow>
           (case below2 ''projects'' ''endpoints'' p of Some i \<Rightarrow> Endpoints i | None \<Rightarrow>
           (case below2 ''projects'' ''api-keys'' p of Some i \<Rightarrow> Keys i | None \<Rightarrow>
           (case below ''events'' p of Some i \<Rightarrow> Event i | None \<Rightarrow>
           (case below ''deliveries'' p of Some i \<Rightarrow> Delivery i | None \<Rightarrow> catch_all p)))))"

definition post_route :: "string list \<Rightarrow> route" where
  "post_route p =
     (if p = [''api'', ''auth'', ''register''] then Register
      else if p = [''api'', ''auth'', ''login''] then Login
      else if p = [''api'', ''auth'', ''logout''] then Logout
      else if p = [''v1'', ''events''] then Ingest
      else if p = [''api'', ''projects''] then CreateProject
      else case below2 ''projects'' ''endpoints'' p of Some i \<Rightarrow> CreateEndpoint i | None \<Rightarrow>
           (case below2 ''projects'' ''api-keys'' p of Some i \<Rightarrow> CreateKey i | None \<Rightarrow>
           (case below2 ''deliveries'' ''replay'' p of Some i \<Rightarrow> Replay i | None \<Rightarrow>
           (case below2 ''dead-letters'' ''replay'' p of Some i \<Rightarrow> Replay i | None \<Rightarrow> catch_all p))))"

definition clean_segment :: "string \<Rightarrow> bool" where
  "clean_segment x \<longleftrightarrow> x \<notin> {[], ''.'', ''..''}"

definition moved :: "string \<Rightarrow> string list \<Rightarrow> bool" where
  "moved m p \<longleftrightarrow> p = [''api''] \<or>
     (m \<noteq> ''CONNECT'' \<and> p \<noteq> [] \<and> \<not> (list_all clean_segment (butlast p) \<and> (last p = [] \<or> clean_segment (last p))))"

definition route_of :: "string \<Rightarrow> string list \<Rightarrow> route" where
  "route_of m p =
     (if moved m p then Moved
      else if m = ''GET'' \<or> m = ''HEAD'' then get_route p
      else if m = ''POST'' then post_route p
      else if m = ''PATCH'' then (case below ''endpoints'' p of Some i \<Rightarrow> UpdateEndpoint i | None \<Rightarrow> catch_all p)
      else if m = ''DELETE''
      then (case below ''endpoints'' p of Some i \<Rightarrow> DeleteEndpoint i | None \<Rightarrow>
           (case below ''api-keys'' p of Some i \<Rightarrow> DeleteKey i | None \<Rightarrow> catch_all p))
      else catch_all p)"

definition with_id :: "string \<Rightarrow> handler \<Rightarrow> handler" where
  "with_id i h r w = h (r\<lparr>r_ID := i\<rparr>) w"

definition serve :: "server \<Rightarrow> io \<Rightarrow> (db \<Rightarrow> db) \<Rightarrow> (request \<Rightarrow> response) \<Rightarrow> route \<Rightarrow> handler" where
  "serve sv i meanwhile files rt =
     (case rt of
        Health \<Rightarrow> (\<lambda>r w. (w, write_json 200 (str_obj [(''status'', ''ok'')])))
      | Ready \<Rightarrow> ready i
      | Register \<Rightarrow> register sv i
      | Login \<Rightarrow> login sv i
      | Logout \<Rightarrow> auth sv i (logout sv i)
      | Me \<Rightarrow> auth sv i me
      | Ingest \<Rightarrow> ingest sv i
      | Projects \<Rightarrow> auth sv i (list_projects sv i)
      | CreateProject \<Rightarrow> auth sv i (createProject sv i)
      | Project x \<Rightarrow> auth sv i (with_id x (project sv i))
      | Endpoints x \<Rightarrow> auth sv i (with_id x (list_endpoints sv i))
      | CreateEndpoint x \<Rightarrow> auth sv i (with_id x (createEndpoint sv i))
      | UpdateEndpoint x \<Rightarrow> auth sv i (with_id x (updateEndpoint sv i meanwhile))
      | DeleteEndpoint x \<Rightarrow> auth sv i (with_id x (deleteEndpoint sv i))
      | Keys x \<Rightarrow> auth sv i (with_id x (keys sv i))
      | CreateKey x \<Rightarrow> auth sv i (with_id x (createKey sv i))
      | DeleteKey x \<Rightarrow> auth sv i (with_id x (deleteKey sv i))
      | Events \<Rightarrow> auth sv i (list_events sv i)
      | Event x \<Rightarrow> auth sv i (with_id x (event sv i))
      | Deliveries \<Rightarrow> auth sv i (list_deliveries sv i)
      | Delivery x \<Rightarrow> auth sv i (with_id x (delivery sv i))
      | Replay x \<Rightarrow> auth sv i (with_id x (replay sv i))
      | DeadLetters \<Rightarrow> auth sv i (deadLetters sv i)
      | Dashboard \<Rightarrow> auth sv i (dashboard sv i)
      | ApiNotFound \<Rightarrow> (\<lambda>r w. (w, fail r 404 ''NOT_FOUND'' ''route not found''))
      | Moved \<Rightarrow> (\<lambda>r w. (w, files r))
      | Static \<Rightarrow> (\<lambda>r w. (w, files r)))"

definition Handler :: "server \<Rightarrow> io \<Rightarrow> (db \<Rightarrow> db) \<Rightarrow> (request \<Rightarrow> response) \<Rightarrow> handler" where
  "Handler sv i meanwhile files =
     middleware sv i (\<lambda>r w. serve sv i meanwhile files (route_of (r_Method r) (r_Path r)) r w)"

section \<open>Every request keeps the invariants\<close>

lemma auth_step:
  assumes "\<And>r w. db_step (w_db w) (w_db (fst (h r w)))"
  shows "db_step (w_db w) (w_db (fst (auth sv i h r w)))"
  using assms by (simp add: auth_def split: option.split sum.split)

lemma with_id_step:
  assumes "\<And>r w. db_step (w_db w) (w_db (fst (h r w)))"
  shows "db_step (w_db w) (w_db (fst (with_id x h r w)))"
  using assms by (simp add: with_id_def)

lemma serve_step:
  assumes "\<And>s. db_step s (meanwhile s)"
  shows "db_step (w_db w) (w_db (fst (serve sv i meanwhile files rt r w)))"
  by (cases rt)
    (auto simp: serve_def list_deliveries_def deadLetters_def with_id_def
      intro!: auth_step handler_steps updateEndpoint_step assms)

lemma middleware_step:
  assumes "\<And>r w. db_step (w_db w) (w_db (fst (h r w)))"
  shows "db_step (w_db w) (w_db (fst (middleware sv i h r w)))"
  using assms by (simp add: middleware_def Let_def split_beta)

lemma Handler_step:
  assumes "\<And>s. db_step s (meanwhile s)"
  shows "db_step (w_db w) (w_db (fst (Handler sv i meanwhile files r w)))"
  unfolding Handler_def by (rule middleware_step) (rule serve_step [OF assms])

end
