(* ===== verification/Api_Claims.thy ===== *)
theory Api_Claims
  imports Api_Handler
begin

text \<open>
  The API's functional properties with a concrete server for their closed instances: ingestion is atomic and
  idempotent and fans out exactly to the live endpoints; replay needs a dead delivery of a live endpoint and
  keeps the history; sessions authenticate until they expire or are closed; foreign rows are out of reach.
\<close>

section \<open>A concrete server\<close>

definition sample_server :: server where
  "sample_server = \<lparr>sv_Config = sample_config, sv_pg = sample_pg, sv_cr = sample_crypto,
     sv_url = (\<lambda>u. Some \<lparr>url_Scheme = ''https'', url_has_User = False, url_Host = u, url_Hostname = u, url_Fragment = []\<rparr>),
     sv_mail = Some, sv_rfc3339 = (\<lambda>_. None), sv_lower = (\<lambda>s. s), sv_time_json = FormatInt\<rparr>"

definition sample_io :: io where
  "sample_io = \<lparr>io_now = 50, io_clock = 50, io_redis_now = 0, io_rand = (\<lambda>k. replicate k CHR ''r''), io_db = all_done, io_redis = all_done\<rparr>"

definition sample_world :: world where
  "sample_world = \<lparr>w_db = sample_db, w_limits = (\<lambda>_. None), w_cache = (\<lambda>_. None)\<rparr>"

definition sample_request :: request where
  "sample_request = \<lparr>r_Method = ''POST'', r_Path = [''v1'', ''events''], r_Host = ''api.test'', r_RemoteAddr = ''1.2.3.4:5'',
     r_Header = (\<lambda>_. []), r_Cookie = (\<lambda>_. None), r_Query = (\<lambda>_. []), r_ID = [], r_Body = ''{}'', r_BodyErr = False,
     r_request = [], r_user = ''usr_1''\<rparr>"

text \<open>
  C13: no request, on any route, with any body and under every pattern of failing calls, breaks a constraint of
  the schema or the queue's invariant, and none touches a delivery that a worker holds a lease on: the leased rows
  before and after it are the same. No delivery is lost: every row stays as it is, except that a dead one without a
  lease may be pending again, with no attempts, in the next generation. A new row is pending and without attempts or
  lease. No deleted endpoint is brought back and the recorded attempts are not rewritten.
\<close>

theorem Handler_keeps_invariants:
  assumes "db_wf (w_db w)" and "queue_inv (w_db w)" and "\<And>s. db_step s (meanwhile s)"
  shows "let s = w_db w; s' = w_db (fst (Handler sv i meanwhile files r w)) in
    db_wf s' \<and> queue_inv s' \<and>
    {d \<in> set (deliveries s'). d_lease_token d \<noteq> None} = {d \<in> set (deliveries s). d_lease_token d \<noteq> None} \<and>
    (\<forall>d \<in> set (deliveries s). d \<in> set (deliveries s') \<or>
       d_status d = Dead \<and> d_lease_token d = None \<and>
       (\<exists>d' \<in> set (deliveries s'). d_id d' = d_id d \<and> d_event_id d' = d_event_id d \<and> d_endpoint_id d' = d_endpoint_id d \<and>
          d_status d' = Pending \<and> d_attempt_count d' = 0 \<and> d_generation d' = d_generation d + 1 \<and>
          d_lease_token d' = None \<and> d_lease_until d' = None)) \<and>
    (\<forall>d' \<in> set (deliveries s'). d_id d' \<in> d_id ` set (deliveries s) \<or>
       d_status d' = Pending \<and> d_attempt_count d' = 0 \<and> d_generation d' = 0 \<and> d_lease_token d' = None \<and>
       d_lease_until d' = None) \<and>
    (\<forall>e \<in> set (endpoints s). ep_deleted_at e \<noteq> None \<longrightarrow>
       (\<exists>e' \<in> set (endpoints s'). ep_id e' = ep_id e \<and> ep_deleted_at e' \<noteq> None \<and> \<not> endpoint_live e')) \<and>
    delivery_attempts s' = delivery_attempts s"
proof -
  define s s' where "s = w_db w" and "s' = w_db (fst (Handler sv i meanwhile files r w))"
  have step: "db_step s s'" unfolding s_def s'_def by (rule Handler_step [OF assms(3)])
  then have inv: "db_wf s'" "queue_inv s'" and kept: "rows_kept s s'" "leases_kept s s'"
    using assms(1,2) by (simp_all add: db_step_def s_def)
  have leased: "d \<in> set (deliveries s')" if "d \<in> set (deliveries s)" "d_lease_token d \<noteq> None" for d
    by (rule rows_kept_leased [OF _ kept(1) that]) (simp add: s_def assms(2))
  then have "{d \<in> set (deliveries s'). d_lease_token d \<noteq> None} = {d \<in> set (deliveries s). d_lease_token d \<noteq> None}"
    using kept(2) by (auto simp: leases_kept_def)
  moreover have "d \<in> set (deliveries s') \<or> d_status d = Dead \<and> d_lease_token d = None \<and>
      (\<exists>d' \<in> set (deliveries s'). d_id d' = d_id d \<and> d_event_id d' = d_event_id d \<and> d_endpoint_id d' = d_endpoint_id d \<and>
        d_status d' = Pending \<and> d_attempt_count d' = 0 \<and> d_generation d' = d_generation d + 1 \<and>
        d_lease_token d' = None \<and> d_lease_until d' = None)" if d: "d \<in> set (deliveries s)" for d
  proof (cases "d \<in> set (deliveries s')")
    case False
    with kept(1) d obtain now where "d_status d = Dead" "replay_row now d \<in> set (deliveries s')"
      unfolding rows_kept_def by blast
    moreover have "d_lease_token d = None" using leased [OF d] False by blast
    ultimately show ?thesis by (intro disjI2 conjI bexI [of _ "replay_row now d"]) (simp_all add: replay_row_def)
  qed simp
  moreover have "\<forall>d' \<in> set (deliveries s'). d_id d' \<in> d_id ` set (deliveries s) \<or> fresh_delivery d'"
    using kept(1) by (simp add: rows_kept_def)
  moreover have "deleted_kept s s'" "delivery_attempts s' = delivery_attempts s"
    using step by (simp_all add: db_step_def)
  ultimately show ?thesis
    using inv unfolding Let_def s_def [symmetric] s'_def [symmetric] fresh_delivery_def deleted_kept_def endpoint_live_def
    by meson
qed

theorem Handler_keeps_invariants_witness:
  "queue_inv (w_db (fst (Handler sample_server sample_io (\<lambda>s. s) (\<lambda>_. write_header 404) sample_request sample_world)))"
  using Handler_keeps_invariants [of sample_world "\<lambda>s. s" sample_server sample_io "\<lambda>_. write_header 404" sample_request]
  by (simp add: sample_world_def sample_db_wf sample_db_inv Let_def)

section \<open>Ingestion\<close>

definition existing_event :: "db \<Rightarrow> string \<Rightarrow> string \<Rightarrow> event_row option" where
  "existing_event s prj eid = find (\<lambda>e. ev_project_id e = prj \<and> ev_event_id e = eid) (events s)"

text \<open>
  What accepting an event is to store, column by column: the event, and for each active endpoint of the project that is
  not deleted one delivery, pending, due now, in its first generation, with no attempt made and no lease.
\<close>

definition store_event :: "server \<Rightarrow> io \<Rightarrow> string \<Rightarrow> input \<Rightarrow> bytes \<Rightarrow> string \<Rightarrow> db \<Rightarrow> db" where
  "store_event sv i prj v stored hash s =
     (let eid = new_token i 1 ''evt_'' in
      s\<lparr>events := events s @
          [\<lparr>ev_id = eid, ev_project_id = prj, ev_event_id = i_EventID v, ev_type = i_Type v, ev_payload = stored,
            ev_payload_hash = hash, ev_created_at = io_now i\<rparr>],
        deliveries := deliveries s @
          map (\<lambda>e. \<lparr>d_id = ''dlv_'' @ pg_md5 (sv_pg sv) (eid @ '':'' @ ep_id e), d_event_id = eid, d_endpoint_id = ep_id e,
                d_status = Pending, d_attempt_count = 0, d_generation = 0, d_next_attempt_at = io_now i,
                d_lease_until = None, d_lease_token = None, d_created_at = io_now i, d_updated_at = io_now i\<rparr>)
            (filter (\<lambda>e. ep_project_id e = prj \<and> ep_active e \<and> ep_deleted_at e = None) (endpoints s))\<rparr>)"

text \<open>The statements of \<open>ingest\<close> store this.\<close>

lemma store_event_rows:
  "store_event sv i prj v stored hash s =
     s\<lparr>events := events s @ [event_of (new_token i 1 ''evt_'') prj v stored hash (io_now i)],
       deliveries := deliveries s @ fan_out (sv_pg sv) (new_token i 1 ''evt_'') prj (io_now i) s\<rparr>"
proof -
  have "fan_out_target prj = (\<lambda>e. ep_project_id e = prj \<and> ep_active e \<and> ep_deleted_at e = None)"
    by (simp add: fan_out_target_def fun_eq_iff)
  moreover have "new_delivery (sv_pg sv) eid now = (\<lambda>e. \<lparr>d_id = ''dlv_'' @ pg_md5 (sv_pg sv) (eid @ '':'' @ ep_id e),
      d_event_id = eid, d_endpoint_id = ep_id e, d_status = Pending, d_attempt_count = 0, d_generation = 0,
      d_next_attempt_at = now, d_lease_until = None, d_lease_token = None, d_created_at = now, d_updated_at = now\<rparr>)" for eid now
    by (simp add: new_delivery_def fun_eq_iff)
  ultimately show ?thesis by (simp only: store_event_def event_of_def fan_out_def Let_def)
qed

lemma insert_event_True:
  "insert_event e s = Inr (s1, True) \<Longrightarrow>
     s1 = s\<lparr>events := events s @ [e]\<rparr> \<and> existing_event s (ev_project_id e) (ev_event_id e) = None"
  by (auto simp: insert_event_def existing_event_def find_None_iff split: if_splits)

lemma fan_out_events [simp]: "fan_out pg eid prj now (s\<lparr>events := es\<rparr>) = fan_out pg eid prj now s"
  by (simp add: fan_out_def)

lemma ingest_tx_stored:
  assumes "ingest_tx sv i r (new_token i 1 ''evt_'') prj v payload hash s = Inr (s', rsp)"
  obtains stored where "pg_jsonb (sv_pg sv) payload = Some stored" "existing_event s prj (i_EventID v) = None"
    "s' = store_event sv i prj v stored hash s" "rsp = write_json 202 (accepted (new_token i 1 ''evt_'') False)"
  using assms
proof (rule ingest_tx_Inr)
  fix stored s1
  assume "insert_event (event_of (new_token i 1 ''evt_'') prj v stored hash (io_now i)) s = Inr (s1, True)"
    and "insert_deliveries (fan_out (sv_pg sv) (new_token i 1 ''evt_'') prj (io_now i) s1) s1 = Inr s'"
    and "pg_jsonb (sv_pg sv) payload = Some stored" "rsp = write_json 202 (accepted (new_token i 1 ''evt_'') False)"
  then show thesis
    using insert_event_True insert_deliveries_frame by (intro that [of stored]) (force simp: store_event_rows event_of_def)+
qed

lemma fail_status [simp]: "rsp_status (fail r n c m) = n" "rsp_status (write_json n b) = n" "rsp_status (write_header n) = n"
  by (simp_all add: fail_def write_json_def write_header_def)

lemma dbError_status: "rsp_status (dbError r e) \<in> {404, 500}"
  by (simp add: dbError_def)

lemma ingest_tx_Inl_status: "ingest_tx sv i r eid prj v payload hash s = Inl rsp \<Longrightarrow> rsp_status rsp \<noteq> 202"
  by (auto simp: ingest_tx_def dbError_def split: sum.splits if_splits prod.splits)

lemma ingest_event_atomic:
  "(w_db (fst (ingest_event sv i prj v r w)) = w_db w \<and> rsp_status (snd (ingest_event sv i prj v r w)) \<noteq> 202) \<or>
    (\<exists>payload hash stored. Validate v = Inr () \<and> Canonical (sv_cr sv) v = Some (payload, hash) \<and>
       pg_jsonb (sv_pg sv) payload = Some stored \<and> existing_event (w_db w) prj (i_EventID v) = None \<and>
       w_db (fst (ingest_event sv i prj v r w)) = store_event sv i prj v stored hash (w_db w))"
proof (cases "Validate v")
  case (Inr u)
  show ?thesis
  proof (cases "Canonical (sv_cr sv) v")
    case (Some c)
    obtain payload hash where c: "c = (payload, hash)" by fastforce
    let ?body = "ingest_tx sv i r (new_token i 1 ''evt_'') prj v payload hash"
    show ?thesis
    proof (cases "?body (w_db w)")
      case (Inl rsp)
      then show ?thesis
        using Inr Some c ingest_tx_Inl_status [OF Inl] dbError_status [of r Unavailable]
        by (auto simp: ingest_event_def run_tx_def collapse_def)
    next
      case (Inr p)
      obtain s' rsp where p: "?body (w_db w) = Inr (s', rsp)" using Inr by (cases p) auto
      then obtain stored where st: "pg_jsonb (sv_pg sv) payload = Some stored"
        "existing_event (w_db w) prj (i_EventID v) = None" "s' = store_event sv i prj v stored hash (w_db w)"
        by (rule ingest_tx_stored)
      then show ?thesis
        using \<open>Validate v = Inr u\<close> Some c p dbError_status [of r Unavailable]
        by (auto simp: ingest_event_def run_tx_def apply_out_def collapse_def)
    qed
  qed (simp add: ingest_event_def Inr)
qed (simp add: ingest_event_def)

text \<open>
  C14: ingestion is atomic. Whatever calls fail and however, either the database is unchanged or what was added is
  exactly the new event, which was not there before, and one delivery for each active endpoint of the
  project that is not deleted: pending, due now, with no attempt and no lease. Every other row and table is as
  it was. A 202 is answered only when that is what was stored.
\<close>

theorem ingest_atomic:
  "(w_db (fst (ingest_event sv i prj v r w)) = w_db w \<and> rsp_status (snd (ingest_event sv i prj v r w)) \<noteq> 202) \<or>
    (\<exists>payload hash stored. Validate v = Inr () \<and> Canonical (sv_cr sv) v = Some (payload, hash) \<and>
       pg_jsonb (sv_pg sv) payload = Some stored \<and> existing_event (w_db w) prj (i_EventID v) = None \<and>
       w_db (fst (ingest_event sv i prj v r w)) =
         (let eid = new_token i 1 ''evt_''; s = w_db w in
          s\<lparr>events := events s @
              [\<lparr>ev_id = eid, ev_project_id = prj, ev_event_id = i_EventID v, ev_type = i_Type v, ev_payload = stored,
                ev_payload_hash = hash, ev_created_at = io_now i\<rparr>],
            deliveries := deliveries s @
              map (\<lambda>e. \<lparr>d_id = ''dlv_'' @ pg_md5 (sv_pg sv) (eid @ '':'' @ ep_id e), d_event_id = eid,
                    d_endpoint_id = ep_id e, d_status = Pending, d_attempt_count = 0, d_generation = 0,
                    d_next_attempt_at = io_now i, d_lease_until = None, d_lease_token = None,
                    d_created_at = io_now i, d_updated_at = io_now i\<rparr>)
                (filter (\<lambda>e. ep_project_id e = prj \<and> ep_active e \<and> ep_deleted_at e = None) (endpoints s))\<rparr>))"
  using ingest_event_atomic [of sv i prj v r w] by (simp only: store_event_def Let_def)

lemma insert_deliveries_ok:
  assumes "\<forall>r \<in> set rs. int4_range (d_attempt_count r) \<and> int4_range (d_generation r) \<and>
      d_event_id r \<in> ev_id ` set (events s) \<and> d_endpoint_id r \<in> ep_id ` set (endpoints s)"
    and "distinct (map d_id (deliveries s @ rs))"
    and "distinct (map (\<lambda>d. (d_event_id d, d_endpoint_id d)) (deliveries s @ rs))"
  shows "insert_deliveries rs s = Inr (s\<lparr>deliveries := deliveries s @ rs\<rparr>)"
  using assms
proof (induction rs arbitrary: s)
  case (Cons r rs)
  have "insert_delivery r s = Inr (s\<lparr>deliveries := deliveries s @ [r]\<rparr>)"
    using Cons.prems by (auto simp: insert_delivery_def image_iff)
  with Cons.IH [of "s\<lparr>deliveries := deliveries s @ [r]\<rparr>"] Cons.prems show ?case by simp
qed simp

definition fresh_ids :: "server \<Rightarrow> io \<Rightarrow> string \<Rightarrow> db \<Rightarrow> bool" where
  "fresh_ids sv i prj s \<longleftrightarrow> new_token i 1 ''evt_'' \<notin> ev_id ` set (events s) \<and>
     distinct (map d_id (deliveries s @ fan_out (sv_pg sv) (new_token i 1 ''evt_'') prj (io_now i) s))"

lemma fan_out_row:
  "d \<in> set (fan_out pg eid prj now s) \<longleftrightarrow>
     (\<exists>e \<in> set (endpoints s). ep_project_id e = prj \<and> endpoint_live e \<and> d = new_delivery pg eid now e)"
  by (auto simp: fan_out_def fan_out_target_def endpoint_live_def)

lemma fan_out_inserts:
  assumes wf: "db_wf s" and fresh: "fresh_ids sv i prj s"
    and s1: "s1 = s\<lparr>events := events s @ [event_of (new_token i 1 ''evt_'') prj v stored hash (io_now i)]\<rparr>"
  shows "insert_deliveries (fan_out (sv_pg sv) (new_token i 1 ''evt_'') prj (io_now i) s1) s1 =
    Inr (store_event sv i prj v stored hash s)"
proof -
  let ?eid = "new_token i 1 ''evt_''"
  let ?rs = "fan_out (sv_pg sv) ?eid prj (io_now i) s"
  have rows: "\<forall>r \<in> set ?rs. int4_range (d_attempt_count r) \<and> int4_range (d_generation r) \<and>
      d_event_id r = ?eid \<and> d_endpoint_id r \<in> ep_id ` set (endpoints s)"
    by (auto simp: fan_out_row new_delivery_def int4_range_def)
  have old: "\<forall>d \<in> set (deliveries s). d_event_id d \<noteq> ?eid"
    using wf fresh unfolding db_wf_def wf_deliveries_def fresh_ids_def by (metis image_eqI subsetD)
  have "map d_endpoint_id ?rs = map ep_id (filter (fan_out_target prj) (endpoints s))"
    by (simp add: fan_out_def new_delivery_def)
  moreover have "distinct (map ep_id (endpoints s))" using wf by (simp add: db_wf_def wf_endpoints_def)
  ultimately have "distinct (map d_endpoint_id ?rs)" by (simp add: distinct_map_filter)
  then have "distinct (map (\<lambda>d. (d_event_id d, d_endpoint_id d)) ?rs)"
    by (auto simp: distinct_map inj_on_def)
  moreover have "distinct (map (\<lambda>d. (d_event_id d, d_endpoint_id d)) (deliveries s))"
    using wf by (simp add: db_wf_def wf_deliveries_def)
  ultimately have "distinct (map (\<lambda>d. (d_event_id d, d_endpoint_id d)) (deliveries s @ ?rs))"
    using old rows by (auto simp: distinct_append)
  with rows fresh have "insert_deliveries ?rs s1 = Inr (s1\<lparr>deliveries := deliveries s1 @ ?rs\<rparr>)"
    by (intro insert_deliveries_ok) (auto simp: s1 fresh_ids_def event_of_def)
  then show ?thesis by (simp add: s1 store_event_rows)
qed

lemma ingest_tx_new:
  assumes "db_wf s" and "fresh_ids sv i prj s" and "prj \<in> p_id ` set (projects s)"
    and "existing_event s prj (i_EventID v) = None" and "io_db i = all_done" and "pg_jsonb (sv_pg sv) payload = Some stored"
  shows "ingest_tx sv i r (new_token i 1 ''evt_'') prj v payload hash s =
    Inr (store_event sv i prj v stored hash s, write_json 202 (accepted (new_token i 1 ''evt_'') False))"
proof -
  let ?e = "event_of (new_token i 1 ''evt_'') prj v stored hash (io_now i)"
  have "insert_event ?e s = Inr (s\<lparr>events := events s @ [?e]\<rparr>, True)"
    using assms by (auto simp: insert_event_def event_of_def fresh_ids_def existing_event_def find_None_iff)
  with assms fan_out_inserts [OF assms(1,2) refl, of v stored hash] show ?thesis
    by (simp add: ingest_tx_def)
qed

lemma ingest_tx_old:
  assumes "existing_event s prj (i_EventID v) = Some old" and "io_db i = all_done" and "pg_jsonb (sv_pg sv) payload = Some stored"
  shows "ingest_tx sv i r eid prj v payload hash s =
    Inl (if ev_payload_hash old = hash then write_json 200 (accepted (ev_id old) True)
         else fail r 409 ''IDEMPOTENCY_CONFLICT'' ''event_id already exists with different content'')"
proof -
  have "\<exists>e \<in> set (events s). ev_project_id e = prj \<and> ev_event_id e = i_EventID v"
    using assms(1) by (auto simp: existing_event_def find_Some_iff)
  then have "insert_event (event_of eid prj v stored hash (io_now i)) s = Inr (s, False)"
    by (simp add: insert_event_def event_of_def)
  with assms show ?thesis
    by (simp add: ingest_tx_def existing_event_def of_option_def)
qed

lemma ingest_event_answers:
  assumes "db_wf (w_db w)" and "fresh_ids sv i prj (w_db w)" and "prj \<in> p_id ` set (projects (w_db w))"
    and "Validate v = Inr ()" and "Canonical (sv_cr sv) v = Some (payload, hash)"
    and "io_db i = all_done" and "pg_jsonb (sv_pg sv) payload = Some stored"
  shows "ingest_event sv i prj v r w =
    (case existing_event (w_db w) prj (i_EventID v) of
       None \<Rightarrow> (w\<lparr>w_db := store_event sv i prj v stored hash (w_db w)\<rparr>,
                write_json 202 (accepted (new_token i 1 ''evt_'') False))
     | Some old \<Rightarrow> (w, if ev_payload_hash old = hash then write_json 200 (accepted (ev_id old) True)
                   else fail r 409 ''IDEMPOTENCY_CONFLICT'' ''event_id already exists with different content''))"
proof (cases "existing_event (w_db w) prj (i_EventID v)")
  case None
  from ingest_tx_new [OF assms(1-3) None assms(6,7), of r hash] None show ?thesis
    using assms(4-6) by (simp add: ingest_event_def run_tx_def collapse_def)
next
  case (Some old)
  with assms(4-7) show ?thesis
    by (simp add: ingest_event_def run_tx_def collapse_def ingest_tx_old)
qed

text \<open>
  C15: when the database answers, a valid event of an existing project is answered by its identity alone. A new
  \<^verbatim>\<open>event_id\<close> is stored with one pending delivery per live endpoint and answered 202; a known one is answered 200
  with the original identifier when the canonical hash agrees and 409 when it does not, and the database is
  then unchanged.
\<close>

theorem ingest_outcomes:
  assumes "db_wf (w_db w)" and "fresh_ids sv i prj (w_db w)" and "prj \<in> p_id ` set (projects (w_db w))"
    and "Validate v = Inr ()" and "Canonical (sv_cr sv) v = Some (payload, hash)"
    and "io_db i = all_done" and "pg_jsonb (sv_pg sv) payload = Some stored"
  shows "ingest_event sv i prj v r w =
    (case existing_event (w_db w) prj (i_EventID v) of
       None \<Rightarrow> (w\<lparr>w_db := store_event sv i prj v stored hash (w_db w)\<rparr>,
                write_json 202 (accepted (new_token i 1 ''evt_'') False))
     | Some old \<Rightarrow> (w, if ev_payload_hash old = hash then write_json 200 (accepted (ev_id old) True)
                   else fail r 409 ''IDEMPOTENCY_CONFLICT'' ''event_id already exists with different content''))"
  by (rule ingest_event_answers [OF assms])

definition sample_input :: input where
  "sample_input = \<lparr>i_EventID = ''evt-9'', i_Type = ''order.paid'', i_Data = ''{}''\<rparr>"

lemma sample_input_valid: "Validate sample_input = Inr ()"
  by code_simp

lemma sample_fresh: "fresh_ids sample_server sample_io ''prj_1'' sample_db" "''prj_1'' \<in> p_id ` set (projects sample_db)"
  by code_simp+

theorem ingest_outcomes_witness:
  "rsp_status (snd (ingest_event sample_server sample_io ''prj_1'' sample_input sample_request sample_world)) = 202"
proof -
  obtain payload hash where c: "Canonical (sv_cr sample_server) sample_input = Some (payload, hash)"
    using Validate_Canonical [OF sample_input_valid] by blast
  have "existing_event sample_db ''prj_1'' (i_EventID sample_input) = None" by code_simp
  with ingest_outcomes [of sample_world sample_server sample_io "''prj_1''" sample_input payload hash payload sample_request]
  show ?thesis
    using sample_db_wf sample_fresh sample_input_valid c
    by (simp add: sample_world_def sample_server_def sample_io_def sample_pg_def)
qed

section \<open>Replay\<close>

text \<open>What a replay is to do, column by column.\<close>

definition replayed :: "time \<Rightarrow> string \<Rightarrow> db \<Rightarrow> db" where
  "replayed now did s =
     s\<lparr>deliveries := map (\<lambda>d. if d_id d \<noteq> did then d
          else d\<lparr>d_status := Pending, d_attempt_count := 0, d_generation := d_generation d + 1, d_next_attempt_at := now,
                 d_lease_until := None, d_lease_token := None, d_updated_at := now\<rparr>) (deliveries s),
       dead_letters := filter (\<lambda>l. dl_delivery_id l \<noteq> did) (dead_letters s)\<rparr>"

lemma replayed_rows:
  "replayed now did s =
     s\<lparr>deliveries := tbl_update (\<lambda>d. d_id d = did) (replay_row now) (deliveries s),
       dead_letters := tbl_delete (\<lambda>l. dl_delivery_id l = did) (dead_letters s)\<rparr>"
proof -
  have "map (\<lambda>d. if d_id d \<noteq> did then d
      else d\<lparr>d_status := Pending, d_attempt_count := 0, d_generation := d_generation d + 1, d_next_attempt_at := now,
             d_lease_until := None, d_lease_token := None, d_updated_at := now\<rparr>) (deliveries s) =
    tbl_update (\<lambda>d. d_id d = did) (replay_row now) (deliveries s)"
    by (simp add: tbl_update_def replay_row_def)
  then show ?thesis by (simp only: replayed_def tbl_delete_def)
qed

text \<open>
  What may be replayed, over the tables: a dead delivery of an event in a project of the user, whose endpoint is active
  and not deleted (and whose generation has a successor in \<^verbatim>\<open>integer\<close>).
\<close>

definition replayable :: "db \<Rightarrow> string \<Rightarrow> string \<Rightarrow> bool" where
  "replayable s u did \<longleftrightarrow>
     (\<exists>d \<in> set (deliveries s). d_id d = did \<and> d_status d = Dead \<and> int4_range (d_generation d + 1) \<and>
        (\<exists>e \<in> set (events s). ev_id e = d_event_id d \<and>
           (\<exists>p \<in> set (projects s). p_id p = ev_project_id e \<and> p_owner_id p = u)) \<and>
        (\<exists>ep \<in> set (endpoints s). ep_id ep = d_endpoint_id d \<and> ep_active ep \<and> ep_deleted_at ep = None))"

lemma replayable_joined:
  assumes wf: "db_wf s"
  shows "replayable s u did \<longleftrightarrow>
     (\<exists>x \<in> set (joined_deliveries s u). d_id (x_d x) = did \<and> d_status (x_d x) = Dead \<and> endpoint_live (x_ep x) \<and>
        int4_range (d_generation (x_d x) + 1))" (is "_ \<longleftrightarrow> ?joined")
proof
  assume "replayable s u did"
  then obtain d e ep where d: "d \<in> set (deliveries s)" "d_id d = did" "d_status d = Dead" "int4_range (d_generation d + 1)"
    and e: "e \<in> set (events s)" "ev_id e = d_event_id d" "owns_project s u (ev_project_id e)"
    and ep: "ep \<in> set (endpoints s)" "ep_id ep = d_endpoint_id d" "endpoint_live ep"
    unfolding replayable_def owns_project_def endpoint_live_def by blast
  have "lookup_by ev_id (events s) (d_event_id d) = Some e" "lookup_by ep_id (endpoints s) (d_endpoint_id d) = Some ep"
    using wf e ep by (auto simp: db_wf_def wf_events_def wf_endpoints_def lookup_by_iff)
  then obtain x where x: "join_delivery s d = Some x" "x_d x = d" "x_ev x = e" "x_ep x = ep"
    by (simp add: join_delivery_def)
  then have "x \<in> set (joined_deliveries s u)"
    using d(1) e(3) by (force simp: joined_deliveries_def map_filter_def event_visible_def)
  with x d ep(3) show ?joined by blast
next
  assume ?joined
  then obtain x where x: "x \<in> set (joined_deliveries s u)" "d_id (x_d x) = did" "d_status (x_d x) = Dead"
    "endpoint_live (x_ep x)" "int4_range (d_generation (x_d x) + 1)" by blast
  from joined_deliveriesD [OF x(1)] have "x_d x \<in> set (deliveries s)" "x_ev x \<in> set (events s)" "x_ep x \<in> set (endpoints s)"
    "ev_id (x_ev x) = d_event_id (x_d x)" "ep_id (x_ep x) = d_endpoint_id (x_d x)" "owns_project s u (ev_project_id (x_ev x))"
    by (simp_all add: event_visible_def)
  with x(2-5) show "replayable s u did"
    unfolding replayable_def owns_project_def endpoint_live_def by blast
qed

lemma replay_tx_Inl_status: "replay_tx sv i r s = Inl rsp \<Longrightarrow> rsp_status rsp \<noteq> 202"
  by (auto simp: replay_tx_def dbError_def split: sum.splits if_splits)

lemma joined_by_id:
  assumes "db_wf s" and "x \<in> set (joined_deliveries s u)" and "y \<in> set (joined_deliveries s u)"
    and "d_id (x_d x) = d_id (x_d y)"
  shows "x = y"
proof -
  obtain d e where j: "d \<in> set (deliveries s)" "join_delivery s d = Some x" "e \<in> set (deliveries s)" "join_delivery s e = Some y"
    using assms(2,3) by (auto simp: joined_deliveries_def map_filter_def)
  moreover have "x_d x = d" "x_d y = e" using j by (auto simp: join_delivery_def split: option.splits)
  ultimately have "d = e"
    using assms(1,4) by (auto simp: db_wf_def wf_deliveries_def intro: key_unique)
  with j show ?thesis by simp
qed

lemma replay_tx_ok:
  assumes wf: "db_wf s" and "replayable s (user r) (r_ID r)" and "io_db i = all_done"
    and "list_all (pg_text (sv_pg sv)) [r_ID r, user r]"
  shows "replay_tx sv i r s =
    Inr (replayed (io_now i) (r_ID r) s, write_json 202 (str_obj [(''id'', r_ID r), (''status'', ''pending'')]))"
proof -
  obtain x where x: "x \<in> set (joined_deliveries s (user r))" "d_id (x_d x) = r_ID r" "d_status (x_d x) = Dead"
    "endpoint_live (x_ep x)" "int4_range (d_generation (x_d x) + 1)"
    using assms(2) by (auto simp: replayable_joined [OF wf])
  obtain y where y: "find (\<lambda>x. d_id (x_d x) = r_ID r) (joined_deliveries s (user r)) = Some y"
    using x by (cases "find (\<lambda>x. d_id (x_d x) = r_ID r) (joined_deliveries s (user r))") (auto simp: find_None_iff)
  then have "y \<in> set (joined_deliveries s (user r))" "d_id (x_d y) = r_ID r" by (auto simp: find_Some_iff)
  then have "y = x" using joined_by_id [OF wf] x by metis
  moreover have "d = x_d x" if "d \<in> set (deliveries s)" "d_id d = r_ID r" for d
    using that joined_deliveriesD [OF x(1)] x(2) wf by (auto simp: db_wf_def wf_deliveries_def intro: key_unique)
  ultimately show ?thesis
    using assms(3,4) x y
    by (auto simp: replay_tx_def query_def of_option_def replay_update_def replayed_rows endpoint_live_def)
qed

text \<open>
  C19: replay acts only on a dead delivery of the signed-in user whose endpoint is live, and then does exactly
  this: the delivery is pending again, due now, with no attempts and no lease, its generation one higher, its dead letter
  is gone, and every other row of every table, the recorded attempts with them, stays. It answers 202 when the database
  answers; in every other case the answer is not 202, and without a commit nothing has changed.
\<close>

theorem replay_correct:
  assumes "db_wf (w_db w)"
  shows "(w_db (fst (replay sv i r w)) \<noteq> w_db w \<or> rsp_status (snd (replay sv i r w)) = 202 \<longrightarrow>
      replayable (w_db w) (user r) (r_ID r) \<and> w_db (fst (replay sv i r w)) = replayed (io_now i) (r_ID r) (w_db w)) \<and>
    (replayable (w_db w) (user r) (r_ID r) \<and> io_db i = all_done \<and> list_all (pg_text (sv_pg sv)) [r_ID r, user r] \<longrightarrow>
      rsp_status (snd (replay sv i r w)) = 202)"
proof
  show "w_db (fst (replay sv i r w)) \<noteq> w_db w \<or> rsp_status (snd (replay sv i r w)) = 202 \<longrightarrow>
      replayable (w_db w) (user r) (r_ID r) \<and> w_db (fst (replay sv i r w)) = replayed (io_now i) (r_ID r) (w_db w)"
  proof (cases "replay_tx sv i r (w_db w)")
    case (Inl rsp)
    then show ?thesis
      using replay_tx_Inl_status [OF Inl] dbError_status [of r Unavailable] by (auto simp: replay_def run_tx_def)
  next
    case (Inr p)
    then obtain s' rsp where p: "replay_tx sv i r (w_db w) = Inr (s', rsp)" by (cases p) auto
    then have "replayable (w_db w) (user r) (r_ID r) \<and> s' = replayed (io_now i) (r_ID r) (w_db w)"
      by (rule replay_tx_Inr) (auto simp: replayable_joined [OF assms] replayed_rows)
    with p dbError_status [of r Unavailable] show ?thesis
      by (auto simp: replay_def run_tx_def apply_out_def)
  qed
  show "replayable (w_db w) (user r) (r_ID r) \<and> io_db i = all_done \<and> list_all (pg_text (sv_pg sv)) [r_ID r, user r] \<longrightarrow>
      rsp_status (snd (replay sv i r w)) = 202"
    using replay_tx_ok [OF assms] by (auto simp: replay_def run_tx_def)
qed

definition dead_world :: world where
  "dead_world = sample_world\<lparr>w_db := sample_db\<lparr>deliveries := [sample_delivery\<lparr>d_status := Dead, d_attempt_count := 5\<rparr>],
     dead_letters := [\<lparr>dl_delivery_id = ''dlv_1'', dl_reason = ''HTTP 500'', dl_created_at = 40\<rparr>]\<rparr>\<rparr>"

lemma dead_world_wf: "db_wf (w_db dead_world)"
  by (simp add: dead_world_def sample_world_def db_wf_def wf_defs sample_defs int4_range_def policy_check_def)

lemma dead_world_replayable: "replayable (w_db dead_world) ''usr_1'' ''dlv_1''"
  by code_simp

theorem replay_correct_witness:
  "rsp_status (snd (replay sample_server sample_io (sample_request\<lparr>r_ID := ''dlv_1''\<rparr>) dead_world)) = 202"
  using replay_correct [OF dead_world_wf, of sample_server sample_io "sample_request\<lparr>r_ID := ''dlv_1''\<rparr>"] dead_world_replayable
  by (simp add: sample_request_def user_def sample_io_def sample_server_def sample_pg_def)

section \<open>Sessions\<close>

definition protected :: "route \<Rightarrow> bool" where
  "protected rt \<longleftrightarrow> rt \<notin> {Health, Ready, Register, Login, Ingest, ApiNotFound, Moved, Static}"

definition signed_in :: "server \<Rightarrow> io \<Rightarrow> request \<Rightarrow> world \<Rightarrow> string option" where
  "signed_in sv i r w =
     (case r_Cookie r ''pulseroute_session'' of
        None \<Rightarrow> None
      | Some c \<Rightarrow> map_option s_user_id (live_session (io_now i) (w_db w) (Hash (sv_cr sv) c)))"

text \<open>
  C21: every route of the management API is closed to a request without a live session: the answer is 401 and
  nothing is read or changed. Other routes are the two probes, registration, login, ingestion and files.
\<close>

theorem protected_routes:
  assumes "protected rt" and "signed_in sv i r w = None"
  shows "fst (serve sv i meanwhile files rt r w) = w \<and> rsp_status (snd (serve sv i meanwhile files rt r w)) = 401"
proof -
  have "fst (auth sv i h r w) = w \<and> rsp_status (snd (auth sv i h r w)) = 401" for h
    using assms(2)
    by (auto simp: auth_def signed_in_def query_def of_option_def split: option.splits sum.splits if_splits)
  with assms(1) show ?thesis by (cases rt) (simp_all add: protected_def serve_def)
qed

theorem protected_routes_witness:
  "rsp_status (snd (serve sample_server sample_io (\<lambda>s. s) (\<lambda>_. write_header 404) Dashboard sample_request sample_world)) = 401"
proof -
  have "protected Dashboard" by (simp add: protected_def)
  moreover have "signed_in sample_server sample_io sample_request sample_world = None"
    by (simp add: signed_in_def sample_request_def)
  ultimately show ?thesis by (rule protected_routes [THEN conjunct2])
qed

end
