(* ===== verification/Api_History.thy ===== *)
theory Api_History
  imports Api_Claims
begin

text \<open>
  What \<^verbatim>\<open>GET /api/deliveries/{id}\<close> shows of a delivery's history: \<open>attempt_before\<close> orders the attempts, and with
  the queue's invariant the list is complete and gapless.
\<close>

interpretation attempt_order: row_order attempt_before
  by unfold_locales (auto simp: attempt_before_def)

definition attempt_less :: "attempt_row \<Rightarrow> attempt_row \<Rightarrow> bool" where
  "attempt_less a b \<longleftrightarrow>
     a_generation a < a_generation b \<or> a_generation a = a_generation b \<and> a_attempt a < a_attempt b"

abbreviation attempt_key :: "attempt_row \<Rightarrow> string \<times> int \<times> int" where
  "attempt_key a \<equiv> (a_delivery_id a, a_generation a, a_attempt a)"

lemma strictly_ordered:
  assumes "sorted_wrt attempt_before ats" and "distinct (map attempt_key ats)" and "\<forall>a \<in> set ats. a_delivery_id a = k"
  shows "sorted_wrt attempt_less ats"
  using assms
proof (induction ats)
  case (Cons a ats)
  have "attempt_less a b" if "b \<in> set ats" for b
  proof -
    have "attempt_before a b" "attempt_key b \<noteq> attempt_key a" "a_delivery_id b = a_delivery_id a"
      using Cons.prems that by (auto simp: rev_image_eqI)
    then show ?thesis by (auto simp: attempt_less_def attempt_before_def)
  qed
  with Cons show ?case by simp
qed simp

lemma attempts_upto:
  assumes "sorted_wrt attempt_less ats" and "a_attempt ` {a \<in> set ats. a_generation a = g} = {1..n}"
  shows "map a_attempt (filter (\<lambda>a. a_generation a = g) ats) = [1..n]"
proof (rule sorted_distinct_set_unique)
  have "sorted_wrt (<) (map a_attempt (filter (\<lambda>a. a_generation a = g) ats))"
    using assms(1) by (induction ats) (auto simp: attempt_less_def)
  then show "sorted (map a_attempt (filter (\<lambda>a. a_generation a = g) ats))"
    and "distinct (map a_attempt (filter (\<lambda>a. a_generation a = g) ats))"
    by (simp_all add: strict_sorted_iff)
qed (use assms(2) in auto)

lemma obj_last: "l \<noteq> [] \<Longrightarrow> last l = y \<Longrightarrow> \<exists>rest. write_json c (JObj l) = write_json c (JObj (rest @ [y]))"
  by (metis append_butlast_last_id)

text \<open>
  C27: a user who asks for a delivery of their own is shown its complete history: every recorded attempt once,
  in the order of generation and attempt; those of the current generation are numbered without a gap from 1 to the
  delivery's attempt count.
\<close>

theorem delivery_history:
  assumes wf: "db_wf (w_db w)" and inv: "queue_inv (w_db w)"
    and x: "x \<in> set (joined_deliveries (w_db w) (user r))" "d_id (x_d x) = r_ID r"
    and db: "io_db i 1 = Done" "pg_text (sv_pg sv) (r_ID r)" "pg_text (sv_pg sv) (user r)"
  shows "\<exists>ats rest. snd (delivery sv i r w) = write_json 200 (JObj (rest @ [(''attempts'', JArr (map (attempt_json sv) ats))])) \<and>
    set ats = {a \<in> set (delivery_attempts (w_db w)). a_delivery_id a = r_ID r} \<and> sorted_wrt attempt_less ats \<and>
    map a_attempt (filter (\<lambda>a. a_generation a = d_generation (x_d x)) ats) = [1..d_attempt_count (x_d x)]"
proof -
  let ?ats = "sort_by attempt_before (filter (\<lambda>a. a_delivery_id a = r_ID r) (delivery_attempts (w_db w)))"
  obtain x' where x': "find (\<lambda>x. d_id (x_d x) = r_ID r) (joined_deliveries (w_db w) (user r)) = Some x'"
    using x by (cases "find (\<lambda>x. d_id (x_d x) = r_ID r) (joined_deliveries (w_db w) (user r))") (auto simp: find_None_iff)
  then have "d_id (x_d x') = r_ID r" by (auto dest: find_Some_mem)
  then have "\<exists>rest. snd (delivery sv i r w) = write_json 200 (JObj (rest @ [(''attempts'', JArr (map (attempt_json sv) ?ats))]))"
    using x' db by (simp add: delivery_def one_def query_def of_option_def Let_def) (rule obj_last; simp)
  moreover have "set ?ats = {a \<in> set (delivery_attempts (w_db w)). a_delivery_id a = r_ID r}" by auto
  moreover have "distinct (map attempt_key (filter (\<lambda>a. a_delivery_id a = r_ID r) (delivery_attempts (w_db w))))"
    using wf by (intro distinct_map_filter) (simp add: db_wf_def wf_history_def)
  then have strict: "sorted_wrt attempt_less ?ats"
    by (intro strictly_ordered [OF attempt_order.sorted_sort_by, where k = "r_ID r"]) simp_all
  moreover have "budget_ok (delivery_attempts (w_db w)) (x_d x)"
    using queue_invD [OF inv] joined_deliveriesD [OF x(1)] by (simp add: delivery_ok_def)
  then have "a_attempt ` {a \<in> set ?ats. a_generation a = d_generation (x_d x)} = {1..d_attempt_count (x_d x)}"
    using x(2) by (auto simp: budget_ok_def attempts_at_def Collect_conj_eq conj_assoc)
  from attempts_upto [OF strict this]
  have "map a_attempt (filter (\<lambda>a. a_generation a = d_generation (x_d x)) ?ats) = [1..d_attempt_count (x_d x)]" .
  ultimately show ?thesis by blast
qed

theorem delivery_history_witness:
  "\<exists>ats rest. snd (delivery sample_server sample_io (sample_request\<lparr>r_ID := ''dlv_1''\<rparr>) sample_world) =
     write_json 200 (JObj (rest @ [(''attempts'', JArr (map (attempt_json sample_server) ats))])) \<and> set ats = {}"
proof -
  let ?x = "\<lparr>x_d = sample_delivery, x_ev = sample_event, x_ep = sample_endpoint, x_reason = None\<rparr>"
  have "?x \<in> set (joined_deliveries (w_db sample_world) ''usr_1'')"
    by (simp add: joined_deliveries_def join_delivery_def List.map_filter_def sample_world_def sample_defs lookup_by_def
        event_visible_def owns_project_def)
  then show ?thesis
    using delivery_history [of sample_world ?x "sample_request\<lparr>r_ID := ''dlv_1''\<rparr>" sample_io sample_server]
      sample_db_wf sample_db_inv
    by (simp add: sample_world_def sample_request_def user_def sample_io_def sample_server_def sample_defs)
qed

end
