(* ===== verification/Api_Types.thy ===== *)
theory Api_Types
  imports Api_Claims
begin

text \<open>
  The shape of every answer of the API, as a type: which statuses there are, what body goes with which, the error envelope
  with the request's identifier, and which answers may set the session cookie. The lemmas go handler by handler;
  \<open>Handler_typed\<close> puts them together with the middleware.
\<close>

definition envelope :: "string \<Rightarrow> json \<Rightarrow> bool" where
  "envelope rid v \<longleftrightarrow>
     (\<exists>code message. v = any_obj [(''error'', any_obj [(''code'', JStr code), (''message'', JStr message), (''request_id'', JStr rid)])])"

definition body_typed :: "string \<Rightarrow> response \<Rightarrow> bool" where
  "body_typed rid rsp \<longleftrightarrow>
     (case rsp_body rsp of
        None \<Rightarrow> rsp_status rsp = 204
      | Some v \<Rightarrow> (''Content-Type'', ''application/json'') \<in> set (rsp_headers rsp) \<and>
          (rsp_status rsp \<in> {200, 201, 202} \<or> rsp_status rsp \<in> {400, 401, 403, 404, 409, 429, 500, 503} \<and> envelope rid v))"

definition cookie_typed :: "server \<Rightarrow> response \<Rightarrow> bool" where
  "cookie_typed sv rsp \<longleftrightarrow>
     (\<forall>c. rsp_cookie rsp = Some c \<longrightarrow> rsp_status rsp \<in> {200, 201, 204} \<and> ck_Name c = ''pulseroute_session'' \<and> ck_Path c = ''/'' \<and>
        ck_HttpOnly c \<and> ck_SameSiteStrict c \<and> (ck_Secure c \<longleftrightarrow> c_CookieSecure (sv_Config sv)))"

definition typed :: "server \<Rightarrow> string \<Rightarrow> response \<Rightarrow> bool" where
  "typed sv rid rsp \<longleftrightarrow> body_typed rid rsp \<and> cookie_typed sv rsp"

named_theorems typing "typing of responses"

lemma typed_fail [typing]: "n \<in> {400, 401, 403, 404, 409, 429, 500, 503} \<Longrightarrow> r_request r = rid \<Longrightarrow> typed sv rid (fail r n c m)"
  by (auto simp: typed_def body_typed_def cookie_typed_def fail_def write_json_def envelope_def)

lemma typed_dbError [typing]: "r_request r = rid \<Longrightarrow> typed sv rid (dbError r e)"
  by (simp add: dbError_def typing)

lemma typed_write [typing]: "n \<in> {200, 201, 202} \<Longrightarrow> typed sv rid (write_json n v)" "typed sv rid (write_header 204)"
  by (auto simp: typed_def body_typed_def cookie_typed_def write_json_def write_header_def)

lemma typed_header [typing]: "typed sv rid rsp \<Longrightarrow> typed sv rid (add_header k v rsp)"
  by (auto simp: typed_def body_typed_def cookie_typed_def add_header_def split: option.splits)

lemma typed_rows [typing]: "r_request r = rid \<Longrightarrow> typed sv rid (rows r res)" "r_request r = rid \<Longrightarrow> typed sv rid (one r b)"
  by (auto simp: rows_def one_def typing split: sum.split prod.split)

lemma typed_decode [typing]: "decode r names put x = Inl rsp \<Longrightarrow> r_request r = rid \<Longrightarrow> typed sv rid rsp"
  by (auto simp: decode_def Let_def typing split: option.splits if_splits)

lemma typed_session [typing]: "st \<in> {200, 201} \<Longrightarrow> r_request r = rid \<Longrightarrow> typed sv rid (snd (session sv i k uid st r w))"
  by (auto simp: session_def Let_def split_beta typing split: sum.split)
    (auto simp: typed_def body_typed_def cookie_typed_def write_json_def session_cookie_def)

lemma typed_authLimit [typing]: "authLimit i r w = (w', Inl rsp) \<Longrightarrow> r_request r = rid \<Longrightarrow> typed sv rid rsp"
  by (auto simp: authLimit_def Let_def typing split: sum.splits if_splits prod.splits)

lemma typed_register_user [typing]: "r_request r = rid \<Longrightarrow> typed sv rid (snd (register_user sv i c r w))"
  by (auto simp: register_user_def Let_def typing split: sum.split prod.split)

lemma typed_register [typing]: "r_request r = rid \<Longrightarrow> typed sv rid (snd (register sv i r w))"
  by (auto simp: register_def typing split: sum.split prod.split)

lemma typed_login [typing]: "r_request r = rid \<Longrightarrow> typed sv rid (snd (login sv i r w))"
  by (auto simp: login_def Let_def typing split: sum.split prod.split)

lemma typed_logout [typing]: "r_request r = rid \<Longrightarrow> typed sv rid (snd (logout sv i r w))"
  by (auto simp: logout_def typing split: option.split sum.split prod.split)
    (auto simp: typed_def body_typed_def cookie_typed_def write_header_def session_cookie_def)

lemma typed_auth [typing]:
  assumes "\<And>u. typed sv rid (snd (h (r\<lparr>r_user := u\<rparr>) w))" and "r_request r = rid"
  shows "typed sv rid (snd (auth sv i h r w))"
  using assms by (simp add: auth_def typing split: option.split sum.split)

lemma typed_projects [typing]:
  "r_request r = rid \<Longrightarrow> typed sv rid (snd (list_projects sv i r w))"
  "r_request r = rid \<Longrightarrow> typed sv rid (snd (createProject sv i r w))"
  "r_request r = rid \<Longrightarrow> typed sv rid (snd (project sv i r w))"
  "r_request r = rid \<Longrightarrow> typed sv rid (snd (keys sv i r w))"
  "r_request r = rid \<Longrightarrow> typed sv rid (snd (createKey sv i r w))"
  "r_request r = rid \<Longrightarrow> typed sv rid (snd (deleteKey sv i r w))"
  by (auto simp: list_projects_def createProject_def project_def keys_def createKey_def deleteKey_def Let_def typing
      split: sum.split prod.split)

lemma typed_validate [typing]: "validateEndpoint sv r v = Inl rsp \<Longrightarrow> r_request r = rid \<Longrightarrow> typed sv' rid rsp"
  by (auto simp: validateEndpoint_def typing split: sum.splits if_splits)

lemma typed_endpoints [typing]:
  "r_request r = rid \<Longrightarrow> typed sv rid (snd (list_endpoints sv i r w))"
  "r_request r = rid \<Longrightarrow> typed sv rid (snd (createEndpoint sv i r w))"
  "r_request r = rid \<Longrightarrow> typed sv rid (snd (updateEndpoint sv i m r w))"
  "r_request r = rid \<Longrightarrow> typed sv rid (snd (deleteEndpoint sv i r w))"
  by (auto simp: list_endpoints_def createEndpoint_def updateEndpoint_def deleteEndpoint_def Let_def typing
      split: sum.split prod.split option.split)

lemma typed_ingest_tx:
  assumes "r_request r = rid"
  shows "ingest_tx sv i r eid prj v payload hash s = Inl rsp \<Longrightarrow> typed sv rid rsp"
    and "ingest_tx sv i r eid prj v payload hash s = Inr (s', rsp) \<Longrightarrow> typed sv rid rsp"
  using assms by (auto simp: ingest_tx_def typing split: sum.splits if_splits prod.splits)

lemma run_tx_result:
  "run_tx b c e f s = (s', Inl x) \<Longrightarrow> x = e \<or> f s = Inl x"
  "run_tx b c e f s = (s', Inr y) \<Longrightarrow> \<exists>t. f s = Inr (t, y)"
  by (auto simp: run_tx_def split: if_splits sum.splits prod.splits)

lemma typed_ingest_event [typing]: "r_request r = rid \<Longrightarrow> typed sv rid (snd (ingest_event sv i prj v r w))"
  by (auto simp: ingest_event_def collapse_def typing split: sum.split option.split prod.split
      dest!: run_tx_result intro: typed_ingest_tx)

lemma typed_ingest [typing]: "r_request r = rid \<Longrightarrow> typed sv rid (snd (ingest sv i r w))"
  by (auto simp: ingest_def Let_def typing split: sum.split prod.split)

lemma typed_replay_tx:
  assumes "r_request r = rid"
  shows "replay_tx sv i r s = Inl rsp \<Longrightarrow> typed sv rid rsp" and "replay_tx sv i r s = Inr (s', rsp) \<Longrightarrow> typed sv rid rsp"
  using assms by (auto simp: replay_tx_def typing split: sum.splits if_splits)

lemma typed_inspection [typing]:
  "r_request r = rid \<Longrightarrow> typed sv rid (snd (list_events sv i r w))"
  "r_request r = rid \<Longrightarrow> typed sv rid (snd (deliveryList sv i d r w))"
  "r_request r = rid \<Longrightarrow> typed sv rid (snd (event sv i r w))"
  "r_request r = rid \<Longrightarrow> typed sv rid (snd (delivery sv i r w))"
  "r_request r = rid \<Longrightarrow> typed sv rid (snd (dashboard sv i r w))"
  by (auto simp: list_events_def deliveryList_def event_def delivery_def dashboard_def Let_def typing
      split: sum.split prod.split option.split)

lemma typed_replay [typing]: "r_request r = rid \<Longrightarrow> typed sv rid (snd (replay sv i r w))"
  by (auto simp: replay_def typing split: sum.split prod.split dest!: run_tx_result intro: typed_replay_tx)

lemma typed_serve:
  assumes "rt \<notin> {Moved, Static}" and "r_request r = rid"
  shows "typed sv rid (snd (serve sv i m files rt r w))"
  using assms
  by (cases rt) (simp_all add: serve_def with_id_def ready_def me_def list_deliveries_def deadLetters_def typing)

lemma typed_heads: "typed sv rid rsp \<Longrightarrow> typed sv rid (rsp\<lparr>rsp_headers := hs @ rsp_headers rsp\<rparr>)"
  by (auto simp: typed_def body_typed_def cookie_typed_def split: option.splits)

lemma middleware_result:
  fixes i :: io
  defines "rid \<equiv> new_token i 0 ''req_''"
  obtains rsp where "snd (middleware sv i h r w) = rsp\<lparr>rsp_headers := security_headers rid @ rsp_headers rsp\<rparr>"
    and "rsp = snd (h (r\<lparr>r_request := rid\<rparr>) w) \<or> (\<exists>c d. rsp = fail (r\<lparr>r_request := rid\<rparr>) 403 c d)"
proof -
  let ?r = "r\<lparr>r_request := rid\<rparr>"
  define b where "b = (if r_Method ?r \<noteq> ''GET'' \<and> r_Method ?r \<noteq> ''HEAD'' \<and> r_Header ?r ''Origin'' \<noteq> [] \<and>
        (case sv_url sv (r_Header ?r ''Origin'') of None \<Rightarrow> True | Some u \<Rightarrow> url_Host u \<noteq> r_Host ?r)
      then (w, fail ?r 403 ''ORIGIN'' ''cross-origin request rejected'')
      else if r_Method ?r \<noteq> ''GET'' \<and> r_Method ?r \<noteq> ''HEAD'' \<and> contains (r_Header ?r ''Sec-Fetch-Site'') ''cross-site''
      then (w, fail ?r 403 ''ORIGIN'' ''cross-site request rejected'')
      else h ?r w)"
  have "snd b = snd (h ?r w) \<or> (\<exists>c d. snd b = fail ?r 403 c d)" 
  proof -
    obtain P Q x y where "b = (if P then (w, fail ?r 403 ''ORIGIN'' x) else if Q then (w, fail ?r 403 ''ORIGIN'' y) else h ?r w)"
      unfolding b_def by blast
    then show ?thesis by (cases P; cases Q) auto
  qed
  moreover have "snd (middleware sv i h r w) = (snd b)\<lparr>rsp_headers := security_headers rid @ rsp_headers (snd b)\<rparr>"
    by (simp only: middleware_def Let_def split_beta snd_conv fst_conv b_def rid_def)
  ultimately show ?thesis using that by blast
qed

lemma security_headers_all:
  "{(''X-Request-ID'', rid), (''X-Content-Type-Options'', ''nosniff''), (''Referrer-Policy'', ''no-referrer''),
     (''Cache-Control'', ''no-store'')} \<subseteq> set (security_headers rid) \<and>
   ''Content-Security-Policy'' \<in> fst ` set (security_headers rid)"
  by (simp add: security_headers_def)

text \<open>
  C23: every answer of the API has its type. Whatever the request, the state and the failing calls, outside the static files and redirects:
  a body is JSON with its content type and goes with 200, 201 or 202, or it is the error envelope with the request's own
  identifier and goes with one of eight error statuses; only 204 has no body; a cookie is set only by a successful
  answer and is the session cookie, HTTP-only, same-site strict and secure as configured; and every
  answer carries the security headers.
\<close>

theorem responses_typed:
  assumes "route_of (r_Method r) (r_Path r) \<notin> {Moved, Static}"
  shows "let rsp = snd (Handler sv i m files r w); rid = new_token i 0 ''req_'' in
    typed sv rid rsp \<and>
    {(''X-Request-ID'', rid), (''X-Content-Type-Options'', ''nosniff''), (''Referrer-Policy'', ''no-referrer''),
      (''Cache-Control'', ''no-store'')} \<subseteq> set (rsp_headers rsp) \<and>
    ''Content-Security-Policy'' \<in> fst ` set (rsp_headers rsp)"
proof -
  let ?r = "r\<lparr>r_request := new_token i 0 ''req_''\<rparr>"
  have "typed sv (new_token i 0 ''req_'') (snd (serve sv i m files (route_of (r_Method r) (r_Path r)) ?r w))"
    by (rule typed_serve [OF assms]) simp
  moreover have "typed sv (new_token i 0 ''req_'') (fail ?r 403 c d)" for c d by (rule typed_fail) simp_all
  moreover obtain rsp where rsp: "snd (Handler sv i m files r w) = rsp\<lparr>rsp_headers := security_headers (new_token i 0 ''req_'') @ rsp_headers rsp\<rparr>"
    and "rsp = snd (serve sv i m files (route_of (r_Method ?r) (r_Path ?r)) ?r w) \<or> (\<exists>c d. rsp = fail ?r 403 c d)"
    unfolding Handler_def by (rule middleware_result)
  ultimately have ty: "typed sv (new_token i 0 ''req_'') rsp" by auto
  have sub: "set (security_headers (new_token i 0 ''req_'')) \<subseteq> set (rsp_headers (snd (Handler sv i m files r w)))"
    unfolding rsp by simp
  note all = security_headers_all [of "new_token i 0 ''req_''"]
  show ?thesis
    unfolding Let_def
  proof (intro conjI)
    show "typed sv (new_token i 0 ''req_'') (snd (Handler sv i m files r w))" unfolding rsp by (rule typed_heads [OF ty])
  qed (use all sub in \<open>blast+\<close>)
qed

theorem responses_typed_witness:
  "body_typed (new_token sample_io 0 ''req_'') (snd (Handler sample_server sample_io (\<lambda>s. s) (\<lambda>_. write_header 404) sample_request sample_world))"
  using responses_typed [of sample_request sample_server sample_io "\<lambda>s. s" "\<lambda>_. write_header 404" sample_world]
  by (simp add: sample_request_def route_of_def post_route_def moved_def clean_segment_def typed_def Let_def)

end
