(* ===== verification/Api_Access.thy ===== *)
theory Api_Access
  imports Api_Claims
begin

text \<open>
  Who can reach what through the API: sessions as a round trip, the rows of other users, the limits on bodies
  and pages, requests from other origins, deleted endpoints and the dashboard's cache keys.
\<close>

section \<open>The life of a session\<close>

lemma live_session_iff:
  assumes "distinct (map s_token_hash (sessions s))"
  shows "live_session now s h = Some x \<longleftrightarrow> x \<in> set (sessions s) \<and> s_token_hash x = h \<and> now < s_expires_at x"
proof
  assume "live_session now s h = Some x"
  then show "x \<in> set (sessions s) \<and> s_token_hash x = h \<and> now < s_expires_at x"
    by (auto simp: live_session_def find_Some_iff)
next
  assume x: "x \<in> set (sessions s) \<and> s_token_hash x = h \<and> now < s_expires_at x"
  then obtain y where y: "live_session now s h = Some y"
    by (cases "live_session now s h") (auto simp: live_session_def find_None_iff)
  then have "y \<in> set (sessions s)" "s_token_hash y = h" by (auto simp: live_session_def find_Some_iff)
  with x y key_unique [OF assms] show "live_session now s h = Some x" by metis
qed

lemma insert_session_rows: "insert_session row s = Inr s' \<Longrightarrow> sessions s' = sessions s @ [row]"
  by (auto simp: insert_session_def split: if_splits)

lemma session_cookie_stored:
  assumes "rsp_cookie (snd (session sv i k uid st r w)) = Some c"
  shows "c = session_cookie sv (new_token i k ''ses_'') 86400"
    and "\<exists>row. insert_session row (w_db w) = Inr (w_db (fst (session sv i k uid st r w))) \<and>
      row = \<lparr>s_token_hash = Hash (sv_cr sv) (ck_Value c), s_user_id = uid, s_expires_at = io_clock i + day\<rparr>"
  using assms
  by (auto simp: session_def Let_def exec_def apply_out_def dbError_def fail_def write_json_def session_cookie_def
      split: if_splits sum.splits)

text \<open>
  C22: a session is what its cookie opens. After a registration or login that sets a cookie, a request with that
  cookie acts as that user at every moment of the next twenty-four hours and at no later one; the
  database holds only the token's hash; the cookie is HTTP-only, same-site strict, secure as configured, and
  ends with the session; and after a logout the cookie opens nothing.
\<close>

theorem session_life:
  assumes wf: "db_wf (w_db w)" and c: "rsp_cookie (snd (session sv i k uid st r w)) = Some c"
    and r': "r_Cookie r' ''pulseroute_session'' = Some (ck_Value c)"
    and w': "w' = fst (session sv i k uid st r w)" and out: "io_db j' 1 = Done"
  shows "(signed_in sv j r' w' = Some uid \<longleftrightarrow> io_now j < io_clock i + 86400000000) \<and>
    (\<exists>row \<in> set (sessions (w_db w')). s_token_hash row = Hash (sv_cr sv) (ck_Value c) \<and> s_user_id row = uid) \<and>
    ck_HttpOnly c \<and> ck_SameSiteStrict c \<and> ck_Secure c = c_CookieSecure (sv_Config sv) \<and> ck_MaxAge c = 86400 \<and>
    signed_in sv j'' r' (fst (logout sv j' r' w')) = None"
proof -
  let ?h = "Hash (sv_cr sv) (ck_Value c)"
  obtain row where ins: "insert_session row (w_db w) = Inr (w_db w')"
    and row: "row = \<lparr>s_token_hash = ?h, s_user_id = uid, s_expires_at = io_clock i + day\<rparr>"
    using session_cookie_stored(2) [OF c] w' by blast
  have s': "sessions (w_db w') = sessions (w_db w) @ [row]"
    by (rule insert_session_rows [OF ins])
  have d: "distinct (map s_token_hash (sessions (w_db w')))"
    using insert_session_wf [OF wf ins] by (simp add: db_wf_def wf_accounts_def)
  have mem: "row \<in> set (sessions (w_db w'))" "s_token_hash row = ?h" "s_user_id row = uid" "s_expires_at row = io_clock i + day"
    by (simp_all add: s' row)
  have only: "x = row" if "x \<in> set (sessions (w_db w'))" "s_token_hash x = ?h" for x
    using key_unique [OF d that(1) mem(1)] that(2) mem(2) by simp
  have "live_session (io_now j) (w_db w') ?h = (if io_now j < io_clock i + day then Some row else None)"
  proof (cases "io_now j < io_clock i + day")
    case True
    then show ?thesis using live_session_iff [OF d] mem by simp
  next
    case False
    then have "live_session (io_now j) (w_db w') ?h \<noteq> Some x" for x
      using live_session_iff [OF d, of "io_now j" ?h x] only [of x] mem(4) by auto
    with False show ?thesis by (metis not_Some_eq)
  qed
  then have "signed_in sv j r' w' = Some uid \<longleftrightarrow> io_now j < io_clock i + day"
    using mem(3) by (simp add: signed_in_def r')
  moreover have "signed_in sv j'' r' (fst (logout sv j' r' w')) = None"
    using out by (auto simp: signed_in_def r' logout_def exec_def apply_out_def live_session_def tbl_delete_def
        find_None_iff)
  ultimately show ?thesis
    using mem session_cookie_stored(1) [OF c] by (auto simp: session_cookie_def day_def)
qed

theorem session_life_witness:
  "\<exists>c. rsp_cookie (snd (session sample_server sample_io 1 ''usr_1'' 200 sample_request sample_world)) = Some c \<and>
     signed_in sample_server (sample_io\<lparr>io_now := 86400000049\<rparr>) (sample_request\<lparr>r_Cookie := (\<lambda>_. Some (ck_Value c))\<rparr>)
       (fst (session sample_server sample_io 1 ''usr_1'' 200 sample_request sample_world)) = Some ''usr_1''"
proof -
  obtain c where c: "rsp_cookie (snd (session sample_server sample_io 1 ''usr_1'' 200 sample_request sample_world)) = Some c"
    by (simp add: session_def exec_def insert_session_def sample_io_def sample_world_def sample_server_def sample_defs
        sample_crypto_def apply_out_def new_token_def Token_def Hash_def hex_encode_def hex_digit_def b64_url_def)
  show ?thesis
    using session_life [of sample_world, OF _ c, of "sample_request\<lparr>r_Cookie := (\<lambda>_. Some (ck_Value c))\<rparr>" _ sample_io
        "sample_io\<lparr>io_now := 86400000049\<rparr>"] c sample_db_wf
    by (simp add: sample_world_def sample_io_def)
qed

section \<open>Other users' rows\<close>

text \<open>
  The rows of a database that belong to users other than \<open>u\<close>, ownership being read in the state \<open>s\<close> before
  the request.
\<close>

definition foreign_delivery :: "db \<Rightarrow> string \<Rightarrow> string \<Rightarrow> bool" where
  "foreign_delivery s u did \<longleftrightarrow> \<not> (\<exists>x \<in> set (joined_deliveries s u). d_id (x_d x) = did)"

definition untouched :: "db \<Rightarrow> string \<Rightarrow> db \<Rightarrow> bool" where
  "untouched s u s' \<longleftrightarrow>
     users s' = users s \<and> events s' = events s \<and> delivery_attempts s' = delivery_attempts s \<and>
     filter (\<lambda>x. s_user_id x \<noteq> u) (sessions s') = filter (\<lambda>x. s_user_id x \<noteq> u) (sessions s) \<and>
     filter (\<lambda>p. p_owner_id p \<noteq> u) (projects s') = filter (\<lambda>p. p_owner_id p \<noteq> u) (projects s) \<and>
     filter (\<lambda>k. \<not> owns_project s u (k_project_id k)) (api_keys s') = filter (\<lambda>k. \<not> owns_project s u (k_project_id k)) (api_keys s) \<and>
     filter (\<lambda>e. \<not> owns_project s u (ep_project_id e)) (endpoints s') = filter (\<lambda>e. \<not> owns_project s u (ep_project_id e)) (endpoints s) \<and>
     filter (\<lambda>d. foreign_delivery s u (d_id d)) (deliveries s') = filter (\<lambda>d. foreign_delivery s u (d_id d)) (deliveries s) \<and>
     filter (\<lambda>l. foreign_delivery s u (dl_delivery_id l)) (dead_letters s') =
       filter (\<lambda>l. foreign_delivery s u (dl_delivery_id l)) (dead_letters s)"

lemma untouched_refl [simp]: "untouched s u s"
  by (simp add: untouched_def)

lemma filter_tbl_update:
  "(\<And>r. r \<in> set t \<Longrightarrow> P r \<Longrightarrow> \<not> Q r \<and> \<not> Q (f r)) \<Longrightarrow> filter Q (tbl_update P f t) = filter Q t"
  by (induction t) (auto simp: tbl_update_def)

lemma filter_tbl_delete:
  "(\<And>r. r \<in> set t \<Longrightarrow> P r \<Longrightarrow> \<not> Q r) \<Longrightarrow> filter Q (tbl_delete P t) = filter Q t"
  by (induction t) (auto simp: tbl_delete_def)

lemma exec_untouched:
  assumes "\<And>s' a. f s = Inr (s', a) \<Longrightarrow> untouched s u s'"
  shows "untouched s u (fst (exec sv params oc f s))"
  using assms by (auto simp: exec_def apply_out_def split: sum.split)

lemma owner_owns: "owner sv oc r s pid \<Longrightarrow> owns_project s (user r) pid"
  by (simp add: owner_def query_def split: if_splits sum.splits)

lemma createProject_untouched: "untouched (w_db w) (user r) (w_db (fst (createProject sv i r w)))"
proof -
  have "untouched s u (fst (exec sv ps oc (\<lambda>s. res_bind (insert_project row s) (\<lambda>s1. Inr (s1, ()))) s))"
    if "p_owner_id row = u" for row u s ps oc
    by (rule exec_untouched) (use that in \<open>auto simp: insert_project_def untouched_def split: if_splits\<close>)
  then show ?thesis by (simp add: createProject_def Let_def split_beta split: sum.split)
qed

lemma createKey_untouched: "untouched (w_db w) (user r) (w_db (fst (createKey sv i r w)))"
proof -
  have "untouched s u (fst (exec sv ps oc (\<lambda>s. res_bind (insert_api_key row s) (\<lambda>s1. Inr (s1, ()))) s))"
    if "owns_project s u (k_project_id row)" for row u s ps oc
    by (rule exec_untouched) (use that in \<open>auto simp: insert_api_key_def untouched_def split: if_splits\<close>)
  then show ?thesis
    using owner_owns [of sv "io_db i 1" r "w_db w" "r_ID r"] by (simp add: createKey_def Let_def split_beta split: sum.split)
qed

lemma createEndpoint_untouched: "untouched (w_db w) (user r) (w_db (fst (createEndpoint sv i r w)))"
proof -
  have "untouched s u (fst (exec sv ps oc (\<lambda>s. res_bind (insert_endpoint row s) (\<lambda>s1. Inr (s1, ()))) s))"
    if "owns_project s u (ep_project_id row)" for row u s ps oc
    by (rule exec_untouched) (use that in \<open>auto simp: insert_endpoint_def untouched_def split: if_splits\<close>)
  then show ?thesis
    using owner_owns [of sv "io_db i 1" r "w_db w" "r_ID r"] by (simp add: createEndpoint_def Let_def split_beta split: sum.split)
qed

lemma deleteKey_untouched: "untouched (w_db w) (user r) (w_db (fst (deleteKey sv i r w)))"
proof -
  have "untouched s u (revoke_keys now u kid s)" for s u now kid
    by (auto simp: untouched_def revoke_keys_def key_of_user_def intro!: filter_tbl_update)
  then have "untouched s u (fst (exec sv ps oc (\<lambda>s. Inr (revoke_keys now u kid s, g s)) s))"
    for s u ps oc now kid and g :: "db \<Rightarrow> nat"
    by (intro exec_untouched) auto
  then show ?thesis by (simp add: deleteKey_def split_beta)
qed

lemma deleteEndpoint_untouched: "untouched (w_db w) (user r) (w_db (fst (deleteEndpoint sv i r w)))"
proof -
  have "untouched s u (delete_endpoints now u eid s)" for s u now eid
    by (auto simp: untouched_def delete_endpoints_def endpoint_of_user_def intro!: filter_tbl_update)
  then have "untouched s u (fst (exec sv ps oc (\<lambda>s. Inr (delete_endpoints now u eid s, g s)) s))"
    for s u ps oc now eid and g :: "db \<Rightarrow> nat"
    by (intro exec_untouched) auto
  then show ?thesis by (simp add: deleteEndpoint_def split_beta)
qed

lemma write_endpoint_untouched:
  assumes wf: "db_wf s" and e: "e \<in> set (endpoints s)" "ep_id e = eid" "owns_project s u (ep_project_id e)"
  shows "untouched s u (write_endpoint eid v cipher active s)"
proof -
  have "x = e" if "x \<in> set (endpoints s)" "ep_id x = eid" for x
    using that e wf by (auto simp: db_wf_def wf_endpoints_def intro: key_unique)
  with e(3) have "filter (\<lambda>e. \<not> owns_project s u (ep_project_id e)) (endpoints (write_endpoint eid v cipher active s)) =
      filter (\<lambda>e. \<not> owns_project s u (ep_project_id e)) (endpoints s)"
    unfolding write_endpoint_def by simp (rule filter_tbl_update, simp)
  then show ?thesis by (simp add: untouched_def) (simp add: write_endpoint_def)
qed

lemma updateEndpoint_untouched:
  assumes wf: "db_wf (w_db w)"
  shows "untouched (w_db w) (user r) (w_db (fst (updateEndpoint sv i (\<lambda>s. s) r w)))"
proof (cases "query sv [r_ID r, user r] (io_db i 1) (of_option (find (endpoint_of_user (w_db w) (user r) (r_ID r)) (endpoints (w_db w))))")
  case (Inr old)
  then have "old \<in> set (endpoints (w_db w))" "ep_id old = r_ID r" "owns_project (w_db w) (user r) (ep_project_id old)"
    by (auto simp: query_def of_option_def find_Some_iff endpoint_of_user_def split: if_splits option.splits)
  from write_endpoint_untouched [OF wf this]
  have "untouched (w_db w) (user r)
      (fst (exec sv ps oc (\<lambda>s. Inr (write_endpoint (r_ID r) v cipher active s, ())) (w_db w)))" for ps oc v cipher active
    by (intro exec_untouched) auto
  with Inr show ?thesis
    by (simp add: updateEndpoint_def Let_def split_beta split: sum.split option.split)
qed (simp add: updateEndpoint_def)

lemma replay_untouched: "untouched (w_db w) (user r) (w_db (fst (replay sv i r w)))"
proof -
  have "untouched (w_db w) (user r) s'" if "replay_tx sv i r (w_db w) = Inr (s', rsp)" for s' rsp
    using that
  proof (rule replay_tx_Inr)
    fix x assume "x \<in> set (joined_deliveries (w_db w) (user r))" "d_id (x_d x) = r_ID r"
    then have "\<not> foreign_delivery (w_db w) (user r) (r_ID r)" by (auto simp: foreign_delivery_def)
    moreover assume "s' = (w_db w)\<lparr>deliveries := tbl_update (\<lambda>d. d_id d = r_ID r) (replay_row (io_now i)) (deliveries (w_db w)),
       dead_letters := tbl_delete (\<lambda>l. dl_delivery_id l = r_ID r) (dead_letters (w_db w))\<rparr>"
    ultimately show "untouched (w_db w) (user r) s'"
      by (auto simp: untouched_def intro!: filter_tbl_update filter_tbl_delete)
  qed
  then show ?thesis
    using run_tx_atomic [of "io_db i 1" "io_db i 5" "dbError r Unavailable" "replay_tx sv i r" "w_db w"]
    by (auto simp: replay_def split_beta)
qed

lemma logout_untouched:
  assumes wf: "db_wf (w_db w)" and u: "signed_in sv i r w = Some u"
  shows "untouched (w_db w) u (w_db (fst (logout sv i' r w)))"
proof -
  obtain c x where c: "r_Cookie r ''pulseroute_session'' = Some c"
    and x: "x \<in> set (sessions (w_db w))" "s_token_hash x = Hash (sv_cr sv) c" "s_user_id x = u"
    using u by (auto simp: signed_in_def live_session_def split: option.splits dest: find_Some_mem)
  have "s_user_id y = u" if "y \<in> set (sessions (w_db w))" "s_token_hash y = Hash (sv_cr sv) c" for y
    using that x wf key_unique [of s_token_hash "sessions (w_db w)" y x] by (auto simp: db_wf_def wf_accounts_def)
  then have "untouched (w_db w) u ((w_db w)\<lparr>sessions := tbl_delete (\<lambda>y. s_token_hash y = Hash (sv_cr sv) c) (sessions (w_db w))\<rparr>)"
    by (auto simp: untouched_def intro!: filter_tbl_delete)
  then have "untouched (w_db w) u (fst (exec sv [] oc (\<lambda>s. Inr (s\<lparr>sessions := tbl_delete (\<lambda>y. s_token_hash y = Hash (sv_cr sv) c)
      (sessions s)\<rparr>, ())) (w_db w)))" for oc
    by (intro exec_untouched) auto
  with c show ?thesis by (simp add: logout_def split_beta)
qed

lemma auth_untouched:
  assumes "signed_in sv i r w = Some u"
    and "\<And>r'. user r' = u \<Longrightarrow> r_Cookie r' = r_Cookie r \<Longrightarrow> untouched (w_db w) u (w_db (fst (h r' w)))"
  shows "untouched (w_db w) u (w_db (fst (auth sv i h r w)))"
  using assms(1) assms(2) [of "r\<lparr>r_user := u\<rparr>"]
  by (auto simp: auth_def signed_in_def query_def of_option_def user_def split: option.splits sum.splits if_splits)

lemmas handlers_untouched = createProject_untouched createKey_untouched createEndpoint_untouched deleteKey_untouched
  deleteEndpoint_untouched updateEndpoint_untouched replay_untouched

text \<open>
  C20: users are isolated. Whatever a signed-in user requests on the management API, and however its calls turn
  out, every project, API key, endpoint, event, delivery, attempt, dead letter and session of other users is as
  it was before.
\<close>

theorem users_isolated:
  assumes wf: "db_wf (w_db w)" and "protected rt" and u: "signed_in sv i r w = Some u"
  shows "untouched (w_db w) u (w_db (fst (serve sv i (\<lambda>s. s) files rt r w)))"
proof -
  have signed: "signed_in sv i r' w = Some u" if "r_Cookie r' = r_Cookie r" for r'
    using u that by (simp add: signed_in_def)
  have plain: "untouched (w_db w) u (w_db (fst (auth sv i h r w)))"
    if "\<And>r. untouched (w_db w) (user r) (w_db (fst (h r w)))" for h
    by (rule auth_untouched [OF u]) (use that in blast)
  have by_id: "untouched (w_db w) u (w_db (fst (auth sv i (with_id x h) r w)))"
    if "\<And>r. untouched (w_db w) (user r) (w_db (fst (h r w)))" for x h
    by (rule plain) (use that [of "r\<lparr>r_ID := x\<rparr>" for r] in \<open>simp add: with_id_def user_def\<close>)
  have out: "untouched (w_db w) u (w_db (fst (auth sv i (logout sv i) r w)))"
    by (rule auth_untouched [OF u]) (rule logout_untouched [OF wf signed])
  show ?thesis
    using assms(2) out
    by (cases rt)
      (simp_all add: serve_def protected_def list_deliveries_def deadLetters_def by_id plain handlers_untouched wf)
qed

definition signed_world :: world where
  "signed_world = sample_world\<lparr>w_db := sample_db\<lparr>sessions :=
     [\<lparr>s_token_hash = Hash sample_crypto ''s'', s_user_id = ''usr_1'', s_expires_at = 99\<rparr>]\<rparr>\<rparr>"

definition signed_in_request :: request where
  "signed_in_request = sample_request\<lparr>r_Cookie := (\<lambda>_. Some ''s'')\<rparr>"

lemma signed_world_wf: "db_wf (w_db signed_world)"
  by (simp add: signed_world_def sample_world_def db_wf_def wf_defs sample_defs int4_range_def policy_check_def)

lemma signed_world_user: "signed_in sample_server sample_io signed_in_request signed_world = Some ''usr_1''"
  by (simp add: signed_in_def signed_in_request_def sample_request_def signed_world_def live_session_def sample_server_def sample_io_def)

theorem users_isolated_witness:
  "untouched (w_db signed_world) ''usr_1'' (w_db (fst (serve sample_server sample_io (\<lambda>s. s) (\<lambda>_. write_header 404)
     (DeleteEndpoint ''ep_1'') signed_in_request signed_world)))"
  by (rule users_isolated [OF signed_world_wf _ signed_world_user]) (simp add: protected_def)

section \<open>Limits\<close>

text \<open>
  Pages are bounded whatever the query says: 1 to 100 rows, 25 by default, from an offset of at most 100000;
  every list answer has at most that many rows, each from the table's selected rows.
\<close>

lemma page_bounds:
  "1 \<le> fst (page r) \<and> fst (page r) \<le> 100 \<and> 0 \<le> snd (page r) \<and> snd (page r) \<le> 100000 \<and>
   (r_Query r ''limit'' = [] \<longrightarrow> fst (page r) = 25) \<and>
   int (length (page_of pg created key r rs)) \<le> fst (page r) \<and> set (page_of pg created key r rs) \<subseteq> set rs"
proof (intro conjI)
  show "1 \<le> fst (page r)" "fst (page r) \<le> 100" "0 \<le> snd (page r)" "snd (page r) \<le> 100000"
    by (simp_all add: page_def Let_def)
  show "r_Query r ''limit'' = [] \<longrightarrow> fst (page r) = 25"
    by (simp add: page_def Let_def atoi_value_def ParseInt_def)
  have "length (limit_offset l o' rs') \<le> nat l" for l o' and rs' :: "'a list"
    by (simp add: limit_offset_def)
  with \<open>1 \<le> fst (page r)\<close> show "int (length (page_of pg created key r rs)) \<le> fst (page r)"
    by (simp add: page_of_def split_beta) (smt (verit) int_nat_eq of_nat_le_iff)
  show "set (page_of pg created key r rs) \<subseteq> set rs"
    unfolding page_of_def limit_offset_def by (auto simp: split_beta dest!: in_set_takeD in_set_dropD)
qed

text \<open>
  C25: a body is decoded only if all of it was read, it is at most one mebibyte long and holds exactly one JSON
  value; every other body is answered 400 before the handler looks at it.
\<close>

theorem decode_limits:
  "(\<forall>x'. decode r names put x = Inr x' \<longrightarrow>
      length (r_Body r) \<le> 1048576 \<and> \<not> r_BodyErr r \<and> json_valid (r_Body r)) \<and>
   (\<forall>rsp. decode r names put x = Inl rsp \<longrightarrow> rsp_status rsp = 400)"
proof (intro conjI allI impI)
  fix x' assume "decode r names put x = Inr x'"
  then obtain v rest where "json_next (take max_body (r_Body r)) = Some (v, rest)" "skip_space rest = []"
    and len: "length (r_Body r) \<le> max_body" and err: "\<not> r_BodyErr r"
    unfolding decode_def Let_def by (auto split: option.splits if_splits)
  then show "length (r_Body r) \<le> 1048576" "\<not> r_BodyErr r" "json_valid (r_Body r)"
    by (simp_all add: json_valid_def max_body_def)
next
  fix rsp assume "decode r names put x = Inl rsp"
  then show "rsp_status rsp = 400"
    unfolding decode_def Let_def by (auto split: option.splits if_splits)
qed

theorem decode_limits_witness:
  "\<exists>rsp. decode (sample_request\<lparr>r_Body := []\<rparr>) [] put_named \<lparr>n_Name = []\<rparr> = Inl rsp \<and> rsp_status rsp = 400"
proof -
  have "\<exists>rsp. decode (sample_request\<lparr>r_Body := []\<rparr>) [] put_named \<lparr>n_Name = []\<rparr> = Inl rsp"
    by (simp add: decode_def json_next_def)
  with decode_limits [of "sample_request\<lparr>r_Body := []\<rparr>" "[]" put_named "\<lparr>n_Name = []\<rparr>"] show ?thesis by blast
qed

text \<open>
  A state-changing request that names a foreign or unreadable origin, or that the browser marks as cross-site,
  is answered 403 and reaches no handler.
\<close>

lemma cross_origin_rejected:
  assumes "r_Method r \<notin> {''GET'', ''HEAD''}"
    and "(r_Header r ''Origin'' \<noteq> [] \<and> (\<forall>u. sv_url sv (r_Header r ''Origin'') = Some u \<longrightarrow> url_Host u \<noteq> r_Host r)) \<or>
      contains (r_Header r ''Sec-Fetch-Site'') ''cross-site''"
  shows "fst (Handler sv i meanwhile files r w) = w \<and> rsp_status (snd (Handler sv i meanwhile files r w)) = 403"
  using assms by (auto simp: Handler_def middleware_def Let_def split: option.split)

section \<open>Cached dashboards\<close>

text \<open>
  Distinct users, and distinct project filters of one user, have distinct dashboard cache entries: the
  identifiers the server issues contain no colon.
\<close>

lemma dashboard_key_injective:
  assumes "CHR '':'' \<notin> set u" and "CHR '':'' \<notin> set u'" and "dashboard_key u p = dashboard_key u' p'"
  shows "u = u' \<and> p = p'"
proof -
  have eq: "u @ CHR '':'' # p = u' @ CHR '':'' # p'" using assms(3) by (simp add: dashboard_key_def)
  have tw: "takeWhile (\<lambda>c. c \<noteq> CHR '':'') (x @ CHR '':'' # y) = x" if "CHR '':'' \<notin> set x" for x y
    using that by (induction x) auto
  then have "u = u'" using eq assms(1,2) by metis
  with eq show ?thesis by simp
qed

end
