(* ===== verification/Paging.thy ===== *)
theory Paging
  imports Api_Access "HOL-Library.Multiset"
begin

text \<open>
  Reading a list page by page: the pages at the offsets \<open>0, l, 2l, \<dots>\<close> cut the sorted list into consecutive pieces, as far as
  the largest offset the server takes. Shown for the list of deliveries, whose query is the longest.
\<close>

section \<open>The order of a list\<close>

lemma mset_insert_by [simp]: "mset (insert_by le x xs) = add_mset x (mset xs)"
  by (induction xs) auto

lemma mset_sort_by [simp]: "mset (sort_by le xs) = mset xs"
  by (induction xs) auto

lemma newest_inserted:
  "sorted_wrt (\<lambda>a b. created b \<le> created a) xs \<Longrightarrow>
   sorted_wrt (\<lambda>a b. created b \<le> created a) (insert_by (newest_first pg created key) x xs)"
proof (induction xs)
  case (Cons y ys)
  then show ?case
    by (cases "newest_first pg created key x y") (force simp: newest_first_def)+
qed simp

lemma newest_sorted: "sorted_wrt (\<lambda>a b. created b \<le> created a) (sort_by (newest_first pg created key) xs)"
  by (induction xs) (auto intro: newest_inserted)

section \<open>Consecutive pages\<close>

lemma concat_pages: "concat (map (\<lambda>k. take l (drop (k * l) xs)) [0..<n]) = take (n * l) xs"
proof (induction n)
  case (Suc n)
  have "take (n * l) xs @ take l (drop (n * l) xs) = take (n * l + l) xs" by (rule take_add [symmetric])
  with Suc show ?case by (simp add: add.commute)
qed simp

definition page_request :: "request \<Rightarrow> int \<Rightarrow> nat \<Rightarrow> request" where
  "page_request r l k = r\<lparr>r_Query := (r_Query r)(''limit'' := FormatInt l, ''offset'' := FormatInt (int k * l))\<rparr>"

lemma page_request_page:
  assumes "1 \<le> l" "l \<le> 100" "int k * l \<le> 100000"
  shows "page (page_request r l k) = (l, int k * l)"
proof -
  have "0 \<le> int k * l" using assms by simp
  then have "0 \<le> int k * l \<and> int64_range l \<and> int64_range (int k * l)" using assms(1-3) by (auto simp: int64_range_def simp del: mult_nonneg_nonneg zero_le_mult_iff)
  then show ?thesis
    using assms by (auto simp: page_def page_request_def atoi_value_def ParseInt_FormatInt Let_def simp del: mult_nonneg_nonneg zero_le_mult_iff)
qed

lemma page_request_simps [simp]:
  "user (page_request r l k) = user r" "filters (page_request r l k) = filters r" "since sv (page_request r l k) = since sv r"
  by (simp_all add: user_def filters_def since_def page_request_def)

text \<open>
  C24: reading page by page shows everything once. If a client asks for the list of deliveries (or of dead letters) with the same
  filters, a page size of 1 to 100 and the offsets of \<open>n\<close> consecutive pages, the largest at most 100000, and the database
  answers and does not change in between, then each answer is 200 with its page, and the pages together hold
  every delivery of the user that matches the filters exactly once, newest first, if \<open>n\<close> pages can hold them.
\<close>

theorem pages_complete:
  assumes "1 \<le> l" "l \<le> 100" "int n * l \<le> 100000 + l" and "io_db i 1 = Done"
    and query: "filters r = (p, status0, t, endpoint)" "since sv r = Some start" "status = (if dead then ''dead'' else status0)"
      "list_all (pg_text (sv_pg sv)) [user r, p, status, t, endpoint]"
    and matching: "matching = filter (\<lambda>x. wanted p (ev_project_id (x_ev x)) \<and> wanted status (status_text (d_status (x_d x))) \<and>
        wanted t (ev_type (x_ev x)) \<and> wanted endpoint (ep_id (x_ep x)) \<and> start \<le> d_created_at (x_d x))
      (joined_deliveries (w_db w) (user r))" "length matching \<le> n * nat l"
  shows "\<exists>pages. (\<forall>k < n. deliveryList sv i dead (page_request r l k) w = (w, write_json 200 (any_obj
        [(''items'', JArr (map (\<lambda>x. any_obj (delivery_item sv x)) (pages k))), (''limit'', JNum (FormatInt l)),
         (''offset'', JNum (FormatInt (int k * l)))]))) \<and>
      mset (concat (map pages [0..<n])) = mset matching \<and>
      sorted_wrt (\<lambda>x y. d_created_at (x_d y) \<le> d_created_at (x_d x)) (concat (map pages [0..<n]))"
proof -
  let ?all = "sort_by (newest_first (sv_pg sv) (\<lambda>x. d_created_at (x_d x)) (\<lambda>x. d_id (x_d x))) matching"
  define pages where "pages = (\<lambda>k. take (nat l) (drop (k * nat l) ?all))"
  have texts: "pg_text (sv_pg sv) (user r)" "pg_text (sv_pg sv) p" "pg_text (sv_pg sv) status" "pg_text (sv_pg sv) t"
    "pg_text (sv_pg sv) endpoint" using query(4) by simp_all
  have all: "concat (map pages [0..<n]) = ?all" unfolding pages_def using matching(2) by (simp add: concat_pages)
  have "deliveryList sv i dead (page_request r l k) w = (w, write_json 200 (any_obj
        [(''items'', JArr (map (\<lambda>x. any_obj (delivery_item sv x)) (pages k))), (''limit'', JNum (FormatInt l)),
         (''offset'', JNum (FormatInt (int k * l)))]))" if "k < n" for k
  proof -
    have "int k * l \<le> (int n - 1) * l" using that assms(1) by (intro mult_right_mono) simp_all
    then have "int k * l \<le> 100000" using assms(3) by (simp add: left_diff_distrib)
    note pg = page_request_page [OF assms(1,2) this, of r]
    have "nat (int k * l) = k * nat l" by (simp add: nat_mult_distrib)
    then have "page_of (sv_pg sv) (\<lambda>x. d_created_at (x_d x)) (\<lambda>x. d_id (x_d x)) (page_request r l k) matching = pages k"
      by (simp add: page_of_def pg limit_offset_def pages_def)
    then have "deliveryList sv i dead (page_request r l k) w =
        (w, rows (page_request r l k) (Inr (map (delivery_item sv) (pages k))))"
      by (simp add: deliveryList_def Let_def query(1,2) query(3) [symmetric] query_def assms(4) texts matching(1) [symmetric]
          del: One_nat_def)
    then show ?thesis by (simp add: rows_def pg o_def)
  qed
  then show ?thesis unfolding all [symmetric] by (intro exI [of _ pages]) (simp add: all newest_sorted)
qed

text \<open>Two deliveries, read with a page size of one.\<close>

definition two_deliveries :: world where
  "two_deliveries = sample_world\<lparr>w_db := sample_db\<lparr>deliveries := [sample_delivery,
     sample_delivery\<lparr>d_id := ''dlv_2'', d_endpoint_id := ''ep_2'', d_created_at := 30\<rparr>]\<rparr>\<rparr>"

lemma two_joined: "map (\<lambda>x. d_id (x_d x)) (joined_deliveries (w_db two_deliveries) ''usr_1'') = [''dlv_1'', ''dlv_2'']"
  by (simp add: two_deliveries_def sample_world_def joined_deliveries_def join_delivery_def sample_defs lookup_by_def
      List.map_filter_def event_visible_def owns_project_def)

theorem pages_complete_witness:
  "\<exists>pages :: nat \<Rightarrow> joined list. (\<forall>k < 2. rsp_status (snd (deliveryList sample_server sample_io False (page_request sample_request 1 k) two_deliveries)) = 200) \<and>
     mset (map (\<lambda>x. d_id (x_d x)) (concat (map pages [0..<2]))) = {#''dlv_1'', ''dlv_2''#}"
proof -
  let ?all = "joined_deliveries (w_db two_deliveries) ''usr_1''"
  have d: "0 \<le> d_created_at (x_d x)" if "x \<in> set ?all" for x
  proof -
    have "x_d x \<in> set (deliveries (w_db two_deliveries))"
      using that by (auto simp: joined_deliveries_def join_delivery_def List.map_filter_def split: option.splits)
    then show ?thesis by (auto simp: two_deliveries_def sample_delivery_def)
  qed
  have len: "length ?all = 2" using arg_cong [OF two_joined, of length] by simp
  have r: "filters sample_request = ([], [], [], [])" "since sample_server sample_request = Some 0" "user sample_request = ''usr_1''"
    "io_db sample_io 1 = Done" "list_all (pg_text (sv_pg sample_server)) [''usr_1'', [], [], [], []]"
    by (simp_all add: filters_def since_def sample_request_def user_def sample_io_def sample_server_def sample_pg_def)
  have "filter (\<lambda>x. wanted [] (ev_project_id (x_ev x)) \<and> wanted [] (status_text (d_status (x_d x))) \<and>
        wanted [] (ev_type (x_ev x)) \<and> wanted [] (ep_id (x_ep x)) \<and> 0 \<le> d_created_at (x_d x)) ?all = ?all"
    using d by (simp add: wanted_def)
  with pages_complete [of 1 2 sample_io sample_request "[]" "[]" "[]" "[]" sample_server 0 "[]" False ?all two_deliveries] r len
  obtain pages where p: "\<forall>k < 2. deliveryList sample_server sample_io False (page_request sample_request 1 k) two_deliveries =
      (two_deliveries, write_json 200 (any_obj
        [(''items'', JArr (map (\<lambda>x. any_obj (delivery_item sample_server x)) (pages k))), (''limit'', JNum (FormatInt 1)),
         (''offset'', JNum (FormatInt (int k * 1)))]))" "mset (concat (map pages [0..<2])) = mset ?all" by auto
  have "mset (map (\<lambda>x. d_id (x_d x)) (concat (map pages [0..<2]))) = mset (map (\<lambda>x. d_id (x_d x)) ?all)"
    by (simp only: mset_map p(2))
  also have "\<dots> = {#''dlv_1'', ''dlv_2''#}" by (simp only: two_joined) simp
  finally show ?thesis using p(1) by (intro exI [of _ pages]) (simp add: write_json_def)
qed

end
