(* ===== verification/Worker.thy ===== *)
theory Worker
  imports Queue_Props Security Config Redisx Transport
begin

text \<open>
  \<^verbatim>\<open>src/internal/delivery/worker.go\<close>, the handling of one claimed job: \<open>process\<close> and \<open>deferJob\<close>. What happens around
  one run of \<open>process\<close> is the record \<open>visit\<close>: whether the context is cancelled before and after the request,
  the clocks, the outcomes of the Redis and database calls, whether the URL makes a request, what the
  client returns (\<open>None\<close> is an error) and whether the request's deadline passed. The result is the new
  database and buckets together with the request that was sent, if one was.
\<close>

record visit =
  v_cancelled :: bool
  v_cancelled_after :: bool
  v_now :: time
  v_clock :: int
  v_redis_now :: rat
  v_redis :: outcome
  v_defer :: outcome
  v_request_ok :: bool
  v_response :: "int option"
  v_timed_out :: bool
  v_elapsed :: duration
  v_draw :: "int \<Rightarrow> int"
  v_attempt_id :: string
  v_plan :: plan

record http_request =
  q_Method :: string
  q_URL :: string
  q_Headers :: "(string \<times> string) list"
  q_Body :: bytes

definition deferJob :: "pg \<Rightarrow> visit \<Rightarrow> job \<Rightarrow> string \<Rightarrow> duration \<Rightarrow> db \<Rightarrow> db" where
  "deferJob pg v j status delay s = fst (Defer pg (v_now v) (v_defer v) j status delay s)"

definition signed_request :: "crypto \<Rightarrow> string \<Rightarrow> int \<Rightarrow> job \<Rightarrow> http_request" where
  "signed_request cr secret clock j =
     (let stamp = FormatInt (unix_of clock)
      in \<lparr>q_Method = ''POST'', q_URL = j_URL j,
          q_Headers = [(''Content-Type'', ''application/json''), (''User-Agent'', ''PulseRoute/1.0''),
            (''X-PulseRoute-Event-ID'', j_EventID j), (''X-PulseRoute-Delivery-ID'', j_ID j),
            (''X-PulseRoute-Timestamp'', stamp), (''X-PulseRoute-Signature'', Sign cr secret stamp (j_Payload j))],
          q_Body = j_Payload j\<rparr>)"

definition attempt_result :: "visit \<Rightarrow> int \<times> string" where
  "attempt_result v =
     (let (status, reason) =
            (if v_request_ok v
             then case v_response v of
                    None \<Rightarrow> (0, ''network error'')
                  | Some code \<Rightarrow> (code, if 200 \<le> code \<and> code < 300 then [] else ''HTTP '' @ FormatInt code)
             else (0, ''network error''))
      in (status, if v_timed_out v then ''request timeout'' else reason))"

definition process ::
  "pg \<Rightarrow> crypto \<Rightarrow> config \<Rightarrow> visit \<Rightarrow> job \<Rightarrow> db \<Rightarrow> limits \<Rightarrow> db \<times> limits \<times> http_request option" where
  "process pg cr cfg v j s ls =
     (if v_cancelled v then (s, ls, None)
      else if \<not> j_Active j then (deferJob pg v j ''cancelled'' 0 s, ls, None)
      else
        (let (ls', allowed) = Allow (v_redis_now v) (v_redis v) (''endpoint:'' @ j_EndpointID j) (j_Rate j) (j_Rate j) ls
         in if allowed \<noteq> Inr True then (deferJob pg v j ''retrying'' second s, ls', None)
            else case Decrypt cr (c_EncryptionKey cfg) (j_Secret j) of
                   Inl e \<Rightarrow> (deferJob pg v j ''retrying'' minute s, ls', None)
                 | Inr secret \<Rightarrow>
                     (let req = (if v_request_ok v then Some (signed_request cr secret (v_clock v) j) else None);
                          (status, reason) = attempt_result v
                      in if v_cancelled_after v then (s, ls', req)
                         else (fst (Finish pg (v_draw v) (v_attempt_id v) (v_now v) (v_plan v) j status (v_elapsed v) reason s),
                               ls', req))))"

end
