(* ===== verification/Lifecycle.thy ===== *)
theory Lifecycle
  imports Worker Api_Handler "HOL-Library.Product_Lexorder"
begin

text \<open>
  What a delivery promises over its life, as an abstract machine: \<open>phase\<close> is the state a reader of the API
  sees (with the generation and the number of attempts recorded in it) and \<open>life_step\<close> the moves it may
  make. The operations of the queue, one run of \<open>process\<close> and every request refine it (\<open>follows_life\<close>): each
  moves a delivery by one step of the machine or leaves its phase alone, and loses none.
\<close>

section \<open>The abstract machine\<close>

datatype phase = Waiting int int | In_Flight int int | Delivered int int | Dead_Lettered int int
  | Withdrawn int int

inductive life_step :: "phase \<Rightarrow> phase \<Rightarrow> bool" where
  Take: "life_step (Waiting g n) (In_Flight g n)"
| Postpone: "life_step (In_Flight g n) (Waiting g n)"
| Withdraw: "life_step (In_Flight g n) (Withdrawn g n)"
| Retry: "n + 1 < 10 \<Longrightarrow> life_step (In_Flight g n) (Waiting g (n + 1))"
| Succeed: "n + 1 \<le> 10 \<Longrightarrow> life_step (In_Flight g n) (Delivered g (n + 1))"
| Exhaust: "n + 1 \<le> 10 \<Longrightarrow> life_step (In_Flight g n) (Dead_Lettered g (n + 1))"
| Restart: "life_step (Dead_Lettered g n) (Waiting (g + 1) 0)"

inductive_cases DeliveredE: "life_step (Delivered g n) p"

inductive_cases WithdrawnE: "life_step (Withdrawn g n) p"

inductive_simps life_step_flight: "life_step (In_Flight g n) p"

text \<open>
  Phases are ordered by what can come later. A delivery may wait and be in flight in turns, so this is a preorder; but the
  generation and, within it, the number of attempts never go down.
\<close>

instantiation phase :: preorder
begin

definition less_eq_phase :: "phase \<Rightarrow> phase \<Rightarrow> bool" where
  "p \<le> q \<longleftrightarrow> life_step\<^sup>*\<^sup>* p q"

definition less_phase :: "phase \<Rightarrow> phase \<Rightarrow> bool" where
  "p < q \<longleftrightarrow> p \<le> q \<and> \<not> q \<le> (p :: phase)"

instance
  by standard (auto simp: less_eq_phase_def less_phase_def)

end

lemma life_step_le: "life_step\<^sup>=\<^sup>= p q \<Longrightarrow> p \<le> q"
  by (auto simp: less_eq_phase_def)

fun stage :: "phase \<Rightarrow> int \<times> int" where
  "stage (Waiting g n) = (g, n)"
| "stage (In_Flight g n) = (g, n)"
| "stage (Delivered g n) = (g, n)"
| "stage (Dead_Lettered g n) = (g, n)"
| "stage (Withdrawn g n) = (g, n)"

lemma stage_mono:
  assumes "p \<le> q"
  shows "stage p \<le> stage q"
  using assms unfolding less_eq_phase_def
proof (induction rule: rtranclp_induct)
  case (step q r)
  have "stage q \<le> stage r" using step.hyps(2) by (induction rule: life_step.induct) simp_all
  with step.IH show ?case by (rule order_trans)
qed simp

definition phase_of :: "delivery_row \<Rightarrow> phase" where
  "phase_of d =
     (case d_status d of
        Pending \<Rightarrow> Waiting (d_generation d) (d_attempt_count d)
      | Retrying \<Rightarrow> Waiting (d_generation d) (d_attempt_count d)
      | Processing \<Rightarrow> In_Flight (d_generation d) (d_attempt_count d)
      | Succeeded \<Rightarrow> Delivered (d_generation d) (d_attempt_count d)
      | Dead \<Rightarrow> Dead_Lettered (d_generation d) (d_attempt_count d)
      | Cancelled \<Rightarrow> Withdrawn (d_generation d) (d_attempt_count d))"

lemma stage_of [simp]: "stage (phase_of d) = (d_generation d, d_attempt_count d)"
  by (simp add: phase_of_def split: delivery_status.split)

definition follows_life :: "db \<Rightarrow> db \<Rightarrow> bool" where
  "follows_life s s' \<longleftrightarrow>
     (\<forall>d \<in> set (deliveries s). \<exists>d' \<in> set (deliveries s').
        d_id d' = d_id d \<and> life_step\<^sup>=\<^sup>= (phase_of d) (phase_of d')) \<and>
     (\<forall>d' \<in> set (deliveries s'). d_id d' \<in> d_id ` set (deliveries s) \<or> phase_of d' = Waiting 0 0)"

lemma follows_life_refl [simp]: "follows_life s s"
  by (auto simp: follows_life_def)

lemma follows_life_same: "deliveries s' = deliveries s \<Longrightarrow> follows_life s s'"
  by (auto simp: follows_life_def)

context delivery_update
begin

lemma update_life:
  assumes "\<And>d. d \<in> set (deliveries s) \<Longrightarrow> P d \<Longrightarrow> life_step\<^sup>=\<^sup>= (phase_of d) (phase_of (f d))"
    and s': "deliveries s' = tbl_update P f (deliveries s)"
  shows "follows_life s s'"
proof -
  have "\<exists>d' \<in> set (deliveries s'). d_id d' = d_id d \<and> life_step\<^sup>=\<^sup>= (phase_of d) (phase_of d')"
    if d: "d \<in> set (deliveries s)" for d
  proof (cases "P d")
    case True
    with d have "f d \<in> set (deliveries s')" by (auto simp: s' tbl_simps)
    with assms(1) [OF d True] show ?thesis using f_id by blast
  qed (use d in \<open>auto simp: s' tbl_simps\<close>)
  then show ?thesis
    using pk.keys_update [of P "deliveries s"] unfolding follows_life_def s' by (metis imageI)
qed

end

section \<open>The queue's operations follow it\<close>

lemma phase_claim:
  "due now' d \<Longrightarrow> life_step\<^sup>=\<^sup>= (phase_of d) (phase_of (claim_row token until now d))"
  by (auto simp: phase_of_def due_def intro: life_step.intros)

lemma Claim_life:
  assumes "db_wf s"
  shows "follows_life s (fst (Claim pg lease token now locked oc s))"
  using Claim_state [of pg lease token now locked oc s]
proof (elim disjE bexE conjE)
  fix c
  assume "c \<in> set (deliveries s)" "due now c" and eq: "fst (Claim pg lease token now locked oc s) =
        s\<lparr>deliveries := tbl_update (\<lambda>d. d_id d = d_id c)
            (claim_row token (now + pg_interval pg lease) now) (deliveries s)\<rparr>"
  then have "due now d" if "d \<in> set (deliveries s)" "d_id d = d_id c" for d
    using delivery_id_unique [OF assms] that by metis
  then show ?thesis by (intro claim_upd.update_life phase_claim) (auto simp: eq)
qed simp

lemma phase_owned: "owns j d \<Longrightarrow> phase_of d = In_Flight (d_generation d) (d_attempt_count d)"
  by (simp add: owns_def phase_of_def)

lemma phase_release:
  "phase_of (release_row st n next_at now d) =
     (case st of Pending \<Rightarrow> Waiting (d_generation d) n | Retrying \<Rightarrow> Waiting (d_generation d) n
      | Processing \<Rightarrow> In_Flight (d_generation d) n | Succeeded \<Rightarrow> Delivered (d_generation d) n
      | Dead \<Rightarrow> Dead_Lettered (d_generation d) n | Cancelled \<Rightarrow> Withdrawn (d_generation d) n)"
  by (cases st) (simp_all add: phase_of_def)

lemma Defer_life:
  assumes "status = status_text st" "st \<in> {Retrying, Cancelled}"
  shows "follows_life s (fst (Defer pg now oc j status delay s))"
  using Defer_state [of pg now oc j status delay s]
proof (elim disjE exE conjE)
  fix st'
  assume st': "status_of_text status = Some st'" and eq: "fst (Defer pg now oc j status delay s) =
      s\<lparr>deliveries := tbl_update (owns j) (defer_row st' (now + pg_interval pg delay) now) (deliveries s)\<rparr>"
  have "life_step\<^sup>=\<^sup>= (phase_of d) (phase_of (defer_row st' (now + pg_interval pg delay) now d))" if "owns j d" for d
    using that st' assms by (auto simp: phase_owned phase_release defer_row_def life_step_flight)
  then show ?thesis by (intro defer_upd.update_life) (auto simp: eq)
qed simp

text \<open>What a \<open>Finish\<close> that took effect has written to the queue's tables.\<close>

lemma Finish_cases:
  obtains (Unchanged) "fst (Finish pg draw att now pl j c dur reason s) = s"
  | (Committed) d st delay where "d \<in> set (deliveries s)" "owns j d" "finish_decision draw j c = Some (st, delay)"
    "deliveries (fst (Finish pg draw att now pl j c dur reason s)) = deliveries (finish_update pg now j st delay s)"
    "delivery_attempts (fst (Finish pg draw att now pl j c dur reason s)) =
       delivery_attempts s @ [attempt_of att now j c dur reason]"
proof -
  let ?s' = "fst (Finish pg draw att now pl j c dur reason s)"
  consider "?s' = s" | u where "finish_body pg draw att now pl j c dur reason s = Inr (?s', u)"
    using Finish_state [of pg draw att now pl j c dur reason s] by blast
  then show thesis
  proof cases
    case (2 u)
    then show thesis
    proof (rule finish_body_Inr)
      fix st delay s1
      assume "tbl_count (owns j) (deliveries s) \<noteq> 0" "finish_decision draw j c = Some (st, delay)"
        and "insert_attempt (attempt_of att now j c dur reason) s = Inr s1"
        and "st \<noteq> Dead \<Longrightarrow> ?s' = finish_update pg now j st delay s1"
        and "st = Dead \<Longrightarrow> upsert_dead_letter \<lparr>dl_delivery_id = j_ID j, dl_reason = reason, dl_created_at = now\<rparr>
          (finish_update pg now j st delay s1) = Inr ?s'"
      then show thesis
        by (cases "st = Dead") (auto dest!: insert_attempt_Inr(1) upsert_dead_letter_Inr
            simp: finish_update_def intro: Committed)
    qed
  qed (rule Unchanged)
qed

lemma phase_finish:
  assumes "queue_inv s" and "job_ok s j" and d: "d \<in> set (deliveries s)" "owns j d"
    and "finish_decision draw j c = Some (st, delay)"
  shows "life_step (phase_of d) (phase_of (release_row st (j_Attempt j) next_at now d))"
proof -
  have n: "j_Attempt j = d_attempt_count d + 1" "j_MaxAttempts j \<le> 10"
    using assms(2) d by (auto simp: job_ok_def)
  have "d_attempt_count d \<le> 9"
    using queue_invD [OF assms(1) d(1)] d(2) by (auto simp: delivery_ok_def budget_ok_def owns_def open_status_def)
  with n finish_decision_cases [OF assms(5)] show ?thesis
    by (auto simp: phase_owned [OF d(2)] phase_release life_step_flight)
qed

lemma Finish_life:
  assumes "db_wf s" and "queue_inv s" and "job_ok s j"
  shows "follows_life s (fst (Finish pg draw att now pl j c dur reason s))"
proof (cases rule: Finish_cases [of pg draw att now pl j c dur reason s])
  case (Committed d st delay)
  have "life_step (phase_of x) (phase_of (release_row st (j_Attempt j) (now + pg_interval pg delay) now x))"
    if "x \<in> set (deliveries s)" "d_id x = j_ID j" for x
    using phase_finish [OF assms(2,3) Committed(1-3)] owned_row_unique [OF assms(1) Committed(1,2) that] by simp
  then show ?thesis
    by (intro release_upd.update_life) (use Committed(4) in \<open>auto simp: finish_update_def\<close>)
qed simp

section \<open>So do requests\<close>

lemma rows_kept_life:
  assumes "rows_kept s s'"
  shows "follows_life s s'"
proof -
  have "\<exists>d' \<in> set (deliveries s'). d_id d' = d_id d \<and> life_step\<^sup>=\<^sup>= (phase_of d) (phase_of d')"
    if "d \<in> set (deliveries s)" for d
  proof -
    have "life_step (phase_of d) (phase_of (replay_row now d))" if "d_status d = Dead" for now
      using that by (auto simp: phase_of_def intro: life_step.intros)
    then show ?thesis
      using assms that unfolding rows_kept_def by (metis replay_row_simps(1) sup2CI)
  qed
  moreover have "phase_of d = Waiting 0 0" if "fresh_delivery d" for d
    using that by (simp add: fresh_delivery_def phase_of_def)
  ultimately show ?thesis using assms unfolding follows_life_def rows_kept_def by blast
qed

end
