(* ===== verification/Delivery_System.thy ===== *)
theory Delivery_System
  imports Lifecycle Api_Claims
begin

text \<open>
  The running system: one database with its Redis, any number of API processes and workers. \<open>sy_jobs\<close> are the
  jobs held by worker goroutines anywhere, \<open>sy_tokens\<close> the lease tokens drawn so far. A step is one claim, one
  run of \<open>process\<close> on a held job, the loss of a held job (its process died, or shutdown dropped it), or one
  request. Each of these makes a single change to the queue's tables, so any interleaving of processes is a sequence
  of such steps; between a claim and the \<open>Finish\<close> of its job anything may happen. The only assumption on the lease
  tokens is that a drawn token has not been drawn before (\<^verbatim>\<open>security.Token\<close> takes 32 random bytes). In
  \<^verbatim>\<open>PATCH /api/endpoints/{id}\<close> the read and the write are separate statements; \<open>meanwhile\<close> is what other
  requests do between them (workers neither read nor write what these two statements use). A run starts with no
  worker active on a stored database that has the schema's constraints and the queue's invariant, such as the
  empty one the migrations create (\<open>empty_db_ready\<close>) or the one an earlier run left.
\<close>

record sys =
  sy_world :: world
  sy_jobs :: "job list"
  sy_tokens :: "string list"

abbreviation sy_db :: "sys \<Rightarrow> db" where
  "sy_db y \<equiv> w_db (sy_world y)"

definition sys_boot :: "world \<Rightarrow> sys" where
  "sys_boot w = \<lparr>sy_world = w, sy_jobs = [], sy_tokens = List.map_filter d_lease_token (deliveries (w_db w))\<rparr>"

inductive sys_step :: "server \<Rightarrow> sys \<Rightarrow> sys \<Rightarrow> bool" for sv where
  Claims: "token \<notin> set (sy_tokens y) \<Longrightarrow>
    Claim (sv_pg sv) (c_LeaseDuration (sv_Config sv)) token now locked oc (sy_db y) = (s', res) \<Longrightarrow>
    sys_step sv y (y\<lparr>sy_world := (sy_world y)\<lparr>w_db := s'\<rparr>,
      sy_jobs := (case res of Inl e \<Rightarrow> sy_jobs y | Inr j \<Rightarrow> j # sy_jobs y), sy_tokens := token # sy_tokens y\<rparr>)"
| Works: "j \<in> set (sy_jobs y) \<Longrightarrow>
    process (sv_pg sv) (sv_cr sv) (sv_Config sv) v j (sy_db y) (w_limits (sy_world y)) = (s', ls', req) \<Longrightarrow>
    sys_step sv y (y\<lparr>sy_world := (sy_world y)\<lparr>w_db := s', w_limits := ls'\<rparr>, sy_jobs := remove1 j (sy_jobs y)\<rparr>)"
| Loses: "j \<in> set (sy_jobs y) \<Longrightarrow> sys_step sv y (y\<lparr>sy_jobs := remove1 j (sy_jobs y)\<rparr>)"
| Serves: "(\<And>s. db_step s (meanwhile s)) \<Longrightarrow> Handler sv i meanwhile files r (sy_world y) = (w', rsp) \<Longrightarrow>
    sys_step sv y (y\<lparr>sy_world := w'\<rparr>)"

inductive sys_reachable :: "server \<Rightarrow> sys \<Rightarrow> bool" for sv where
  Start: "db_wf (w_db w) \<Longrightarrow> queue_inv (w_db w) \<Longrightarrow> sys_reachable sv (sys_boot w)"
| Next: "sys_reachable sv y \<Longrightarrow> sys_step sv y y' \<Longrightarrow> sys_reachable sv y'"

section \<open>One run of process\<close>

lemma process_cases:
  assumes "process pg cr cfg v j s ls = (s', ls', req)"
  obtains (Kept) "s' = s"
  | (Deferred) oc status delay where "status = status_text Retrying \<or> status = status_text Cancelled"
    "s' = fst (Defer pg (v_now v) oc j status delay s)"
  | (Finished) code reason where
    "s' = fst (Finish pg (v_draw v) (v_attempt_id v) (v_now v) (v_plan v) j code (v_elapsed v) reason s)"
proof -
  have "s' = s \<or> (\<exists>delay. s' = fst (Defer pg (v_now v) (v_defer v) j ''retrying'' delay s)) \<or>
    (\<exists>delay. s' = fst (Defer pg (v_now v) (v_defer v) j ''cancelled'' delay s)) \<or>
    (\<exists>code reason. s' = fst (Finish pg (v_draw v) (v_attempt_id v) (v_now v) (v_plan v) j code (v_elapsed v) reason s))"
    using assms by (auto simp: process_def deferJob_def Let_def split_beta split: if_splits sum.splits)
  moreover have "status_text Retrying = ''retrying''" "status_text Cancelled = ''cancelled''"
    by (simp_all add: status_text_def)
  ultimately show thesis using that by metis
qed

lemma Finish_wf: "db_wf s \<Longrightarrow> db_wf (fst (Finish pg draw att now pl j c dur reason s))"
  unfolding Finish_def by (rule finish_tx_wf.run_tx_keeps)

lemma Defer_attempts [simp]: "delivery_attempts (fst (Defer pg now oc j status delay s)) = delivery_attempts s"
  using Defer_state [of pg now oc j status delay s] by auto

lemma Defer_leases: "leases_kept s (fst (Defer pg now oc j status delay s))"
  using Defer_state [of pg now oc j status delay s]
  by (auto simp: leases_kept_def defer_row_def elim!: tbl_update_memE)

lemma Finish_leases: "leases_kept s (fst (Finish pg draw att now pl j c dur reason s))"
  by (cases rule: Finish_cases [of pg draw att now pl j c dur reason s])
    (auto simp: leases_kept_def finish_update_def elim!: tbl_update_memE)

text \<open>
  How the history grows: not at all, or by one attempt of a delivery that was in flight, the next in its
  generation.
\<close>

definition history_grows :: "db \<Rightarrow> db \<Rightarrow> bool" where
  "history_grows s s' \<longleftrightarrow>
     delivery_attempts s' = delivery_attempts s \<or>
     (\<exists>d \<in> set (deliveries s). \<exists>a. delivery_attempts s' = delivery_attempts s @ [a] \<and> d_status d = Processing \<and>
        a_delivery_id a = d_id d \<and> a_generation a = d_generation d \<and> a_attempt a = d_attempt_count d + 1)"

lemma Finish_history:
  assumes "job_ok s j"
  shows "history_grows s (fst (Finish pg draw att now pl j c dur reason s))"
proof (cases rule: Finish_cases [of pg draw att now pl j c dur reason s])
  case (Committed d st delay)
  with assms show ?thesis
    unfolding history_grows_def by (intro disjI2 bexI [of _ d]) (auto simp: job_ok_def owns_def attempt_of_def)
qed (simp add: history_grows_def)

lemma process_keeps:
  assumes "process pg cr cfg v j s ls = (s', ls', req)" and "db_wf s" "queue_inv s" "job_ok s j"
  shows "db_wf s' \<and> queue_inv s' \<and> follows_life s s' \<and> leases_kept s s' \<and> history_grows s s'"
  using assms(1)
proof (cases rule: process_cases)
  case Kept
  with assms show ?thesis by (simp add: leases_kept_def history_grows_def)
next
  case (Deferred oc status delay)
  then show ?thesis
    using assms Defer_inv [of s status] Defer_life [of status]
    by (auto simp: Defer_wf Defer_leases history_grows_def)
next
  case (Finished code reason)
  with assms show ?thesis by (simp add: Finish_wf Finish_inv Finish_life Finish_leases Finish_history)
qed

section \<open>The invariant of the running system\<close>

text \<open>
  Beside the schema's constraints and the queue's invariant: every held job agrees with its row as long as
  it owns it, no two held jobs share a token, and every token in use has been drawn.
\<close>

definition sys_inv :: "sys \<Rightarrow> bool" where
  "sys_inv y \<longleftrightarrow>
     db_wf (sy_db y) \<and> queue_inv (sy_db y) \<and>
     (\<forall>j \<in> set (sy_jobs y). job_ok (sy_db y) j \<and> j_Token j \<in> set (sy_tokens y)) \<and>
     distinct (map j_Token (sy_jobs y)) \<and>
     (\<forall>d \<in> set (deliveries (sy_db y)). \<forall>t. d_lease_token d = Some t \<longrightarrow> t \<in> set (sy_tokens y))"

lemma job_ok_kept:
  assumes "job_ok s j"
    and "\<And>d. d \<in> set (deliveries s') \<Longrightarrow> d_lease_token d = Some (j_Token j) \<Longrightarrow> d \<in> set (deliveries s)"
  shows "job_ok s' j"
  using assms by (auto simp: job_ok_def owns_def)

lemma leases_kept_job_ok: "leases_kept s s' \<Longrightarrow> job_ok s j \<Longrightarrow> job_ok s' j"
  by (erule job_ok_kept) (auto simp: leases_kept_def)

text \<open>Steps that only release leases keep what the invariant says of jobs and tokens.\<close>

lemma sys_inv_release:
  assumes "sys_inv y" and "leases_kept (sy_db y) (w_db w')" and "db_wf (w_db w')" "queue_inv (w_db w')"
    and "set js \<subseteq> set (sy_jobs y)" and "distinct (map j_Token js)"
  shows "sys_inv (y\<lparr>sy_world := w', sy_jobs := js\<rparr>)"
proof -
  have "t \<in> set (sy_tokens y)" if "d \<in> set (deliveries (w_db w'))" "d_lease_token d = Some t" for d t
    using assms(1,2) that unfolding sys_inv_def leases_kept_def by (metis option.distinct(1))
  moreover have "job_ok (w_db w') j \<and> j_Token j \<in> set (sy_tokens y)" if "j \<in> set js" for j
    using assms(1,5) that leases_kept_job_ok [OF assms(2)] unfolding sys_inv_def by blast
  ultimately show ?thesis using assms by (simp add: sys_inv_def)
qed

lemma distinct_remove1_map: "distinct (map f xs) \<Longrightarrow> distinct (map f (remove1 x xs))"
  by (induction xs) (auto dest: subsetD [OF set_remove1_subset])

lemma Claim_rows:
  assumes "Claim pg lease token now locked oc s = (s', res)" and "db_wf s" and "d \<in> set (deliveries s')"
  shows "d \<in> set (deliveries s) \<or> d_lease_token d = Some token"
  using Claim_state [of pg lease token now locked oc s] assms by (auto elim!: tbl_update_memE)

lemma Claim_job_ok:
  assumes claim: "Claim pg lease token now locked oc s = (s', Inr j)" and wf: "db_wf s"
  shows "job_ok s' j \<and> j_Token j = token"
  using claim
proof (rule Claim_Inr)
  fix c
  let ?u = "claim_row token (now + pg_interval pg lease) now"
  assume c: "c \<in> set (deliveries s)" and s': "s' = s\<lparr>deliveries := tbl_update (\<lambda>d. d_id d = d_id c) ?u (deliveries s)\<rparr>"
    and job: "job_of token s (?u c) = Some j"
  from wf c obtain e ep where look: "lookup_by ev_id (events s) (d_event_id c) = Some e"
    "lookup_by ep_id (endpoints s) (d_endpoint_id c) = Some ep" and pol: "policy_check ep"
    by (rule delivery_refs)
  have row: "d = ?u c" if "d \<in> set (deliveries s')" "d_id d = d_id c" for d
    using that delivery_id_unique [OF wf c] by (auto simp: s' elim!: tbl_update_memE)
  have j: "j_ID j = d_id c" "j_Token j = token" "j_Attempt j = d_attempt_count c + 1" "j_Generation j = d_generation c"
    "j_MaxAttempts j = ep_max_attempts ep" "j_BaseDelay j = ep_base_delay_seconds ep"
    using job by (auto simp: job_of_def look)
  have "d_attempt_count d = d_attempt_count c \<and> d_generation d = d_generation c"
    if "d \<in> set (deliveries s')" "d_id d = d_id c" for d
    using row [OF that] by simp
  with j pol show ?thesis by (auto simp: job_ok_def owns_def policy_check_def)
qed

lemma sys_inv_claim:
  assumes inv: "sys_inv y" and new: "token \<notin> set (sy_tokens y)"
    and claim: "Claim pg lease token now locked oc (sy_db y) = (s', res)"
  shows "sys_inv (y\<lparr>sy_world := (sy_world y)\<lparr>w_db := s'\<rparr>,
      sy_jobs := (case res of Inl e \<Rightarrow> sy_jobs y | Inr j \<Rightarrow> j # sy_jobs y), sy_tokens := token # sy_tokens y\<rparr>)"
proof -
  have wf: "db_wf (sy_db y)" and q: "queue_inv (sy_db y)" using inv by (simp_all add: sys_inv_def)
  have s': "db_wf s'" "queue_inv s'"
    using Claim_wf [OF wf] Claim_inv [OF wf q] claim by (metis fst_conv)+
  have old: "job_ok s' j" if "j \<in> set (sy_jobs y)" for j
  proof (rule job_ok_kept)
    show "job_ok (sy_db y) j" using inv that by (simp add: sys_inv_def)
    fix d assume "d \<in> set (deliveries s')" "d_lease_token d = Some (j_Token j)"
    with inv that new Claim_rows [OF claim wf] show "d \<in> set (deliveries (sy_db y))"
      by (metis option.inject sys_inv_def)
  qed
  have tok: "t = token \<or> t \<in> set (sy_tokens y)" if "d \<in> set (deliveries s')" "d_lease_token d = Some t" for d t
    using Claim_rows [OF claim wf that(1)] that inv by (auto simp: sys_inv_def)
  have jobs: "\<forall>j \<in> set (sy_jobs y). j_Token j \<in> set (sy_tokens y)" "distinct (map j_Token (sy_jobs y))"
    using inv by (auto simp: sys_inv_def)
  show ?thesis
  proof (cases res)
    case (Inr j)
    with Claim_job_ok [of _ _ _ _ _ _ _ s' j] claim wf have j: "job_ok s' j" "j_Token j = token" by blast+
    have "token \<notin> j_Token ` set (sy_jobs y)" using jobs new by auto
    with s' old tok jobs j show ?thesis by (simp add: sys_inv_def Inr)
  qed (use s' old tok jobs in \<open>simp add: sys_inv_def\<close>)
qed

lemma sys_inv_step:
  assumes "sys_step sv y y'" and inv: "sys_inv y"
  shows "sys_inv y'"
  using assms(1)
proof cases
  case (Claims token now locked oc s' res)
  then show ?thesis using sys_inv_claim [OF inv] by simp
next
  case (Works j v s' ls' req)
  then have "db_wf s' \<and> queue_inv s' \<and> follows_life (sy_db y) s' \<and> leases_kept (sy_db y) s' \<and> history_grows (sy_db y) s'"
    using inv by (intro process_keeps) (auto simp: sys_inv_def)
  with Works inv show ?thesis
    by (auto intro!: sys_inv_release distinct_remove1_map dest: subsetD [OF set_remove1_subset] simp: sys_inv_def [of y])
next
  case (Loses j)
  have "sys_inv (y\<lparr>sy_world := sy_world y, sy_jobs := remove1 j (sy_jobs y)\<rparr>)"
    using inv by (intro sys_inv_release distinct_remove1_map)
      (auto dest: subsetD [OF set_remove1_subset] simp: sys_inv_def leases_kept_def)
  with Loses show ?thesis by simp
next
  case (Serves meanwhile i files r w' rsp)
  have "db_step (sy_db y) (w_db w')"
    using Handler_step [OF Serves(2), of "sy_world y" sv i files r] Serves(3) by simp
  then have "sys_inv (y\<lparr>sy_world := w', sy_jobs := sy_jobs y\<rparr>)"
    using inv by (intro sys_inv_release) (auto simp: sys_inv_def db_step_def)
  with Serves show ?thesis by simp
qed

lemma sys_inv_boot: "db_wf (w_db w) \<Longrightarrow> queue_inv (w_db w) \<Longrightarrow> sys_inv (sys_boot w)"
  by (auto simp: sys_inv_def sys_boot_def List.map_filter_def intro!: image_eqI)

lemma empty_db_ready: "db_wf empty_db \<and> queue_inv empty_db"
  using empty_db_wf by (simp add: queue_inv_def empty_db_def)

lemma sys_reachable_inv: "sys_reachable sv y \<Longrightarrow> sys_inv y"
  by (induction rule: sys_reachable.induct) (auto intro: sys_inv_boot sys_inv_step)

lemma sys_step_life:
  assumes "sys_step sv y y'" and inv: "sys_inv y"
  shows "follows_life (sy_db y) (sy_db y') \<and> history_grows (sy_db y) (sy_db y')"
  using assms(1)
proof cases
  case (Claims token now locked oc s' res)
  let ?c = "Claim (sv_pg sv) (c_LeaseDuration (sv_Config sv)) token now locked oc (sy_db y)"
  have "follows_life (sy_db y) (fst ?c)" using inv by (intro Claim_life) (simp add: sys_inv_def)
  moreover have "delivery_attempts (fst ?c) = delivery_attempts (sy_db y)"
    using Claim_state [of "sv_pg sv" "c_LeaseDuration (sv_Config sv)" token now locked oc "sy_db y"] by auto
  moreover have "fst ?c = s'" using Claims by simp
  ultimately have "follows_life (sy_db y) s'" "delivery_attempts s' = delivery_attempts (sy_db y)" by simp_all
  with Claims show ?thesis by (simp add: history_grows_def)
next
  case (Works j v s' ls' req)
  then have "db_wf s' \<and> queue_inv s' \<and> follows_life (sy_db y) s' \<and> leases_kept (sy_db y) s' \<and> history_grows (sy_db y) s'"
    using inv by (intro process_keeps) (auto simp: sys_inv_def)
  with Works show ?thesis by simp
next
  case (Loses j)
  then show ?thesis by (simp add: history_grows_def)
next
  case (Serves meanwhile i files r w' rsp)
  have "db_step (sy_db y) (w_db w')"
    using Handler_step [OF Serves(2), of "sy_world y" sv i files r] Serves(3) by simp
  then have "rows_kept (sy_db y) (w_db w')" "delivery_attempts (w_db w') = delivery_attempts (sy_db y)"
    using inv by (auto simp: sys_inv_def db_step_def)
  with Serves show ?thesis by (simp add: rows_kept_life history_grows_def)
qed

section \<open>What the system promises\<close>

text \<open>
  C1: in every reachable state of the system, with any number of workers and API processes interleaved in any way, with
  crashes and failing calls anywhere, the database satisfies every constraint of the schema and the queue's
  invariant, and every held job that still owns its row carries that row's generation and next attempt number.
\<close>

theorem system_invariant:
  assumes "sys_reachable sv y"
  shows "db_wf (sy_db y) \<and> queue_inv (sy_db y) \<and> (\<forall>j \<in> set (sy_jobs y). job_ok (sy_db y) j)"
  using sys_reachable_inv [OF assms] by (simp add: sys_inv_def)

definition sample_sys :: sys where
  "sample_sys = \<lparr>sy_world = sample_world\<lparr>w_db := sample_claimed\<rparr>, sy_jobs = [sample_job], sy_tokens = [''lease_a'']\<rparr>"

lemma sample_boot: "sys_reachable sv (sys_boot sample_world)"
  by (rule Start) (simp_all add: sample_world_def sample_db_wf sample_db_inv)

lemma sample_claim_step: "sys_step sample_server (sys_boot sample_world) sample_sys"
proof -
  have "Claim (sv_pg sample_server) (c_LeaseDuration (sv_Config sample_server)) ''lease_a'' 30 (\<lambda>_. False) Done
      (sy_db (sys_boot sample_world)) = (sample_claimed, Inr sample_job)"
    using sample_claim_value
    by (simp add: sample_claim_def sample_server_def sample_config_def sys_boot_def sample_world_def second_def)
  from Claims [OF _ this] show ?thesis
    by (simp add: sample_sys_def sys_boot_def sample_world_def sample_db_def sample_delivery_def List.map_filter_def)
qed

lemma sample_reachable: "sys_reachable sample_server sample_sys"
  by (rule Next [OF sample_boot sample_claim_step])

theorem system_invariant_witness: "job_ok (sy_db sample_sys) sample_job"
  using system_invariant [OF sample_reachable] by (simp add: sample_sys_def)

text \<open>
  Leases exclude each other: of all the jobs held by all workers at most one owns a given delivery; for every other one
  \<open>Finish\<close> and \<open>Defer\<close> change nothing.
\<close>

lemma single_owner:
  assumes "sys_reachable sv y" and "j \<in> set (sy_jobs y)" "k \<in> set (sy_jobs y)" "j \<noteq> k"
    and "d \<in> set (deliveries (sy_db y))" "owns j d" "d_id d = j_ID k"
  shows "\<not> owns k d \<and> fst (Finish pg draw att now pl k c dur reason (sy_db y)) = sy_db y \<and>
    fst (Defer pg now oc k status delay (sy_db y)) = sy_db y"
proof -
  note inv = sys_reachable_inv [OF assms(1)]
  have "j_Token j \<noteq> j_Token k"
    using inv assms(2-4) by (auto simp: sys_inv_def distinct_map dest: inj_onD)
  with assms(6) have "\<not> owns k d" by (auto simp: owns_def)
  moreover have "\<not> owns k x" if "x \<in> set (deliveries (sy_db y))" for x
    using delivery_id_unique [OF _ that assms(5)] inv calculation assms(7) by (metis owns_def sys_inv_def)
  then have none: "tbl_count (owns k) (deliveries (sy_db y)) = 0" by simp
  then have "fst (Defer pg now oc k status delay (sy_db y)) = sy_db y"
    by (simp add: Defer_def del: tbl_count_0)
  moreover have "fst (Finish pg draw att now pl k c dur reason (sy_db y)) = sy_db y"
    using none by (cases rule: Finish_cases [of pg draw att now pl k c dur reason "sy_db y"]) auto
  ultimately show ?thesis by blast
qed

text \<open>The sample job's worker stalls; its lease runs out and another worker claims the delivery.\<close>

definition sample_job2 :: job where
  "sample_job2 = sample_job\<lparr>j_Token := ''lease_b''\<rparr>"

definition sample_leased2 :: delivery_row where
  "sample_leased2 = claim_row ''lease_b'' 130000000 70000000 sample_leased"

definition sample_sys2 :: sys where
  "sample_sys2 = \<lparr>sy_world = sample_world\<lparr>w_db := sample_db\<lparr>deliveries := [sample_leased2]\<rparr>\<rparr>,
     sy_jobs = [sample_job2, sample_job], sy_tokens = [''lease_b'', ''lease_a'']\<rparr>"

lemma sample_reclaim:
  "Claim (sv_pg sample_server) (c_LeaseDuration (sv_Config sample_server)) ''lease_b'' 70000000 (\<lambda>_. False) Done (sy_db sample_sys) =
     (sample_db\<lparr>deliveries := [sample_leased2]\<rparr>, Inr sample_job2)"
  by (simp add: Claim_def candidate_def due_def tbl_update_def sample_server_def sample_config_def sample_sys_def
      sample_world_def second_def sample_claimed_def sample_leased2_def sample_leased_def claim_row_def
      sample_job2_def sample_job_def sample_defs job_of_def lookup_by_def endpoint_live_def apply_out_def)

lemma sample_reclaim_step: "sys_step sample_server sample_sys sample_sys2"
  using Claims [OF _ sample_reclaim] by (simp add: sample_sys_def sample_sys2_def sample_world_def)

lemma sample_reachable2: "sys_reachable sample_server sample_sys2"
  by (rule Next [OF sample_reachable sample_reclaim_step])

text \<open>
  C5: the system refines the life of a delivery. Every step moves every delivery by one step of the abstract
  machine or leaves its phase alone, adds only deliveries that wait in generation 0 with no attempts, and adds to
  the recorded attempts nothing or one attempt, of a delivery that was in flight, the next of its generation.
\<close>

theorem system_refines_life:
  assumes "sys_reachable sv y" and "sys_step sv y y'"
  shows "follows_life (sy_db y) (sy_db y') \<and> history_grows (sy_db y) (sy_db y')"
  by (rule sys_step_life [OF assms(2) sys_reachable_inv [OF assms(1)]])

theorem system_refines_life_witness: "follows_life (sy_db sample_sys) (sy_db sample_sys2)"
  using system_refines_life [OF sample_reachable sample_reclaim_step] by simp

definition settled :: "phase \<Rightarrow> bool" where
  "settled p \<longleftrightarrow> (case p of Delivered g n \<Rightarrow> True | Withdrawn g n \<Rightarrow> True | _ \<Rightarrow> False)"

lemma settled_stays: "settled p \<Longrightarrow> life_step\<^sup>=\<^sup>= p q \<Longrightarrow> q = p"
  by (cases p) (auto simp: settled_def elim: DeliveredE WithdrawnE)

definition attempts_of :: "string \<Rightarrow> db \<Rightarrow> attempt_row list" where
  "attempts_of k s = filter (\<lambda>a. a_delivery_id a = k) (delivery_attempts s)"

lemma history_settled:
  assumes "history_grows s s'" and "db_wf s" and d: "d \<in> set (deliveries s)" "settled (phase_of d)"
  shows "attempts_of (d_id d) s' = attempts_of (d_id d) s"
proof -
  have "d_status d \<noteq> Processing" using d(2) by (auto simp: settled_def phase_of_def)
  with assms d(1) show ?thesis
    unfolding history_grows_def attempts_of_def using delivery_id_unique [OF assms(2)] by fastforce
qed

lemma run_life:
  assumes "(sys_step sv)\<^sup>*\<^sup>* y y'" and "sys_inv y" and "d \<in> set (deliveries (sy_db y))"
  shows "\<exists>d' \<in> set (deliveries (sy_db y')). d_id d' = d_id d \<and> phase_of d \<le> phase_of d' \<and>
    (settled (phase_of d) \<longrightarrow> phase_of d' = phase_of d \<and> attempts_of (d_id d) (sy_db y') = attempts_of (d_id d) (sy_db y))"
  using assms
proof (induction arbitrary: d rule: converse_rtranclp_induct)
  case (step y z)
  note inv = sys_inv_step [OF step.hyps(1) step.prems(1)]
  note life = sys_step_life [OF step.hyps(1) step.prems(1)]
  obtain e where e: "e \<in> set (deliveries (sy_db z))" "d_id e = d_id d" "life_step\<^sup>=\<^sup>= (phase_of d) (phase_of e)"
    using life step.prems(2) unfolding follows_life_def by blast
  from step.IH [OF inv e(1)] obtain d' where d': "d' \<in> set (deliveries (sy_db y'))" "d_id d' = d_id e"
    "phase_of e \<le> phase_of d'" "settled (phase_of e) \<longrightarrow> phase_of d' = phase_of e \<and>
      attempts_of (d_id e) (sy_db y') = attempts_of (d_id e) (sy_db z)" by blast
  have "phase_of d \<le> phase_of d'"
    using life_step_le [OF e(3)] d'(3) by (rule order_trans)
  moreover have "phase_of d' = phase_of d \<and> attempts_of (d_id d) (sy_db y') = attempts_of (d_id d) (sy_db y)"
    if "settled (phase_of d)"
    using settled_stays [OF that e(3)] that d'(4) e(2) history_settled [OF _ _ step.prems(2) that] life step.prems(1)
    by (simp add: sys_inv_def)
  ultimately show ?case using d' e(2) by metis
qed (auto intro: bexI)

text \<open>
  C4: no accepted delivery is ever lost, and a settled one stays settled. Along every run of the system a delivery
  stays in the table under its id and moves only along the abstract machine, its generation and, within one, its
  number of attempts never going down; once it has succeeded (or was
  withdrawn because its endpoint was paused or deleted) its phase never changes again and no further attempt of
  it is recorded.
\<close>

theorem deliveries_never_lost:
  assumes "sys_reachable sv y" and "(sys_step sv)\<^sup>*\<^sup>* y y'" and "d \<in> set (deliveries (sy_db y))"
  shows "\<exists>d' \<in> set (deliveries (sy_db y')). d_id d' = d_id d \<and> phase_of d \<le> phase_of d' \<and>
    (d_generation d, d_attempt_count d) \<le> (d_generation d', d_attempt_count d') \<and>
    (settled (phase_of d) \<longrightarrow> phase_of d' = phase_of d \<and> attempts_of (d_id d) (sy_db y') = attempts_of (d_id d) (sy_db y))"
proof -
  obtain d' where d': "d' \<in> set (deliveries (sy_db y'))" "d_id d' = d_id d" "phase_of d \<le> phase_of d'"
    "settled (phase_of d) \<longrightarrow> phase_of d' = phase_of d \<and> attempts_of (d_id d) (sy_db y') = attempts_of (d_id d) (sy_db y)"
    using run_life [OF assms(2) sys_reachable_inv [OF assms(1)] assms(3)] by blast
  from stage_mono [OF d'(3)] have "(d_generation d, d_attempt_count d) \<le> (d_generation d', d_attempt_count d')" by (simp only: stage_of)
  with d' show ?thesis by blast
qed

theorem deliveries_never_lost_witness:
  "\<exists>d' \<in> set (deliveries (sy_db sample_sys2)). d_id d' = ''dlv_1'' \<and> Waiting 0 0 \<le> phase_of d'"
  using deliveries_never_lost [OF sample_boot rtranclp.rtrancl_into_rtrancl [OF r_into_rtranclp [where r = "sys_step sample_server"]],
      OF sample_claim_step sample_reclaim_step, of sample_delivery]
  by (simp add: sys_boot_def sample_world_def sample_db_def) (auto simp: sample_delivery_def phase_of_def)

end
