(* ===== verification/Leases.thy ===== *)
theory Leases
  imports Delivery_System
begin

text \<open>
  The lease and the timeout of a request together, over the running system. \<open>steps_by sv u\<close> are the steps of the
  system in which no claim is made later than \<open>u\<close>; during them a row leased beyond \<open>u\<close> is left exactly as its claim
  wrote it, until the job itself is processed or lost.
\<close>

inductive steps_by :: "server \<Rightarrow> time \<Rightarrow> sys \<Rightarrow> sys \<Rightarrow> bool" for sv u where
  By_claim: "token \<notin> set (sy_tokens y) \<Longrightarrow> now \<le> u \<Longrightarrow>
    Claim (sv_pg sv) (c_LeaseDuration (sv_Config sv)) token now locked oc (sy_db y) = (s', res) \<Longrightarrow>
    steps_by sv u y (y\<lparr>sy_world := (sy_world y)\<lparr>w_db := s'\<rparr>,
      sy_jobs := (case res of Inl e \<Rightarrow> sy_jobs y | Inr j \<Rightarrow> j # sy_jobs y), sy_tokens := token # sy_tokens y\<rparr>)"
| By_other: "sys_step sv y y' \<Longrightarrow> sy_tokens y' = sy_tokens y \<Longrightarrow> steps_by sv u y y'"

lemma steps_by_sys: "steps_by sv u y y' \<Longrightarrow> sys_step sv y y'"
  by (auto elim!: steps_by.cases intro: sys_step.Claims)

section \<open>A leased row\<close>

definition leased_beyond :: "time \<Rightarrow> job \<Rightarrow> delivery_row \<Rightarrow> bool" where
  "leased_beyond u j d \<longleftrightarrow> owns j d \<and> (\<exists>v \<ge> u. d_lease_until d = Some v)"

lemma leased_not_due: "leased_beyond u j d \<Longrightarrow> now \<le> u \<Longrightarrow> \<not> due now d"
  by (auto simp: leased_beyond_def owns_def due_def)

lemma update_leaves: "d \<in> set ds \<Longrightarrow> \<not> P d \<Longrightarrow> d \<in> set (tbl_update P f ds)"
  by (simp add: set_tbl_update)

lemma Claim_leaves_leased:
  assumes "db_wf s" and d: "d \<in> set (deliveries s)" "leased_beyond u j d" and "now \<le> u"
  shows "d \<in> set (deliveries (fst (Claim pg lease token now locked oc s)))"
  using Claim_state [of pg lease token now locked oc s]
proof
  assume "\<exists>c \<in> set (deliveries s). due now c \<and> \<not> locked (d_id c) \<and> fst (Claim pg lease token now locked oc s) =
      s\<lparr>deliveries := tbl_update (\<lambda>d. d_id d = d_id c) (claim_row token (now + pg_interval pg lease) now) (deliveries s)\<rparr>"
  then obtain c where c: "c \<in> set (deliveries s)" "due now c" and eq: "fst (Claim pg lease token now locked oc s) =
      s\<lparr>deliveries := tbl_update (\<lambda>d. d_id d = d_id c) (claim_row token (now + pg_interval pg lease) now) (deliveries s)\<rparr>" by blast
  have "c \<noteq> d" using c leased_not_due [OF d(2) assms(4)] by blast
  with delivery_id_unique [OF assms(1) c(1) d(1)] have "d_id d \<noteq> d_id c" by blast
  with d(1) show ?thesis by (simp add: eq update_leaves)
qed (use d in simp)

lemma process_leaves_leased:
  assumes "process pg cr cfg v k s ls = (s', ls', req)" and d: "d \<in> set (deliveries s)"
    and other: "d_lease_token d \<noteq> Some (j_Token k)"
  shows "d \<in> set (deliveries s')"
  using assms(1)
proof (cases rule: process_cases)
  case (Deferred oc status delay)
  with Defer_state [of pg "v_now v" oc k status delay s] d other show ?thesis by (auto simp: owns_def intro!: update_leaves)
next
  case (Finished code reason)
  then show ?thesis
    using d other by (cases rule: Finish_cases [of pg "v_draw v" "v_attempt_id v" "v_now v" "v_plan v" k code "v_elapsed v" reason s])
      (simp_all add: finish_update_def update_leaves)
qed (use d in simp)

section \<open>Along a run\<close>

text \<open>A held job was held before, unless it has just been claimed.\<close>

lemma held_before:
  assumes "steps_by sv u y y'" and inv: "sys_inv y" and "j \<in> set (sy_jobs y')" "j_Token j \<in> set (sy_tokens y)"
  shows "j \<in> set (sy_jobs y) \<and> j_Token j \<in> set (sy_tokens y')"
  using assms(1)
proof cases
  case (By_claim token now locked oc s' res)
  have "j_Token k = token" if "res = Inr k" for k
    using Claim_job_ok [of _ _ _ _ _ _ _ s' k] By_claim that inv by (auto simp: sys_inv_def)
  with By_claim assms show ?thesis by (auto split: sum.splits)
next
  case By_other
  from By_other(1) show ?thesis
  proof cases
    case (Claims token now locked oc s' res)
    then have "length (sy_tokens y') = Suc (length (sy_tokens y))" by simp
    with By_other(2) show ?thesis by simp
  qed (use assms(3,4) in \<open>auto dest: subsetD [OF set_remove1_subset]\<close>)
qed

lemma leased_row_stays:
  assumes "steps_by sv u y y'" and inv: "sys_inv y" and j: "j \<in> set (sy_jobs y)" "j \<in> set (sy_jobs y')"
    and d: "d \<in> set (deliveries (sy_db y))" "leased_beyond u j d"
  shows "d \<in> set (deliveries (sy_db y'))"
  using assms(1)
proof cases
  case (By_claim token now locked oc s' res)
  have "d \<in> set (deliveries (fst (Claim (sv_pg sv) (c_LeaseDuration (sv_Config sv)) token now locked oc (sy_db y))))"
    using inv by (intro Claim_leaves_leased [OF _ d By_claim(3)]) (simp add: sys_inv_def)
  with By_claim show ?thesis by simp
next
  case By_other
  from By_other(1) show ?thesis
  proof cases
    case (Claims token now locked oc s' res)
    then have "length (sy_tokens y') = Suc (length (sy_tokens y))" by simp
    with By_other(2) show ?thesis by simp
  next
    case (Works k v s' ls' req)
    have "k \<noteq> j" using Works j inv by (auto simp: sys_inv_def distinct_map)
    with j Works inv have "j_Token k \<noteq> j_Token j" by (auto simp: sys_inv_def distinct_map dest: inj_onD)
    with d have "d_lease_token d \<noteq> Some (j_Token k)" by (auto simp: leased_beyond_def owns_def)
    with process_leaves_leased [OF Works(3) d(1)] Works show ?thesis by simp
  next
    case (Serves meanwhile i files r w' rsp)
    have "db_step (sy_db y) (w_db w')"
      using Handler_step [OF Serves(2), of "sy_world y" sv i files r] Serves(3) by simp
    then have "rows_kept (sy_db y) (w_db w')" using inv by (auto simp: sys_inv_def db_step_def)
    with d Serves show ?thesis by (auto simp: rows_kept_def leased_beyond_def owns_def)
  qed (use d in simp)
qed

lemma leased_run:
  assumes "(steps_by sv u)\<^sup>*\<^sup>* y z" and "sys_inv y" "j \<in> set (sy_jobs y)" and "j \<in> set (sy_jobs z)"
    and "d \<in> set (deliveries (sy_db y))" "leased_beyond u j d"
  shows "d \<in> set (deliveries (sy_db z))"
  using assms
proof (induction rule: converse_rtranclp_induct)
  case (step y y')
  have inv: "sys_inv y'" using sys_inv_step [OF steps_by_sys [OF step(1)] step(4)] .
  have held: "j \<in> set (sy_jobs x)" if "(steps_by sv u)\<^sup>*\<^sup>* x z" "sys_inv x" "j_Token j \<in> set (sy_tokens x)" for x
    using that(1,2,3)
  proof (induction rule: converse_rtranclp_induct)
    case (step x x')
    have "j_Token j \<in> set (sy_tokens x')"
      using step(1,5) by (cases rule: steps_by.cases) auto
    with step.IH [OF sys_inv_step [OF steps_by_sys [OF step(1)] step(4)]] held_before [OF step(1,4) _ step(5)]
    show ?case by blast
  qed (use step.prems in simp)
  have "j_Token j \<in> set (sy_tokens y')"
    using step(1,4,5) by (cases rule: steps_by.cases) (auto simp: sys_inv_def)
  with held [OF step(2) inv] have "j \<in> set (sy_jobs y')" .
  with step.IH [OF inv] leased_row_stays [OF step(1,4,5)] step.prems show ?case by blast
qed

lemma Claim_leases:
  assumes "Claim pg lease token now locked oc s = (s', Inr j)" and "u \<le> now + pg_interval pg lease"
  shows "\<exists>d \<in> set (deliveries s'). leased_beyond u j d"
  using assms(1)
proof (rule Claim_Inr)
  fix c
  let ?u = "claim_row token (now + pg_interval pg lease) now"
  assume c: "c \<in> set (deliveries s)" and s': "s' = s\<lparr>deliveries := tbl_update (\<lambda>d. d_id d = d_id c) ?u (deliveries s)\<rparr>"
    and job: "job_of token s (?u c) = Some j"
  from c have "?u c \<in> set (deliveries s')" by (auto simp: s' set_tbl_update)
  moreover have "leased_beyond u j (?u c)"
    using job assms(2) by (auto simp: leased_beyond_def owns_def job_of_def split: option.splits)
  ultimately show ?thesis ..
qed

text \<open>
  C8: a lease outlives the requests made under it. With a configuration that \<open>Load\<close> accepts (and three timeouts in 64
  bits), a job that has been claimed stays the owner of its delivery for three HTTP timeouts, whatever claims, other workers,
  crashes and requests come between: as long as the job is held, its row is owned by it, and no claim up to that instant finds
  the row due. So a worker whose request times out still records its result.
\<close>

theorem lease_outlives_request:
  assumes config: "Load getenv = Inr (sv_Config sv)" "3 * c_HTTPTimeout (sv_Config sv) < 2 ^ 63"
    and interval: "\<forall>a b. a \<le> b \<longrightarrow> pg_interval (sv_pg sv) a \<le> pg_interval (sv_pg sv) b"
    and run: "sys_reachable sv y" "token \<notin> set (sy_tokens y)"
    and claim: "Claim (sv_pg sv) (c_LeaseDuration (sv_Config sv)) token now locked oc (sy_db y) = (s', Inr j)"
    and "until = now + pg_interval (sv_pg sv) (3 * c_HTTPTimeout (sv_Config sv))"
    and later: "(steps_by sv until)\<^sup>*\<^sup>* (y\<lparr>sy_world := (sy_world y)\<lparr>w_db := s'\<rparr>, sy_jobs := j # sy_jobs y,
        sy_tokens := token # sy_tokens y\<rparr>) z" "j \<in> set (sy_jobs z)"
  shows "\<exists>d \<in> set (deliveries (sy_db z)). owns j d \<and> (\<forall>t \<le> until. \<not> due t d)"
proof -
  let ?y = "y\<lparr>sy_world := (sy_world y)\<lparr>w_db := s'\<rparr>, sy_jobs := j # sy_jobs y, sy_tokens := token # sy_tokens y\<rparr>"
  have "3 * c_HTTPTimeout (sv_Config sv) \<le> c_LeaseDuration (sv_Config sv)" by (rule config_lease [OF config])
  with interval have "until \<le> now + pg_interval (sv_pg sv) (c_LeaseDuration (sv_Config sv))" by (simp add: assms(7))
  from Claim_leases [OF claim this] obtain d where d: "d \<in> set (deliveries s')" "leased_beyond until j d" ..
  have "sys_inv ?y" using sys_inv_claim [OF sys_reachable_inv [OF run(1)] run(2) claim] by simp
  from leased_run [OF later(1) this _ later(2)] d have "d \<in> set (deliveries (sy_db z))" by simp
  with d(2) leased_not_due [OF d(2)] show ?thesis unfolding leased_beyond_def by blast
qed

text \<open>The sample job under the default configuration; another worker asks for a job while the request is running.\<close>

definition loaded_server :: server where
  "loaded_server = sample_server\<lparr>sv_Config := (case Load sample_env of Inr c \<Rightarrow> c | Inl e \<Rightarrow> sample_config)\<rparr>"

lemma loaded_config: "Load sample_env = Inr (sv_Config loaded_server)" "sv_pg loaded_server = sample_pg"
    "c_HTTPTimeout (sv_Config loaded_server) = 10 * second" "c_LeaseDuration (sv_Config loaded_server) = 60 * second"
proof -
  have "case Load sample_env of Inl e \<Rightarrow> False | Inr c \<Rightarrow> c_HTTPTimeout c = 10 * second \<and> c_LeaseDuration c = 60 * second"
    by (simp add: load_sample_defs load_sample) (simp add: load_sample_defs sample_env_def)
  then obtain c where "Load sample_env = Inr c" "c_HTTPTimeout c = 10 * second" "c_LeaseDuration c = 60 * second"
    by (cases "Load sample_env") auto
  then show "Load sample_env = Inr (sv_Config loaded_server)" "sv_pg loaded_server = sample_pg"
    "c_HTTPTimeout (sv_Config loaded_server) = 10 * second" "c_LeaseDuration (sv_Config loaded_server) = 60 * second"
    by (simp_all add: loaded_server_def sample_server_def)
qed

lemma sample_other_claim:
  "(steps_by loaded_server 30000030)\<^sup>*\<^sup>* sample_sys (sample_sys\<lparr>sy_tokens := ''lease_b'' # sy_tokens sample_sys\<rparr>)"
proof -
  have "Claim (sv_pg loaded_server) (c_LeaseDuration (sv_Config loaded_server)) ''lease_b'' 50 (\<lambda>_. False) Done (sy_db sample_sys) =
      (sy_db sample_sys, Inl ErrNoRows)"
    by (simp add: Claim_def candidate_def due_def sample_sys_def sample_world_def sample_claimed_def sample_leased_def claim_row_def
        sample_defs)
  from By_claim [OF _ _ this, of 30000030] have "steps_by loaded_server 30000030 sample_sys (sample_sys\<lparr>sy_tokens := ''lease_b'' # sy_tokens sample_sys\<rparr>)"
    by (simp add: sample_sys_def)
  then show ?thesis by (rule r_into_rtranclp)
qed

theorem lease_outlives_request_witness:
  "\<exists>d \<in> set (deliveries (sy_db (sample_sys\<lparr>sy_tokens := [''lease_b'', ''lease_a'']\<rparr>))). owns sample_job d \<and> \<not> due 30000030 d"
proof -
  let ?y = "sys_boot sample_world"
  have claim: "Claim (sv_pg loaded_server) (c_LeaseDuration (sv_Config loaded_server)) ''lease_a'' 30 (\<lambda>_. False) Done (sy_db ?y) =
      (sample_claimed, Inr sample_job)"
    using sample_claim_value by (simp add: sample_claim_def loaded_config second_def sys_boot_def sample_world_def)
  have new: "''lease_a'' \<notin> set (sy_tokens ?y)"
    by (simp add: sys_boot_def sample_world_def sample_db_def sample_delivery_def List.map_filter_def)
  have y: "?y\<lparr>sy_world := (sy_world ?y)\<lparr>w_db := sample_claimed\<rparr>, sy_jobs := sample_job # sy_jobs ?y, sy_tokens := ''lease_a'' # sy_tokens ?y\<rparr>
      = sample_sys"
    by (simp add: sample_sys_def sys_boot_def sample_world_def sample_db_def sample_delivery_def List.map_filter_def)
  have "30000030 = 30 + pg_interval (sv_pg loaded_server) (3 * c_HTTPTimeout (sv_Config loaded_server))"
    by (simp add: loaded_config sample_pg_def second_def)
  from lease_outlives_request [OF loaded_config(1) _ _ sample_boot new claim this, unfolded y, OF _ _ sample_other_claim]
  show ?thesis by (simp add: loaded_config second_def sample_pg_def sample_sys_def zdiv_mono1) blast
qed

end
