(* ===== verification/Runs.thy ===== *)
theory Runs
  imports Prelude
begin

text \<open>
  What the concurrent parts share: lists of goroutines updated one at a time, and the interface \<open>draining\<close> of a step
  relation that comes to rest: an invariant, a measure every step lowers, and a possible step in every state
  that is not final. It gives that some run ends in a final state and that no run is infinite.
\<close>

lemma sum_list_swap:
  fixes f :: "'a \<Rightarrow> 'b :: comm_monoid_add"
  assumes "i < length ws"
  shows "sum_list (map f (ws[i := w])) + f (ws ! i) = sum_list (map f ws) + f w"
  using assms
proof (induction ws arbitrary: i)
  case (Cons a ws)
  then show ?case by (cases i) (simp_all add: ac_simps)
qed simp

lemma sum_list_ge: "i < length ws \<Longrightarrow> f (ws ! i) \<le> (sum_list (map f ws) :: nat)"
proof (induction ws arbitrary: i)
  case (Cons a ws)
  then show ?case by (cases i) (auto intro: trans_le_add2)
qed simp

locale draining =
  fixes step :: "'s \<Rightarrow> 's \<Rightarrow> bool"
    and ok :: "'s \<Rightarrow> bool"
    and work :: "'s \<Rightarrow> nat"
    and final :: "'s \<Rightarrow> bool"
  assumes ok_step: "ok s \<Longrightarrow> step s s' \<Longrightarrow> ok s'"
    and work_step: "ok s \<Longrightarrow> step s s' \<Longrightarrow> work s' < work s"
    and progress: "ok s \<Longrightarrow> \<not> final s \<Longrightarrow> \<exists>s'. step s s'"
begin

lemma reaches_final:
  assumes "ok s"
  shows "\<exists>s'. step\<^sup>*\<^sup>* s s' \<and> ok s' \<and> final s'"
  using assms
proof (induction "work s" arbitrary: s rule: less_induct)
  case less
  show ?case
  proof (cases "final s")
    case False
    with progress less.prems obtain t where t: "step s t" by blast
    with less ok_step work_step obtain s' where "step\<^sup>*\<^sup>* t s'" "ok s'" "final s'" by blast
    with t show ?thesis by (meson converse_rtranclp_into_rtranclp)
  qed (use less.prems in blast)
qed

lemma no_infinite_run:
  assumes "ok (run 0)"
  shows "\<exists>n. \<not> step (run n) (run (Suc n))"
proof (rule ccontr)
  assume "\<not> ?thesis"
  then have s: "step (run n) (run (Suc n))" for n by blast
  have "ok (run n) \<and> work (run n) + n \<le> work (run 0)" for n
  proof (induction n)
    case (Suc n)
    with ok_step [OF _ s [of n]] work_step [OF _ s [of n]] show ?case by (auto simp: less_eq_Suc_le)
  qed (use assms in simp)
  from this [of "Suc (work (run 0))"] show False by simp
qed

end

text \<open>
  A forward simulation: every step of the concrete system, from a state that is \<open>ok\<close>, is matched by any number of steps of
  the abstract one between the states' abstractions. Then whole runs are matched.
\<close>

locale simulates =
  fixes step :: "'c \<Rightarrow> 'c \<Rightarrow> bool"
    and ok :: "'c \<Rightarrow> bool"
    and astep :: "'a \<Rightarrow> 'a \<Rightarrow> bool"
    and abs :: "'c \<Rightarrow> 'a"
  assumes keeps_ok: "ok s \<Longrightarrow> step s s' \<Longrightarrow> ok s'"
    and matched: "ok s \<Longrightarrow> step s s' \<Longrightarrow> astep\<^sup>*\<^sup>* (abs s) (abs s')"
begin

lemma run_matched: "step\<^sup>*\<^sup>* s s' \<Longrightarrow> ok s \<Longrightarrow> ok s' \<and> astep\<^sup>*\<^sup>* (abs s) (abs s')"
proof (induction rule: rtranclp_induct)
  case (step t u)
  with keeps_ok [of t u] matched [of t u] show ?case by (blast intro: rtranclp_trans)
qed blast

end

end
