(* ===== verification/Pool.thy ===== *)
theory Pool
  imports Queue Runs "HOL-Library.Multiset"
begin

text \<open>
  \<open>Worker.Run\<close> of \<^verbatim>\<open>src/internal/delivery/worker.go\<close>: one claiming loop and \<open>N\<close> worker goroutines, joined by the
  channel \<^verbatim>\<open>jobs\<close> (capacity \<open>N\<close>) and the channel \<^verbatim>\<open>slots\<close> (capacity \<open>N\<close>, used as a semaphore). A step of
  \<open>pool_step\<close> is one channel operation or one return of a call of one goroutine; any interleaving is a
  run. \<open>pl_main\<close> is where the claiming loop stands, \<open>pl_workers\<close> where each worker stands. A channel
  operation is enabled when Go would not block on it. \<open>pl_claimed\<close>, \<open>pl_processed\<close> and \<open>pl_dropped\<close> record
  the jobs that were claimed, handled by a worker, and given up on shutdown.
\<close>

datatype main_state = Selecting | Claiming | Sending job | Pausing | Draining | Returned

datatype worker_state = W_Idle | W_Busy job | W_Freeing | W_Done

record pool =
  pl_slots :: nat
  pl_jobs :: "job list"
  pl_closed :: bool
  pl_cancelled :: bool
  pl_main :: main_state
  pl_workers :: "worker_state list"
  pl_claimed :: "job list"
  pl_processed :: "job list"
  pl_dropped :: "job list"

definition pool_init :: "nat \<Rightarrow> pool" where
  "pool_init N = \<lparr>pl_slots = 0, pl_jobs = [], pl_closed = False, pl_cancelled = False, pl_main = Selecting,
     pl_workers = replicate N W_Idle, pl_claimed = [], pl_processed = [], pl_dropped = []\<rparr>"

inductive pool_step :: "nat \<Rightarrow> pool \<Rightarrow> pool \<Rightarrow> bool" for N where
  Cancel: "\<not> pl_cancelled s \<Longrightarrow> pool_step N s (s\<lparr>pl_cancelled := True\<rparr>)"
| Acquire: "pl_main s = Selecting \<Longrightarrow> pl_slots s < N \<Longrightarrow>
    pool_step N s (s\<lparr>pl_slots := pl_slots s + 1, pl_main := Claiming\<rparr>)"
| Stop_select: "pl_main s = Selecting \<Longrightarrow> pl_cancelled s \<Longrightarrow>
    pool_step N s (s\<lparr>pl_main := Draining, pl_closed := True\<rparr>)"
| Claimed: "pl_main s = Claiming \<Longrightarrow>
    pool_step N s (s\<lparr>pl_main := Sending j, pl_claimed := j # pl_claimed s\<rparr>)"
| Claim_failed: "pl_main s = Claiming \<Longrightarrow> 0 < pl_slots s \<Longrightarrow>
    pool_step N s (s\<lparr>pl_slots := pl_slots s - 1, pl_main := Pausing\<rparr>)"
| Tick: "pl_main s = Pausing \<Longrightarrow> pool_step N s (s\<lparr>pl_main := Selecting\<rparr>)"
| Stop_pause: "pl_main s = Pausing \<Longrightarrow> pl_cancelled s \<Longrightarrow>
    pool_step N s (s\<lparr>pl_main := Draining, pl_closed := True\<rparr>)"
| Send: "pl_main s = Sending j \<Longrightarrow> length (pl_jobs s) < N \<Longrightarrow>
    pool_step N s (s\<lparr>pl_jobs := pl_jobs s @ [j], pl_main := Selecting\<rparr>)"
| Stop_send: "pl_main s = Sending j \<Longrightarrow> pl_cancelled s \<Longrightarrow> 0 < pl_slots s \<Longrightarrow>
    pool_step N s (s\<lparr>pl_slots := pl_slots s - 1, pl_main := Draining, pl_closed := True, pl_dropped := j # pl_dropped s\<rparr>)"
| Take: "i < length (pl_workers s) \<Longrightarrow> pl_workers s ! i = W_Idle \<Longrightarrow> pl_jobs s = j # js \<Longrightarrow>
    pool_step N s (s\<lparr>pl_jobs := js, pl_workers := (pl_workers s)[i := W_Busy j]\<rparr>)"
| Processed: "i < length (pl_workers s) \<Longrightarrow> pl_workers s ! i = W_Busy j \<Longrightarrow>
    pool_step N s (s\<lparr>pl_workers := (pl_workers s)[i := W_Freeing], pl_processed := j # pl_processed s\<rparr>)"
| Free: "i < length (pl_workers s) \<Longrightarrow> pl_workers s ! i = W_Freeing \<Longrightarrow> 0 < pl_slots s \<Longrightarrow>
    pool_step N s (s\<lparr>pl_slots := pl_slots s - 1, pl_workers := (pl_workers s)[i := W_Idle]\<rparr>)"
| Exit: "i < length (pl_workers s) \<Longrightarrow> pl_workers s ! i = W_Idle \<Longrightarrow> pl_closed s \<Longrightarrow> pl_jobs s = [] \<Longrightarrow>
    pool_step N s (s\<lparr>pl_workers := (pl_workers s)[i := W_Done]\<rparr>)"
| Return: "pl_main s = Draining \<Longrightarrow> (\<forall>w \<in> set (pl_workers s). w = W_Done) \<Longrightarrow>
    pool_step N s (s\<lparr>pl_main := Returned\<rparr>)"

inductive pool_reachable :: "nat \<Rightarrow> pool \<Rightarrow> bool" for N where
  Init: "pool_reachable N (pool_init N)"
| Step: "pool_reachable N s \<Longrightarrow> pool_step N s s' \<Longrightarrow> pool_reachable N s'"

section \<open>Slots account for jobs\<close>

fun main_slots :: "main_state \<Rightarrow> nat" where
  "main_slots Claiming = 1"
| "main_slots (Sending j) = 1"
| "main_slots m = 0"

fun worker_slots :: "worker_state \<Rightarrow> nat" where
  "worker_slots (W_Busy j) = 1"
| "worker_slots W_Freeing = 1"
| "worker_slots w = 0"

fun main_jobs :: "main_state \<Rightarrow> job multiset" where
  "main_jobs (Sending j) = {#j#}"
| "main_jobs m = {#}"

fun worker_jobs :: "worker_state \<Rightarrow> job multiset" where
  "worker_jobs (W_Busy j) = {#j#}"
| "worker_jobs w = {#}"

definition slots_ok :: "nat \<Rightarrow> pool \<Rightarrow> bool" where
  "slots_ok N s \<longleftrightarrow>
     length (pl_workers s) = N \<and> pl_slots s \<le> N \<and>
     pl_slots s = main_slots (pl_main s) + length (pl_jobs s) + sum_list (map worker_slots (pl_workers s))"

definition close_ok :: "pool \<Rightarrow> bool" where
  "close_ok s \<longleftrightarrow>
     (pl_closed s \<longleftrightarrow> pl_main s = Draining \<or> pl_main s = Returned) \<and>
     (W_Done \<in> set (pl_workers s) \<longrightarrow> pl_closed s \<and> pl_jobs s = []) \<and>
     (pl_main s = Returned \<longrightarrow> (\<forall>w \<in> set (pl_workers s). w = W_Done)) \<and>
     (pl_closed s \<longrightarrow> pl_cancelled s)"

definition in_flight :: "pool \<Rightarrow> job multiset" where
  "in_flight s = main_jobs (pl_main s) + mset (pl_jobs s) + sum_list (map worker_jobs (pl_workers s))"

definition jobs_ok :: "pool \<Rightarrow> bool" where
  "jobs_ok s \<longleftrightarrow>
     mset (pl_claimed s) = in_flight s + mset (pl_processed s) + mset (pl_dropped s) \<and>
     length (pl_dropped s) \<le> 1 \<and> (pl_dropped s \<noteq> [] \<longrightarrow> pl_closed s)"

lemma slots_ok_step: "pool_step N s s' \<Longrightarrow> slots_ok N s \<Longrightarrow> slots_ok N s'"
proof (induction rule: pool_step.induct)
  case (Take i s j js)
  then show ?case using sum_list_swap [of i "pl_workers s" worker_slots "W_Busy j"] by (simp add: slots_ok_def)
next
  case (Processed i s j)
  then show ?case using sum_list_swap [of i "pl_workers s" worker_slots W_Freeing] by (simp add: slots_ok_def)
next
  case (Free i s)
  then show ?case using sum_list_swap [of i "pl_workers s" worker_slots W_Idle] by (auto simp: slots_ok_def)
next
  case (Exit i s)
  then show ?case using sum_list_swap [of i "pl_workers s" worker_slots W_Done] by (simp add: slots_ok_def)
qed (auto simp: slots_ok_def)

lemma close_ok_step: "pool_step N s s' \<Longrightarrow> close_ok s \<Longrightarrow> close_ok s'"
  by (induction rule: pool_step.induct)
    (auto simp: close_ok_def all_set_conv_all_nth nth_list_update dest!: subsetD [OF set_update_subset_insert])

lemma jobs_ok_step: "pool_step N s s' \<Longrightarrow> close_ok s \<Longrightarrow> jobs_ok s \<Longrightarrow> jobs_ok s'"
proof (induction rule: pool_step.induct)
  case (Take i s j js)
  then show ?case using sum_list_swap [of i "pl_workers s" worker_jobs "W_Busy j"] by (simp add: jobs_ok_def in_flight_def)
next
  case (Processed i s j)
  then show ?case using sum_list_swap [of i "pl_workers s" worker_jobs W_Freeing] by (simp add: jobs_ok_def in_flight_def)
next
  case (Free i s)
  then show ?case using sum_list_swap [of i "pl_workers s" worker_jobs W_Idle] by (simp add: jobs_ok_def in_flight_def)
next
  case (Exit i s)
  then show ?case using sum_list_swap [of i "pl_workers s" worker_jobs W_Done] by (simp add: jobs_ok_def in_flight_def)
qed (simp_all add: jobs_ok_def in_flight_def close_ok_def ac_simps)

lemma pool_reachable_ok: "pool_reachable N s \<Longrightarrow> slots_ok N s \<and> close_ok s \<and> jobs_ok s"
proof (induction rule: pool_reachable.induct)
  case Init
  have "sum_list (map worker_slots (replicate N W_Idle)) = 0" "sum_list (map worker_jobs (replicate N W_Idle)) = {#}"
    by (induction N) simp_all
  then show ?case by (auto simp: slots_ok_def close_ok_def jobs_ok_def in_flight_def pool_init_def)
next
  case (Step s s')
  then show ?case using slots_ok_step close_ok_step jobs_ok_step by blast
qed

section \<open>Properties\<close>

lemma in_flight_size: "size (in_flight s) \<le> main_slots (pl_main s) + length (pl_jobs s) + sum_list (map worker_slots (pl_workers s))"
proof -
  have "size (sum_list (map worker_jobs ws)) \<le> sum_list (map worker_slots ws)" for ws
  proof (induction ws)
    case (Cons w ws)
    then show ?case by (cases w) auto
  qed simp
  moreover have "size (main_jobs m) \<le> main_slots m" for m by (cases m) auto
  ultimately show ?thesis by (simp add: in_flight_def add_mono)
qed

text \<open>
  C33: in every interleaving the pool is bounded and never blocks where it must not: at most \<open>N\<close> claimed jobs are
  in flight, the claiming loop's send on \<^verbatim>\<open>jobs\<close> always finds room and the channel open, and every receive that
  gives a slot back finds one to take.
\<close>

theorem pool_bounded:
  assumes "pool_reachable N s"
  shows "size (in_flight s) \<le> N \<and> length (pl_jobs s) \<le> N \<and>
    (\<forall>j. pl_main s = Sending j \<longrightarrow> length (pl_jobs s) < N \<and> \<not> pl_closed s \<and> 0 < pl_slots s) \<and>
    (pl_main s = Claiming \<longrightarrow> 0 < pl_slots s) \<and> (W_Freeing \<in> set (pl_workers s) \<longrightarrow> 0 < pl_slots s)"
proof -
  have inv: "slots_ok N s" "close_ok s" using pool_reachable_ok [OF assms] by blast+
  have "W_Freeing \<in> set (pl_workers s) \<longrightarrow> 0 < sum_list (map worker_slots (pl_workers s))"
    using sum_list_ge [of _ "pl_workers s" worker_slots] by (fastforce simp: in_set_conv_nth)
  with inv in_flight_size [of s] show ?thesis
    by (auto simp: slots_ok_def close_ok_def)
qed

definition pool_job :: job where
  "pool_job = \<lparr>j_ID = ''dlv_1'', j_Token = ''lease_a'', j_EventID = ''order-1'', j_ProjectID = ''prj_1'', j_EndpointID = ''ep_1'',
     j_URL = ''https://hooks.test/in'', j_Secret = ''cipher'', j_Payload = ''{}'', j_Attempt = 1, j_Generation = 0,
     j_MaxAttempts = 5, j_BaseDelay = 5, j_Rate = 10, j_Active = True\<rparr>"

text \<open>One claim on its way: the run Acquire, Claimed from the initial state of two workers; then cancelled and given up.\<close>

definition pool_claimed :: pool where
  "pool_claimed = (pool_init 2)\<lparr>pl_slots := 1, pl_main := Sending pool_job, pl_claimed := [pool_job]\<rparr>"

definition pool_stopped :: pool where
  "pool_stopped = (pool_init 2)\<lparr>pl_cancelled := True, pl_closed := True, pl_main := Draining, pl_claimed := [pool_job],
     pl_dropped := [pool_job]\<rparr>"

lemma pool_claimed_reachable: "pool_reachable 2 pool_claimed"
proof -
  have "pool_reachable 2 ((pool_init 2)\<lparr>pl_slots := 1, pl_main := Claiming\<rparr>)"
    using pool_reachable.Step [OF pool_reachable.Init pool_step.Acquire [of "pool_init 2" 2]] by (simp add: pool_init_def)
  from pool_reachable.Step [OF this pool_step.Claimed [of _ 2 pool_job]] show ?thesis
    by (simp add: pool_init_def pool_claimed_def)
qed

lemma pool_stopped_reachable: "pool_reachable 2 pool_stopped"
proof -
  have "pool_reachable 2 (pool_claimed\<lparr>pl_cancelled := True\<rparr>)"
    using pool_reachable.Step [OF pool_claimed_reachable pool_step.Cancel [of pool_claimed 2]]
    by (simp add: pool_claimed_def pool_init_def)
  from pool_reachable.Step [OF this pool_step.Stop_send [of _ pool_job 2]] show ?thesis
    by (simp add: pool_claimed_def pool_stopped_def pool_init_def)
qed

theorem pool_bounded_witness: "length (pl_jobs pool_claimed) < 2 \<and> size (in_flight pool_claimed) \<le> 2"
  using pool_bounded [OF pool_claimed_reachable] by (simp add: pool_claimed_def)

text \<open>
  C34: no claimed job is lost or handled twice: in every interleaving the claimed jobs are, with multiplicity, those
  in flight, those a worker has handled, and at most one that was given up on shutdown.
\<close>

theorem pool_conserves_jobs:
  assumes "pool_reachable N s"
  shows "mset (pl_claimed s) = in_flight s + mset (pl_processed s) + mset (pl_dropped s) \<and>
    length (pl_dropped s) \<le> 1 \<and> (\<not> pl_cancelled s \<longrightarrow> pl_dropped s = [])"
  using pool_reachable_ok [OF assms] by (auto simp: jobs_ok_def close_ok_def)

theorem pool_conserves_jobs_witness:
  "mset (pl_claimed pool_claimed) = in_flight pool_claimed + mset (pl_processed pool_claimed) + mset (pl_dropped pool_claimed)"
  using pool_conserves_jobs [OF pool_claimed_reachable] by blast

section \<open>Shutdown\<close>

fun worker_work :: "worker_state \<Rightarrow> nat" where
  "worker_work W_Done = 0"
| "worker_work W_Idle = 1"
| "worker_work W_Freeing = 2"
| "worker_work (W_Busy j) = 3"

definition drain_work :: "pool \<Rightarrow> nat" where
  "drain_work s = 3 * length (pl_jobs s) + sum_list (map worker_work (pl_workers s)) + (if pl_main s = Returned then 0 else 1)"

lemma drain_step:
  assumes "pool_step N s s'" and "close_ok s" and "pl_closed s"
  shows "drain_work s' < drain_work s \<and> pl_closed s'"
  using assms
proof (induction rule: pool_step.induct)
  case (Take i s j js)
  then show ?case using sum_list_swap [of i "pl_workers s" worker_work "W_Busy j"] by (simp add: drain_work_def)
next
  case (Processed i s j)
  then show ?case using sum_list_swap [of i "pl_workers s" worker_work W_Freeing] by (simp add: drain_work_def)
next
  case (Free i s)
  then show ?case using sum_list_swap [of i "pl_workers s" worker_work W_Idle] by (simp add: drain_work_def)
next
  case (Exit i s)
  then show ?case using sum_list_swap [of i "pl_workers s" worker_work W_Done] by (simp add: drain_work_def)
qed (auto simp: close_ok_def drain_work_def)

lemma drain_progress:
  assumes ok: "slots_ok N s" "close_ok s" and "pl_closed s" and "pl_main s \<noteq> Returned"
  shows "\<exists>s'. pool_step N s s'"
proof -
  have main: "pl_main s = Draining" using assms by (simp add: close_ok_def)
  show ?thesis
  proof (cases "\<forall>w \<in> set (pl_workers s). w = W_Done")
    case True
    with main show ?thesis by (blast intro: pool_step.Return)
  next
    case False
    then obtain i where i: "i < length (pl_workers s)" "pl_workers s ! i \<noteq> W_Done" by (auto simp: in_set_conv_nth)
    show ?thesis
    proof (cases "pl_workers s ! i")
      case W_Idle
      then show ?thesis
        using i assms(3) by (cases "pl_jobs s") (blast intro: pool_step.Take pool_step.Exit)+
    next
      case (W_Busy j)
      then show ?thesis using i by (blast intro: pool_step.Processed)
    next
      case W_Freeing
      then have "0 < pl_slots s" using ok(1) sum_list_ge [OF i(1), of worker_slots] by (simp add: slots_ok_def)
      with W_Freeing i show ?thesis by (blast intro: pool_step.Free)
    qed (use i in simp)
  qed
qed

text \<open>A pool whose claiming loop has stopped drains: the laws of \<open>draining\<close>.\<close>

definition drains :: "nat \<Rightarrow> pool \<Rightarrow> bool" where
  "drains N s \<longleftrightarrow> pool_reachable N s \<and> pl_closed s"

lemma drains_ok: "drains N s \<Longrightarrow> slots_ok N s \<and> close_ok s \<and> pl_closed s"
  using pool_reachable_ok [of N s] by (simp add: drains_def)

interpretation drain: draining "pool_step N" "drains N" drain_work "\<lambda>s. pl_main s = Returned" for N
proof
  fix s s' assume s: "drains N s" "pool_step N s s'"
  with drain_step [OF s(2)] drains_ok [OF s(1)] show "drains N s'" "drain_work s' < drain_work s"
    by (auto simp: drains_def intro: pool_reachable.Step)
qed (use drains_ok drain_progress in blast)

lemma returned_idle:
  assumes "slots_ok N s" "close_ok s" and "pl_main s = Returned" "0 < N"
  shows "in_flight s = {#}"
proof -
  have all: "\<forall>w \<in> set (pl_workers s). w = W_Done" using assms by (simp add: close_ok_def)
  have "sum_list (map worker_jobs ws) = {#}" if "\<forall>w \<in> set ws. w = W_Done" for ws
    using that by (induction ws) auto
  with all have "sum_list (map worker_jobs (pl_workers s)) = {#}" by blast
  moreover have "W_Done \<in> set (pl_workers s)" using all assms by (cases "pl_workers s") (auto simp: slots_ok_def)
  ultimately show ?thesis using assms(2,3) by (auto simp: in_flight_def close_ok_def)
qed

text \<open>
  C35: shutdown terminates. Once the claiming loop has stopped, every step of every goroutine lowers a measure, a
  step is always possible until \<open>Run\<close> has returned, so every continuation is finite and ends with \<open>Run\<close>
  returned; and then all workers have exited and nothing is in flight.
\<close>

theorem pool_shutdown:
  assumes "pool_reachable N s" and "pl_closed s"
  shows "(\<forall>s'. pool_step N s s' \<longrightarrow> drain_work s' < drain_work s \<and> pl_closed s') \<and>
    (pl_main s \<noteq> Returned \<longrightarrow> (\<exists>s'. pool_step N s s')) \<and>
    (\<exists>s'. (pool_step N)\<^sup>*\<^sup>* s s' \<and> pl_main s' = Returned) \<and>
    (pl_main s = Returned \<and> 0 < N \<longrightarrow> (\<forall>w \<in> set (pl_workers s). w = W_Done) \<and> in_flight s = {#})"
proof -
  have d: "drains N s" using assms by (simp add: drains_def)
  have ok: "slots_ok N s" "close_ok s" using drains_ok [OF d] by blast+
  with drain.work_step [OF d] drain.ok_step [OF d] drain.progress [OF d] drain.reaches_final [OF d] returned_idle [OF ok]
  show ?thesis
    by (auto simp: close_ok_def drains_def)
qed

theorem pool_shutdown_witness: "\<exists>s'. (pool_step 2)\<^sup>*\<^sup>* pool_stopped s' \<and> pl_main s' = Returned"
  using pool_shutdown [OF pool_stopped_reachable] by (simp add: pool_stopped_def)

end
