(* ===== verification/Cluster.thy ===== *)
theory Cluster
  imports Delivery_System Pool
begin

text \<open>
  Worker processes and the database together. A cluster is the running system with the pool of every worker process beside
  it. A step is a step of one goroutine of one process: one that touches only channels, or one that returns from
  \<^verbatim>\<open>Claim\<close> or from \<^verbatim>\<open>process\<close>, with what that call did to the database; or a process starts or dies with all it holds; or
  an API process serves a request. The theory shows that the goroutines implement the system of
  \<open>Delivery_System\<close>, whose held jobs are exactly the jobs in flight in the pools.
\<close>

record cluster =
  cl_sys :: sys
  cl_pools :: "pool list"

abbreviation pool_size :: "server \<Rightarrow> nat" where
  "pool_size sv \<equiv> nat (c_Workers (sv_Config sv))"

definition cluster_boot :: "world \<Rightarrow> cluster" where
  "cluster_boot w = \<lparr>cl_sys = sys_boot w, cl_pools = []\<rparr>"

text \<open>A pool step that calls neither \<^verbatim>\<open>Claim\<close> nor \<^verbatim>\<open>process\<close> and gives up no job.\<close>

definition quiet :: "pool \<Rightarrow> pool \<Rightarrow> bool" where
  "quiet p q \<longleftrightarrow> pl_claimed q = pl_claimed p \<and> pl_processed q = pl_processed p \<and> pl_dropped q = pl_dropped p \<and>
     \<not> (pl_main p = Claiming \<and> pl_main q = Pausing)"

inductive cluster_step :: "server \<Rightarrow> cluster \<Rightarrow> cluster \<Rightarrow> bool" for sv where
  Goes_on: "i < length (cl_pools y) \<Longrightarrow> pool_step (pool_size sv) (cl_pools y ! i) q \<Longrightarrow> quiet (cl_pools y ! i) q \<Longrightarrow>
    cluster_step sv y (y\<lparr>cl_pools := (cl_pools y)[i := q]\<rparr>)"
| Claims_job: "i < length (cl_pools y) \<Longrightarrow> pool_step (pool_size sv) (cl_pools y ! i) q \<Longrightarrow>
    pl_claimed q = j # pl_claimed (cl_pools y ! i) \<Longrightarrow> token \<notin> set (sy_tokens (cl_sys y)) \<Longrightarrow>
    Claim (sv_pg sv) (c_LeaseDuration (sv_Config sv)) token now locked oc (sy_db (cl_sys y)) = (s', Inr j) \<Longrightarrow>
    cluster_step sv y (y\<lparr>cl_pools := (cl_pools y)[i := q], cl_sys := (cl_sys y)\<lparr>sy_world := (sy_world (cl_sys y))\<lparr>w_db := s'\<rparr>,
      sy_jobs := j # sy_jobs (cl_sys y), sy_tokens := token # sy_tokens (cl_sys y)\<rparr>\<rparr>)"
| Claims_none: "i < length (cl_pools y) \<Longrightarrow> pool_step (pool_size sv) (cl_pools y ! i) q \<Longrightarrow>
    pl_main (cl_pools y ! i) = Claiming \<Longrightarrow> pl_main q = Pausing \<Longrightarrow> token \<notin> set (sy_tokens (cl_sys y)) \<Longrightarrow>
    Claim (sv_pg sv) (c_LeaseDuration (sv_Config sv)) token now locked oc (sy_db (cl_sys y)) = (s', Inl e) \<Longrightarrow>
    cluster_step sv y (y\<lparr>cl_pools := (cl_pools y)[i := q], cl_sys := (cl_sys y)\<lparr>sy_world := (sy_world (cl_sys y))\<lparr>w_db := s'\<rparr>,
      sy_tokens := token # sy_tokens (cl_sys y)\<rparr>\<rparr>)"
| Handles_job: "i < length (cl_pools y) \<Longrightarrow> pool_step (pool_size sv) (cl_pools y ! i) q \<Longrightarrow>
    pl_processed q = j # pl_processed (cl_pools y ! i) \<Longrightarrow> v_cancelled v \<longrightarrow> pl_cancelled (cl_pools y ! i) \<Longrightarrow>
    v_cancelled_after v \<longrightarrow> pl_cancelled (cl_pools y ! i) \<Longrightarrow>
    process (sv_pg sv) (sv_cr sv) (sv_Config sv) v j (sy_db (cl_sys y)) (w_limits (sy_world (cl_sys y))) = (s', ls', req) \<Longrightarrow>
    cluster_step sv y (y\<lparr>cl_pools := (cl_pools y)[i := q],
      cl_sys := (cl_sys y)\<lparr>sy_world := (sy_world (cl_sys y))\<lparr>w_db := s', w_limits := ls'\<rparr>, sy_jobs := remove1 j (sy_jobs (cl_sys y))\<rparr>\<rparr>)"
| Gives_up: "i < length (cl_pools y) \<Longrightarrow> pool_step (pool_size sv) (cl_pools y ! i) q \<Longrightarrow>
    pl_dropped q = j # pl_dropped (cl_pools y ! i) \<Longrightarrow>
    cluster_step sv y (y\<lparr>cl_pools := (cl_pools y)[i := q], cl_sys := (cl_sys y)\<lparr>sy_jobs := remove1 j (sy_jobs (cl_sys y))\<rparr>\<rparr>)"
| Starts: "cluster_step sv y (y\<lparr>cl_pools := cl_pools y @ [pool_init (pool_size sv)]\<rparr>)"
| Dies: "cl_pools y = ps @ p # qs \<Longrightarrow> mset js = in_flight p \<Longrightarrow>
    cluster_step sv y (y\<lparr>cl_pools := ps @ qs, cl_sys := (cl_sys y)\<lparr>sy_jobs := fold remove1 js (sy_jobs (cl_sys y))\<rparr>\<rparr>)"
| Answers: "(\<And>s. db_step s (meanwhile s)) \<Longrightarrow> Handler sv i meanwhile files r (sy_world (cl_sys y)) = (w', rsp) \<Longrightarrow>
    cluster_step sv y (y\<lparr>cl_sys := (cl_sys y)\<lparr>sy_world := w'\<rparr>\<rparr>)"

inductive cluster_reachable :: "server \<Rightarrow> cluster \<Rightarrow> bool" for sv where
  Boots: "db_wf (w_db w) \<Longrightarrow> queue_inv (w_db w) \<Longrightarrow> cluster_reachable sv (cluster_boot w)"
| Continues: "cluster_reachable sv y \<Longrightarrow> cluster_step sv y y' \<Longrightarrow> cluster_reachable sv y'"

section \<open>What a pool step does to the jobs in flight\<close>

lemma in_flight_kept:
  assumes "pool_reachable N p" "pool_step N p q"
    and "mset (pl_claimed q) = mset (pl_claimed p) + C" "mset (pl_processed q) = mset (pl_processed p) + P"
      "mset (pl_dropped q) = mset (pl_dropped p) + D"
  shows "in_flight q + P + D = in_flight p + C"
proof -
  have "jobs_ok p" "jobs_ok q"
    using pool_reachable_ok [OF assms(1)] pool_reachable_ok [OF pool_reachable.Step [OF assms(1,2)]] by blast+
  then show ?thesis using assms(3-5) by (simp add: jobs_ok_def)
qed

lemma pool_step_history:
  assumes "pool_step N p q"
  shows "(\<exists>j. pl_claimed q = j # pl_claimed p \<and> pl_processed q = pl_processed p \<and> pl_dropped q = pl_dropped p) \<or>
    (\<exists>j. pl_claimed q = pl_claimed p \<and> pl_processed q = j # pl_processed p \<and> pl_dropped q = pl_dropped p) \<or>
    (\<exists>j. pl_claimed q = pl_claimed p \<and> pl_processed q = pl_processed p \<and> pl_dropped q = j # pl_dropped p) \<or>
    pl_claimed q = pl_claimed p \<and> pl_processed q = pl_processed p \<and> pl_dropped q = pl_dropped p"
  using assms by (induction rule: pool_step.induct) simp_all

lemma claim_fails_kept:
  assumes "pool_step N p q" "pl_main p = Claiming" "pl_main q = Pausing"
  shows "pl_claimed q = pl_claimed p \<and> pl_processed q = pl_processed p \<and> pl_dropped q = pl_dropped p"
  using assms by (induction rule: pool_step.induct) simp_all

lemma flight_after:
  assumes "pool_reachable N p" "pool_step N p q"
  shows "pl_claimed q = j # pl_claimed p \<Longrightarrow> in_flight q = add_mset j (in_flight p)"
    and "pl_processed q = j # pl_processed p \<Longrightarrow> add_mset j (in_flight q) = in_flight p"
    and "pl_dropped q = j # pl_dropped p \<Longrightarrow> add_mset j (in_flight q) = in_flight p"
    and "quiet p q \<Longrightarrow> in_flight q = in_flight p"
    and "pl_main p = Claiming \<Longrightarrow> pl_main q = Pausing \<Longrightarrow> in_flight q = in_flight p"
  using pool_step_history [OF assms(2)] in_flight_kept [OF assms, of "{#j#}" "{#}" "{#}"]
    in_flight_kept [OF assms, of "{#}" "{#j#}" "{#}"] in_flight_kept [OF assms, of "{#}" "{#}" "{#j#}"]
    in_flight_kept [OF assms, of "{#}" "{#}" "{#}"] claim_fails_kept [OF assms(2)]
  by (auto simp: quiet_def)

section \<open>The pools implement the system\<close>

definition cluster_ok :: "server \<Rightarrow> cluster \<Rightarrow> bool" where
  "cluster_ok sv y \<longleftrightarrow> (\<forall>p \<in> set (cl_pools y). pool_reachable (pool_size sv) p) \<and>
     mset (sy_jobs (cl_sys y)) = sum_list (map in_flight (cl_pools y))"

lemma cluster_ok_pool:
  assumes "cluster_ok sv y" "i < length (cl_pools y)"
  shows "pool_reachable (pool_size sv) (cl_pools y ! i)"
  using assms by (simp add: cluster_ok_def)

text \<open>One pool moves; what leaves it (\<open>P\<close>) and what enters it (\<open>C\<close>) leaves and enters the held jobs.\<close>

lemma pool_moves:
  assumes ok: "cluster_ok sv y" "i < length (cl_pools y)" "pool_step (pool_size sv) (cl_pools y ! i) q"
    and "in_flight q + P = in_flight (cl_pools y ! i) + C" and "mset (sy_jobs x) + P = mset (sy_jobs (cl_sys y)) + C"
  shows "cluster_ok sv \<lparr>cl_sys = x, cl_pools = (cl_pools y)[i := q]\<rparr>"
proof -
  have "\<forall>p \<in> set ((cl_pools y)[i := q]). pool_reachable (pool_size sv) p"
    using ok(1) pool_reachable.Step [OF cluster_ok_pool [OF ok(1,2)] ok(3)]
    by (auto simp: cluster_ok_def dest: subsetD [OF set_update_subset_insert])
  moreover have "sum_list (map in_flight ((cl_pools y)[i := q])) + in_flight (cl_pools y ! i) = mset (sy_jobs (cl_sys y)) + in_flight q"
    using sum_list_swap [OF ok(2), of in_flight q] ok(1) by (simp add: cluster_ok_def)
  then have "mset (sy_jobs x) + P + in_flight (cl_pools y ! i) = sum_list (map in_flight ((cl_pools y)[i := q])) + P + in_flight (cl_pools y ! i)"
    using assms(4,5) by (simp add: ac_simps)
  ultimately show ?thesis by (simp add: cluster_ok_def)
qed

lemma mset_fold_remove1: "mset (fold remove1 js xs) = mset xs - mset js"
  by (induction js arbitrary: xs) simp_all

lemma sum_list_member: "x \<in> set xs \<Longrightarrow> x \<subseteq># sum_list xs"
  for x :: "'a multiset"
  by (induction xs) (auto intro: subset_mset.add_increasing)

lemma flight_held:
  assumes "cluster_ok sv y" "i < length (cl_pools y)"
  shows "in_flight (cl_pools y ! i) \<subseteq># mset (sy_jobs (cl_sys y))"
proof -
  have "in_flight (cl_pools y ! i) \<in> set (map in_flight (cl_pools y))" using assms(2) by simp
  from sum_list_member [OF this] show ?thesis using assms(1) by (simp add: cluster_ok_def)
qed

lemma job_held:
  assumes "cluster_ok sv y" "i < length (cl_pools y)" and "add_mset j F = in_flight (cl_pools y ! i)"
  shows "j \<in> set (sy_jobs (cl_sys y))"
  using mset_subset_eqD [OF flight_held [OF assms(1,2)], of j] assms(3) [symmetric] by simp

lemma cluster_ok_step:
  assumes "cluster_step sv y y'" and ok: "cluster_ok sv y"
  shows "cluster_ok sv y'"
  using assms(1)
proof cases
  case (Goes_on i q)
  from flight_after(4) [OF cluster_ok_pool [OF ok Goes_on(2)] Goes_on(3,4)]
  show ?thesis unfolding Goes_on(1) by (cases y) (use pool_moves [OF ok Goes_on(2,3), of "{#}" "{#}" "cl_sys y"] in simp)
next
  case (Claims_job i q j token now locked oc s')
  from flight_after(1) [OF cluster_ok_pool [OF ok Claims_job(2)] Claims_job(3,4)]
  show ?thesis unfolding Claims_job(1) by (cases y) (use pool_moves [OF ok Claims_job(2,3), of "{#}" "{#j#}"] in simp)
next
  case (Claims_none i q token now locked oc s' e)
  from flight_after(5) [OF cluster_ok_pool [OF ok Claims_none(2)] Claims_none(3,4,5)]
  show ?thesis unfolding Claims_none(1) by (cases y) (use pool_moves [OF ok Claims_none(2,3), of "{#}" "{#}"] in simp)
next
  case (Handles_job i q j v s' ls' req)
  note f = flight_after(2) [OF cluster_ok_pool [OF ok Handles_job(2)] Handles_job(3,4)]
  show ?thesis unfolding Handles_job(1)
    by (cases y) (use pool_moves [OF ok Handles_job(2,3), of "{#j#}" "{#}"] f job_held [OF ok Handles_job(2) f] in simp)
next
  case (Gives_up i q j)
  note f = flight_after(3) [OF cluster_ok_pool [OF ok Gives_up(2)] Gives_up(3,4)]
  show ?thesis unfolding Gives_up(1)
    by (cases y) (use pool_moves [OF ok Gives_up(2,3), of "{#j#}" "{#}"] f job_held [OF ok Gives_up(2) f] in simp)
next
  case Starts
  have "in_flight (pool_init (pool_size sv)) = {#}"
    using pool_reachable_ok [OF pool_reachable.Init [of "pool_size sv"]] by (simp add: jobs_ok_def pool_init_def)
  with ok Starts pool_reachable.Init show ?thesis by (simp add: cluster_ok_def)
next
  case (Dies ps p qs js)
  with ok show ?thesis by (auto simp: cluster_ok_def mset_fold_remove1)
next
  case (Answers meanwhile i files r w' rsp)
  with ok show ?thesis by (simp add: cluster_ok_def)
qed

lemma loses_all:
  assumes "mset js \<subseteq># mset (sy_jobs x)"
  shows "(sys_step sv)\<^sup>*\<^sup>* x (x\<lparr>sy_jobs := fold remove1 js (sy_jobs x)\<rparr>)"
  using assms
proof (induction js arbitrary: x)
  case (Cons j js)
  have "j \<in> set (sy_jobs x)" using Cons.prems by (auto dest: mset_subset_eqD)
  then have "sys_step sv x (x\<lparr>sy_jobs := remove1 j (sy_jobs x)\<rparr>)" by (rule Loses)
  moreover have "mset js \<subseteq># mset (sy_jobs (x\<lparr>sy_jobs := remove1 j (sy_jobs x)\<rparr>))"
    using Cons.prems by (simp add: insert_subset_eq_iff)
  ultimately show ?case using Cons.IH [of "x\<lparr>sy_jobs := remove1 j (sy_jobs x)\<rparr>"] by (simp add: converse_rtranclp_into_rtranclp)
qed simp

lemma cluster_step_matched:
  assumes "cluster_step sv y y'" and ok: "cluster_ok sv y"
  shows "(sys_step sv)\<^sup>*\<^sup>* (cl_sys y) (cl_sys y')"
  using assms(1)
proof cases
  case (Claims_job i q j token now locked oc s')
  from sys_step.Claims [OF Claims_job(5,6)] show ?thesis by (simp add: Claims_job(1) r_into_rtranclp)
next
  case (Claims_none i q token now locked oc s' e)
  from sys_step.Claims [OF Claims_none(6,7)] show ?thesis by (simp add: Claims_none(1) r_into_rtranclp)
next
  case (Handles_job i q j v s' ls' req)
  have "j \<in> set (sy_jobs (cl_sys y))"
    by (rule job_held [OF ok Handles_job(2) flight_after(2) [OF cluster_ok_pool [OF ok Handles_job(2)] Handles_job(3,4)]])
  from Works [OF this Handles_job(7)] show ?thesis by (simp add: Handles_job(1) r_into_rtranclp)
next
  case (Gives_up i q j)
  have "j \<in> set (sy_jobs (cl_sys y))"
    by (rule job_held [OF ok Gives_up(2) flight_after(3) [OF cluster_ok_pool [OF ok Gives_up(2)] Gives_up(3,4)]])
  from Loses [OF this] show ?thesis by (simp add: Gives_up(1) r_into_rtranclp)
next
  case (Dies ps p qs js)
  have "mset js \<subseteq># mset (sy_jobs (cl_sys y))"
    using flight_held [OF ok, of "length ps"] Dies by simp
  from loses_all [OF this] show ?thesis by (simp add: Dies(1))
next
  case (Answers meanwhile i files r w' rsp)
  from Serves [OF Answers(2,3)] show ?thesis by (simp add: Answers(1) r_into_rtranclp)
qed simp_all

interpretation workers: simulates "cluster_step sv" "cluster_ok sv" "sys_step sv" cl_sys for sv
proof
  fix y y' assume "cluster_ok sv y" "cluster_step sv y y'"
  then show "cluster_ok sv y'" "(sys_step sv)\<^sup>*\<^sup>* (cl_sys y) (cl_sys y')"
    using cluster_ok_step cluster_step_matched by blast+
qed

lemma cluster_reachable_ok: "cluster_reachable sv y \<Longrightarrow> cluster_ok sv y \<and> sys_reachable sv (cl_sys y)"
proof (induction rule: cluster_reachable.induct)
  case (Boots w)
  then show ?case by (auto simp: cluster_ok_def cluster_boot_def sys_boot_def intro: sys_reachable.Start [unfolded sys_boot_def])
next
  case (Continues y y')
  have run: "sys_reachable sv z" if "(sys_step sv)\<^sup>*\<^sup>* (cl_sys y) z" for z
    using that Continues.IH by (induction rule: rtranclp_induct) (auto intro: sys_reachable.Next)
  from workers.run_matched [of sv y y'] Continues run show ?case by blast
qed

lemma pool_flight_bound: "pool_reachable N p \<Longrightarrow> size (in_flight p) \<le> N"
  using in_flight_size [of p] pool_reachable_ok [of N p] by (simp add: slots_ok_def)

lemma flights_bound: "\<forall>p \<in> set ps. pool_reachable N p \<Longrightarrow> size (sum_list (map in_flight ps)) \<le> length ps * N"
  by (induction ps) (auto simp: pool_flight_bound add_mono)

section \<open>Jobs of different goroutines\<close>

lemma two_members:
  fixes f :: "'a \<Rightarrow> 'b multiset"
  assumes "i < length xs" "k < length xs" "i \<noteq> k" and "f z = {#}"
  shows "f (xs ! i) + f (xs ! k) \<subseteq># sum_list (map f xs)"
proof -
  have "xs ! k \<in> set (xs[i := z])" using assms(2,3) by (metis length_list_update nth_list_update_neq nth_mem)
  then have "f (xs ! k) \<subseteq># sum_list (map f (xs[i := z]))" by (intro sum_list_member) simp
  with sum_list_swap [OF assms(1), of f z] assms(4) show ?thesis by (simp add: union_commute [of "f (xs ! i)"]) (metis subset_mset.add_right_mono)
qed

lemma workers_flight: "sum_list (map worker_jobs (pl_workers p)) \<subseteq># in_flight p"
  by (simp add: in_flight_def)

lemma busy_flight:
  assumes "i < length (pl_workers p)" "pl_workers p ! i = W_Busy j"
  shows "{#j#} \<subseteq># in_flight p"
proof -
  have "worker_jobs (pl_workers p ! i) \<in> set (map worker_jobs (pl_workers p))" using assms(1) by simp
  then have "{#j#} \<subseteq># sum_list (map worker_jobs (pl_workers p))" using sum_list_member assms(2) by fastforce
  then show ?thesis using workers_flight by (rule subset_mset.order_trans)
qed

definition busy :: "cluster \<Rightarrow> nat \<Rightarrow> nat \<Rightarrow> job \<Rightarrow> bool" where
  "busy y a i j \<longleftrightarrow> a < length (cl_pools y) \<and> i < length (pl_workers (cl_pools y ! a)) \<and> pl_workers (cl_pools y ! a) ! i = W_Busy j"

lemma busy_two:
  assumes "cluster_ok sv y" and "busy y a i j" "busy y b k j'" "(a, i) \<noteq> (b, k)"
  shows "{#j#} + {#j'#} \<subseteq># mset (sy_jobs (cl_sys y))"
proof (cases "a = b")
  case True
  with two_members [of i "pl_workers (cl_pools y ! a)" k worker_jobs W_Idle] assms
  have "{#j#} + {#j'#} \<subseteq># sum_list (map worker_jobs (pl_workers (cl_pools y ! a)))" by (simp add: busy_def)
  moreover have "in_flight (cl_pools y ! a) \<subseteq># mset (sy_jobs (cl_sys y))" using assms by (intro flight_held) (simp_all add: busy_def)
  ultimately show ?thesis using workers_flight by (meson subset_mset.order_trans)
next
  case False
  have e: "in_flight (pool_init 0) = {#}" by (simp add: in_flight_def pool_init_def)
  have "in_flight (cl_pools y ! a) + in_flight (cl_pools y ! b) \<subseteq># mset (sy_jobs (cl_sys y))"
    using two_members [of a "cl_pools y" b in_flight, OF _ _ False e] assms by (simp add: busy_def cluster_ok_def)
  moreover have "{#j#} + {#j'#} \<subseteq># in_flight (cl_pools y ! a) + in_flight (cl_pools y ! b)"
    using assms by (intro subset_mset.add_mono busy_flight) (auto simp: busy_def)
  ultimately show ?thesis by (rule subset_mset.order_trans [rotated])
qed

section \<open>What the cluster promises\<close>

text \<open>
  C3: the worker processes implement the system. In every reachable state of a cluster, with any number of processes that start,
  die and are interleaved goroutine by goroutine with the requests, the database and the jobs are in a state that
  the system of claims and runs of \<open>process\<close> reaches; the jobs held in that system are exactly the jobs in flight in the pools,
  none twice and none forgotten, and at most the configured number of workers for each process.
\<close>

theorem cluster_implements_system:
  assumes "cluster_reachable sv y"
  shows "sys_reachable sv (cl_sys y) \<and> mset (sy_jobs (cl_sys y)) = sum_list (map in_flight (cl_pools y)) \<and>
    distinct (sy_jobs (cl_sys y)) \<and> length (sy_jobs (cl_sys y)) \<le> length (cl_pools y) * pool_size sv"
proof -
  have ok: "cluster_ok sv y" "sys_reachable sv (cl_sys y)" using cluster_reachable_ok [OF assms] by blast+
  then have "mset (sy_jobs (cl_sys y)) = sum_list (map in_flight (cl_pools y))" by (simp add: cluster_ok_def)
  moreover from this have "length (sy_jobs (cl_sys y)) \<le> length (cl_pools y) * pool_size sv"
    using flights_bound [of "cl_pools y" "pool_size sv"] ok(1) by (metis cluster_ok_def size_mset)
  moreover have "distinct (sy_jobs (cl_sys y))" using sys_reachable_inv [OF ok(2)] by (auto simp: sys_inv_def distinct_map)
  ultimately show ?thesis using ok(2) by blast
qed

text \<open>A fresh pool that claims one job and hands it to its first worker.\<close>

definition busy_pool :: "nat \<Rightarrow> job \<Rightarrow> pool" where
  "busy_pool N j = (pool_init N)\<lparr>pl_slots := 1, pl_claimed := [j], pl_workers := (replicate N W_Idle)[0 := W_Busy j]\<rparr>"

lemma cluster_run: "(cluster_step sv)\<^sup>*\<^sup>* y z \<Longrightarrow> cluster_reachable sv y \<Longrightarrow> cluster_reachable sv z"
  by (induction rule: rtranclp_induct) (auto intro: Continues)

lemma claims_and_takes:
  assumes y: "i < length (cl_pools y)" "cl_pools y ! i = pool_init (pool_size sv)" "0 < pool_size sv"
    and new: "token \<notin> set (sy_tokens (cl_sys y))"
    and claim: "Claim (sv_pg sv) (c_LeaseDuration (sv_Config sv)) token now locked oc (sy_db (cl_sys y)) = (s', Inr j)"
  shows "(cluster_step sv)\<^sup>*\<^sup>* y (y\<lparr>cl_pools := (cl_pools y)[i := busy_pool (pool_size sv) j],
    cl_sys := (cl_sys y)\<lparr>sy_world := (sy_world (cl_sys y))\<lparr>w_db := s'\<rparr>,
      sy_jobs := j # sy_jobs (cl_sys y), sy_tokens := token # sy_tokens (cl_sys y)\<rparr>\<rparr>)"
proof -
  let ?N = "pool_size sv" and ?ps = "cl_pools y"
  let ?p1 = "(pool_init ?N)\<lparr>pl_slots := 1, pl_main := Claiming\<rparr>"
  let ?p2 = "(pool_init ?N)\<lparr>pl_slots := 1, pl_main := Sending j, pl_claimed := [j]\<rparr>"
  let ?p3 = "(pool_init ?N)\<lparr>pl_slots := 1, pl_jobs := [j], pl_claimed := [j]\<rparr>"
  let ?x = "(cl_sys y)\<lparr>sy_world := (sy_world (cl_sys y))\<lparr>w_db := s'\<rparr>, sy_jobs := j # sy_jobs (cl_sys y), sy_tokens := token # sy_tokens (cl_sys y)\<rparr>"
  have s1: "pool_step ?N (pool_init ?N) ?p1" using pool_step.Acquire [of "pool_init ?N" ?N] y(3) by (simp add: pool_init_def)
  have s2: "pool_step ?N ?p1 ?p2" using pool_step.Claimed [of ?p1 ?N j] by (simp add: pool_init_def)
  have s3: "pool_step ?N ?p2 ?p3" using pool_step.Send [of ?p2 j ?N] y(3) by (simp add: pool_init_def)
  have s4: "pool_step ?N ?p3 (busy_pool ?N j)"
    using pool_step.Take [of 0 ?p3 j "[]" ?N] y(3) by (simp add: pool_init_def busy_pool_def)
  note q = quiet_def pool_init_def busy_pool_def and further = rtranclp.rtrancl_into_rtrancl
  have "(cluster_step sv)\<^sup>*\<^sup>* y (y\<lparr>cl_pools := ?ps[i := ?p1]\<rparr>)"
    using r_into_rtranclp [of "cluster_step sv", OF Goes_on [OF y(1), of sv ?p1]] s1 y(2) by (simp add: q)
  from further [OF this Claims_job [of i _ sv ?p2 j token now locked oc s']] s2 y(1) new claim
  have "(cluster_step sv)\<^sup>*\<^sup>* y \<lparr>cl_sys = ?x, cl_pools = ?ps[i := ?p2]\<rparr>" by (cases y) (simp add: pool_init_def)
  from further [OF this Goes_on [of i _ sv ?p3]] s3 y(1)
  have "(cluster_step sv)\<^sup>*\<^sup>* y \<lparr>cl_sys = ?x, cl_pools = ?ps[i := ?p3]\<rparr>" by (simp add: q)
  from further [OF this Goes_on [of i _ sv "busy_pool ?N j"]] s4 y(1) show ?thesis by (cases y) (simp add: q)
qed

text \<open>Two processes: the first one's lease runs out while its worker is busy, and the second one claims the delivery.\<close>

definition two_processes :: "sys \<Rightarrow> pool \<Rightarrow> pool \<Rightarrow> cluster" where
  "two_processes x p q = \<lparr>cl_sys = x, cl_pools = [p, q]\<rparr>"

lemma sample_cluster:
  "cluster_reachable sample_server (two_processes sample_sys (busy_pool 5 sample_job) (pool_init 5))"
  "cluster_reachable sample_server (two_processes sample_sys2 (busy_pool 5 sample_job) (busy_pool 5 sample_job2))"
proof -
  have N: "pool_size sample_server = 5" by (simp add: sample_server_def sample_config_def)
  have "cluster_reachable sample_server (cluster_boot sample_world)"
    by (rule Boots) (simp_all add: sample_world_def sample_db_wf sample_db_inv)
  from Continues [OF this Starts] have "cluster_reachable sample_server (cluster_boot sample_world\<lparr>cl_pools := [pool_init 5]\<rparr>)"
    by (simp add: N cluster_boot_def)
  from Continues [OF this Starts]
  have start: "cluster_reachable sample_server (two_processes (sys_boot sample_world) (pool_init 5) (pool_init 5))"
    by (simp add: N cluster_boot_def two_processes_def)
  have "Claim (sv_pg sample_server) (c_LeaseDuration (sv_Config sample_server)) ''lease_a'' 30 (\<lambda>_. False) Done
      (sy_db (sys_boot sample_world)) = (sample_claimed, Inr sample_job)"
    using sample_claim_value by (simp add: sample_claim_def sample_server_def sample_config_def sys_boot_def sample_world_def second_def)
  from this cluster_run [OF claims_and_takes [of 0 _ sample_server "''lease_a''" 30 "\<lambda>_. False" Done] start]
  show first: "cluster_reachable sample_server (two_processes sample_sys (busy_pool 5 sample_job) (pool_init 5))"
    by (simp add: N two_processes_def sample_sys_def sys_boot_def sample_world_def sample_db_def sample_delivery_def List.map_filter_def)
  from sample_reclaim cluster_run [OF claims_and_takes [of 1 _ sample_server "''lease_b''" 70000000 "\<lambda>_. False" Done] first]
  show "cluster_reachable sample_server (two_processes sample_sys2 (busy_pool 5 sample_job) (busy_pool 5 sample_job2))"
    by (simp add: N two_processes_def sample_sys_def sample_sys2_def sample_world_def)
qed

theorem cluster_implements_system_witness: "sys_reachable sample_server sample_sys2 \<and> length (sy_jobs sample_sys2) \<le> 10"
  using cluster_implements_system [OF sample_cluster(2)] by (simp add: two_processes_def sample_server_def sample_config_def)

text \<open>
  C2: leases exclude each other, between goroutines. If two goroutines of the workers, of one process or of two, are busy with jobs for
  the same delivery (one of them stalled until its lease ran out), at most one of the jobs owns it: for the other one
  \<open>Finish\<close> and \<open>Defer\<close>, all that \<open>process\<close> does to the database, change nothing.
\<close>

theorem goroutines_exclusive:
  assumes "cluster_reachable sv y" and "busy y a i j" "busy y b k j'" "(a, i) \<noteq> (b, k)"
    and d: "d \<in> set (deliveries (sy_db (cl_sys y)))" "owns j d" "d_id d = j_ID j'"
  shows "\<not> owns j' d \<and> fst (Finish pg draw att now pl j' c dur reason (sy_db (cl_sys y))) = sy_db (cl_sys y) \<and>
    fst (Defer pg now oc j' status delay (sy_db (cl_sys y))) = sy_db (cl_sys y)"
proof -
  have ok: "cluster_ok sv y" "sys_reachable sv (cl_sys y)" using cluster_reachable_ok [OF assms(1)] by blast+
  note two = busy_two [OF ok(1) assms(2-4)]
  have "distinct (sy_jobs (cl_sys y))" using sys_reachable_inv [OF ok(2)] by (auto simp: sys_inv_def distinct_map)
  have "j \<noteq> j'"
  proof
    assume "j = j'"
    with mset_subset_eq_count [OF two, of j] have "2 \<le> count (mset (sy_jobs (cl_sys y))) j" by simp
    with \<open>distinct (sy_jobs (cl_sys y))\<close> show False by (simp add: distinct_count_atmost_1 split: if_split_asm)
  qed
  moreover have "j \<in> set (sy_jobs (cl_sys y))" "j' \<in> set (sy_jobs (cl_sys y))" using two by (auto dest: mset_subset_eqD)
  ultimately show ?thesis using single_owner [OF ok(2) _ _ _ d] by blast
qed

theorem goroutines_exclusive_witness:
  "fst (Finish sample_pg (\<lambda>_. 0) ''att_1'' 70000001 all_done sample_job 200 0 [] (sy_db sample_sys2)) = sy_db sample_sys2"
  using goroutines_exclusive [OF sample_cluster(2), of 1 0 sample_job2 0 0 sample_job sample_leased2]
  by (simp add: busy_def two_processes_def busy_pool_def pool_init_def sample_sys2_def owns_def sample_job2_def sample_job_def
      sample_leased2_def sample_leased_def claim_row_def sample_delivery_def)

end
