(* ===== verification/Receiver.thy ===== *)
theory Receiver
  imports Worker
begin

text \<open>
  \<^verbatim>\<open>src/internal/receiver/receiver.go\<close>: the demonstration receiver. It verifies the signature, counts the deliveries of
  each identifier under a mutex, and answers as its query asks. The counter is an association list with
  distinct keys; the mutex makes the update one step. \<open>gone\<close> says that the client leaves during the sleep.
\<close>

record receiver =
  rc_Secret :: string
  rc_counts :: "(string \<times> int) list"

record incoming =
  in_Path :: string
  in_Method :: string
  in_Header :: "string \<Rightarrow> string"
  in_Query :: "string \<Rightarrow> string"
  in_Body :: bytes
  in_BodyErr :: bool

datatype reply = Reply int "(string \<times> string) list" | Abandoned

definition receiver_New :: "string \<Rightarrow> receiver" where
  "receiver_New secret = \<lparr>rc_Secret = secret, rc_counts = []\<rparr>"

definition get_count :: "(string \<times> int) list \<Rightarrow> string \<Rightarrow> int" where
  "get_count cs k = (case map_of cs k of None \<Rightarrow> 0 | Some n \<Rightarrow> n)"

definition count_delivery :: "string \<Rightarrow> (string \<times> int) list \<Rightarrow> (string \<times> int) list" where
  "count_delivery k cs0 =
     (let cs = (if length cs0 > 10000 then [] else cs0)
      in (k, get_count cs k + 1) # filter (\<lambda>p. fst p \<noteq> k) cs)"

definition chosen_status :: "(string \<Rightarrow> string) \<Rightarrow> int" where
  "chosen_status q = (let n = atoi_value (q ''status'') in if n < 200 \<or> n > 599 then 200 else n)"

definition sleep_delay :: "(string \<Rightarrow> string) \<Rightarrow> duration" where
  "sleep_delay q =
     (let d = (case ParseDuration (q ''sleep'') of None \<Rightarrow> 0 | Some d \<Rightarrow> d) in if d > 30 * second then 30 * second else d)"

definition ServeHTTP :: "crypto \<Rightarrow> int \<Rightarrow> bool \<Rightarrow> incoming \<Rightarrow> receiver \<Rightarrow> receiver \<times> reply" where
  "ServeHTTP cr now gone r h =
     (if in_Path r = ''/health'' then (h, Reply 200 [])
      else if in_Method r \<noteq> ''POST'' then (h, Reply 405 [])
      else if in_BodyErr r \<or> length (in_Body r) > 1048576 then (h, Reply 413 [])
      else if \<not> Verify cr (rc_Secret h) (in_Header r ''X-PulseRoute-Timestamp'') (in_Header r ''X-PulseRoute-Signature'')
                (in_Body r) now
      then (h, Reply 401 [])
      else
        (let k = in_Header r ''X-PulseRoute-Delivery-ID'';
             cs = count_delivery k (rc_counts h);
             h' = h\<lparr>rc_counts := cs\<rparr>
         in if get_count cs k \<le> atoi_value (in_Query r ''failures'') then (h', Reply 500 [])
            else if sleep_delay (in_Query r) > 0 \<and> gone then (h', Abandoned)
            else (h', Reply (chosen_status (in_Query r))
                   (if chosen_status (in_Query r) = 429 then [(''Retry-After'', ''2'')] else []))))"

section \<open>Properties\<close>

definition counts_ok :: "(string \<times> int) list \<Rightarrow> bool" where
  "counts_ok cs \<longleftrightarrow> distinct (map fst cs) \<and> length cs \<le> 10001 \<and> (\<forall>p \<in> set cs. 1 \<le> snd p)"

lemma count_delivery_count: "length cs \<le> 10000 \<Longrightarrow> get_count (count_delivery k cs) k = get_count cs k + 1"
  by (simp add: count_delivery_def get_count_def Let_def)

lemma count_delivery_ok:
  assumes "counts_ok cs"
  shows "counts_ok (count_delivery k cs)"
proof -
  define xs where "xs = (if length cs > 10000 then [] else cs)"
  have xs: "distinct (map fst xs)" "length xs \<le> 10000" "\<forall>p \<in> set xs. 1 \<le> snd p"
    using assms by (auto simp: xs_def counts_ok_def)
  have "0 \<le> get_count xs k"
    using xs(3) by (auto simp: get_count_def split: option.split dest!: map_of_SomeD)
  moreover have "distinct (map fst (filter (\<lambda>p. fst p \<noteq> k) xs))" using xs(1) by (rule distinct_map_filter)
  moreover have "length (filter (\<lambda>p. fst p \<noteq> k) xs) \<le> 10000"
    using xs(2) length_filter_le [of "\<lambda>p. fst p \<noteq> k" xs] by linarith
  ultimately show ?thesis
    using xs(3) by (auto simp: counts_ok_def count_delivery_def simp flip: xs_def)
qed

text \<open>
  The receiver answers 401 and counts nothing for a request whose signature does not verify; it counts each
  verified delivery once more than before; and its table never exceeds 10001 entries, whatever is sent.
\<close>

lemma receiver_counts:
  assumes "counts_ok (rc_counts h)"
  shows "counts_ok (rc_counts (fst (ServeHTTP cr now gone r h))) \<and>
    (rc_counts (fst (ServeHTTP cr now gone r h)) = rc_counts h \<or>
     (Verify cr (rc_Secret h) (in_Header r ''X-PulseRoute-Timestamp'') (in_Header r ''X-PulseRoute-Signature'') (in_Body r) now \<and>
      (length (rc_counts h) \<le> 10000 \<longrightarrow>
        get_count (rc_counts (fst (ServeHTTP cr now gone r h))) (in_Header r ''X-PulseRoute-Delivery-ID'') =
        get_count (rc_counts h) (in_Header r ''X-PulseRoute-Delivery-ID'') + 1)))"
  using assms count_delivery_ok [OF assms, of "in_Header r ''X-PulseRoute-Delivery-ID''"]
  by (simp add: ServeHTTP_def Let_def count_delivery_count)

section \<open>From the worker to the receiver\<close>

definition as_incoming :: "string \<Rightarrow> (string \<Rightarrow> string) \<Rightarrow> http_request \<Rightarrow> incoming" where
  "as_incoming path q req =
     \<lparr>in_Path = path, in_Method = q_Method req,
      in_Header = (\<lambda>h. case map_of (q_Headers req) h of None \<Rightarrow> [] | Some x \<Rightarrow> x), in_Query = q, in_Body = q_Body req,
      in_BodyErr = False\<rparr>"

lemma process_request:
  assumes "process pg cr cfg v j s ls = (s', ls', Some req)"
  shows "\<not> v_cancelled v \<and> j_Active j \<and>
    snd (Allow (v_redis_now v) (v_redis v) (''endpoint:'' @ j_EndpointID j) (j_Rate j) (j_Rate j) ls) = Inr True \<and>
    (\<exists>secret. Decrypt cr (c_EncryptionKey cfg) (j_Secret j) = Inr secret \<and> req = signed_request cr secret (v_clock v) j)"
  using assms by (auto simp: process_def Let_def split_beta split: if_splits sum.splits)

lemma signed_request_headers [simp]:
  "in_Header (as_incoming path q (signed_request cr secret clock j)) ''X-PulseRoute-Timestamp'' = FormatInt (unix_of clock)"
  "in_Header (as_incoming path q (signed_request cr secret clock j)) ''X-PulseRoute-Signature'' =
     Sign cr secret (FormatInt (unix_of clock)) (j_Payload j)"
  "in_Header (as_incoming path q (signed_request cr secret clock j)) ''X-PulseRoute-Delivery-ID'' = j_ID j"
  "in_Body (as_incoming path q (signed_request cr secret clock j)) = j_Payload j"
  "in_Method (as_incoming path q (signed_request cr secret clock j)) = ''POST''"
  "in_Path (as_incoming path q (signed_request cr secret clock j)) = path"
  "in_BodyErr (as_incoming path q (signed_request cr secret clock j)) = False"
  "in_Query (as_incoming path q (signed_request cr secret clock j)) = q"
  "q_URL (signed_request cr secret clock j) = j_URL j" "q_Body (signed_request cr secret clock j) = j_Payload j"
  by (simp_all add: as_incoming_def signed_request_def Let_def)

text \<open>
  C38: what a worker sends, the holder of the endpoint's secret accepts. A request leaves a worker only for an
  active endpoint whose rate limiter allowed it; it carries the event's payload and the delivery's identifier;
  and a receiver that has the secret the worker decrypted accepts and counts it exactly while its clock is
  within five minutes of the stamp.
\<close>

theorem delivery_accepted:
  assumes req: "process pg cr cfg v j s ls = (s', ls', Some req)" and secret: "Decrypt cr (c_EncryptionKey cfg) (j_Secret j) = Inr (rc_Secret h)"
    and "path \<noteq> ''/health''" and "length (j_Payload j) \<le> 1048576" and "int64_range (unix_of (v_clock v))"
    and "length (rc_counts h) \<le> 10000"
  shows "j_Active j \<and> q_URL req = j_URL j \<and> q_Body req = j_Payload j \<and>
    snd (Allow (v_redis_now v) (v_redis v) (''endpoint:'' @ j_EndpointID j) (j_Rate j) (j_Rate j) ls) = Inr True \<and>
    (if now - 5 * minute \<le> time_Unix (unix_of (v_clock v)) \<and> time_Unix (unix_of (v_clock v)) \<le> now + 5 * minute
     then (chosen_status q \<noteq> 401 \<longrightarrow> snd (ServeHTTP cr now gone (as_incoming path q req) h) \<noteq> Reply 401 []) \<and>
       get_count (rc_counts (fst (ServeHTTP cr now gone (as_incoming path q req) h))) (j_ID j) = get_count (rc_counts h) (j_ID j) + 1
     else ServeHTTP cr now gone (as_incoming path q req) h = (h, Reply 401 []))"
proof -
  have r: "req = signed_request cr (rc_Secret h) (v_clock v) j" using process_request [OF req] secret by auto
  have v: "Verify cr (rc_Secret h) (FormatInt (unix_of (v_clock v)))
      (Sign cr (rc_Secret h) (FormatInt (unix_of (v_clock v))) (j_Payload j)) (j_Payload j) now \<longleftrightarrow>
      now - 5 * minute \<le> time_Unix (unix_of (v_clock v)) \<and> time_Unix (unix_of (v_clock v)) \<le> now + 5 * minute"
    by (rule Verify_Sign [OF assms(5)])
  show ?thesis
    using assms(3,4,6) process_request [OF req]
    by (simp add: r v ServeHTTP_def Let_def count_delivery_count)
qed

definition sample_visit :: visit where
  "sample_visit = \<lparr>v_cancelled = False, v_cancelled_after = False, v_now = 40, v_clock = time_Unix 1700000000, v_redis_now = 0,
     v_redis = Done, v_defer = Done, v_request_ok = True, v_response = Some 200, v_timed_out = False, v_elapsed = second,
     v_draw = (\<lambda>_. 0), v_attempt_id = ''att_1'', v_plan = all_done\<rparr>"

definition sealed_job :: job where
  "sealed_job = sample_job\<lparr>j_Secret := ''AAAAAAAAAAAAAAAAc2VjcmV0''\<rparr>"

lemma sealed_secret: "Decrypt sample_crypto (c_EncryptionKey sample_config) (j_Secret sealed_job) = Inr ''secret''"
  by code_simp

lemma sample_process:
  "\<exists>s' ls'. process sample_pg sample_crypto sample_config sample_visit sealed_job sample_claimed (\<lambda>_. None) =
     (s', ls', Some (signed_request sample_crypto ''secret'' (time_Unix 1700000000) sealed_job))"
proof -
  have "j_Active sealed_job" "j_Rate sealed_job = 10" by (simp_all add: sealed_job_def sample_job_def)
  moreover have "snd (Allow 0 Done k 10 10 (\<lambda>_. None)) = Inr True" for k
    by (simp add: Allow_def bucket_script_def live_bucket_def refill_def Let_def)
  ultimately show ?thesis
    using sealed_secret by (simp add: process_def sample_visit_def split_beta Let_def)
qed

theorem delivery_accepted_witness:
  "get_count (rc_counts (fst (ServeHTTP sample_crypto (time_Unix 1700000060) False
     (as_incoming ''/hook'' (\<lambda>_. []) (signed_request sample_crypto ''secret'' (time_Unix 1700000000) sealed_job)) (receiver_New ''secret''))))
     (j_ID sealed_job) = 1"
proof -
  obtain s' ls' where p: "process sample_pg sample_crypto sample_config sample_visit sealed_job sample_claimed (\<lambda>_. None) =
     (s', ls', Some (signed_request sample_crypto ''secret'' (time_Unix 1700000000) sealed_job))"
    using sample_process by blast
  have t: "unix_of (time_Unix n) = n" if "int64_range (n + unix_epoch)" for n
    using that by (simp add: unix_of_def time_Unix_def)
  have u: "unix_of (v_clock sample_visit) = 1700000000"
    using t [of 1700000000] by (simp add: sample_visit_def int64_range_def unix_epoch_def)
  show ?thesis
    using delivery_accepted [OF p, where h = "receiver_New ''secret''" and path = "''/hook''" and now = "time_Unix 1700000060" and gone = False and q = "\<lambda>_. []"] sealed_secret
    by (simp add: u receiver_New_def sealed_job_def sample_job_def int64_range_def time_Unix_def unix_epoch_def duration_defs
        get_count_def int64_wrap_def)
qed

end
