(* ===== verification/Progress.thy ===== *)
theory Progress
  imports Cluster Receiver
begin

text \<open>
  Deliveries move: a due delivery of a live endpoint, claimed and processed with the services answering, is sent
  signed to its endpoint and ends the round in the phase its answer calls for; and no reachable state leaves an open
  delivery stuck, whatever crashed while holding it.
\<close>

section \<open>One round of a worker\<close>

lemma candidate_alone:
  assumes "db_wf s" and "d \<in> set (deliveries s)" and "due now d"
  shows "candidate pg now (\<lambda>k. k \<noteq> d_id d) (deliveries s) = Some d"
proof (cases "candidate pg now (\<lambda>k. k \<noteq> d_id d) (deliveries s)")
  case None
  with assms show ?thesis by (auto simp: candidate_None)
next
  case (Some c)
  then show ?thesis
    using candidate_SomeD [OF Some] delivery_id_unique [OF assms(1,2)] by auto
qed

text \<open>A visit in which nothing fails: the receiver answers \<open>code\<close> in time and every call takes effect.\<close>

definition answered :: "visit \<Rightarrow> int \<Rightarrow> bool" where
  "answered v code \<longleftrightarrow>
     \<not> v_cancelled v \<and> \<not> v_cancelled_after v \<and> v_redis v = Done \<and> v_request_ok v \<and> v_response v = Some code \<and>
     \<not> v_timed_out v \<and> v_plan v = all_done \<and> int4_range code \<and> draw_ok (v_draw v)"

text \<open>The phase an answer calls for, after \<open>n\<close> earlier attempts of at most \<open>m\<close>.\<close>

definition phase_after :: "int \<Rightarrow> int \<Rightarrow> int \<Rightarrow> int \<Rightarrow> phase" where
  "phase_after code g n m =
     (if 200 \<le> code \<and> code < 300 then Delivered g (n + 1)
      else if Retryable code \<and> n + 1 < m then Waiting g (n + 1) else Dead_Lettered g (n + 1))"

lemma claim_round:
  assumes wf: "db_wf s" and d: "d \<in> set (deliveries s)" and due: "due now d"
    and ep: "ep \<in> set (endpoints s)" "ep_id ep = d_endpoint_id d" "endpoint_live ep"
  obtains j where "Claim pg lease token now (\<lambda>k. k \<noteq> d_id d) Done s =
      (s\<lparr>deliveries := tbl_update (\<lambda>x. d_id x = d_id d) (claim_row token (now + pg_interval pg lease) now) (deliveries s)\<rparr>, Inr j)"
    "owns j (claim_row token (now + pg_interval pg lease) now d)"
    "j_URL j = ep_url ep" "j_EndpointID j = d_endpoint_id d"
    "j_Secret j = ep_secret_cipher ep" "j_Attempt j = d_attempt_count d + 1" "j_MaxAttempts j = ep_max_attempts ep"
    "j_Rate j = ep_rate_per_second ep" "j_Active j"
proof -
  let ?u = "claim_row token (now + pg_interval pg lease) now"
  from wf d obtain e ep' where look: "lookup_by ev_id (events s) (d_event_id d) = Some e"
    "lookup_by ep_id (endpoints s) (d_endpoint_id d) = Some ep'" and ep': "ep' \<in> set (endpoints s)" "ep_id ep' = d_endpoint_id d"
    by (rule delivery_refs)
  have "ep' = ep"
    using wf ep ep' by (auto simp: db_wf_def wf_endpoints_def intro: key_unique)
  with look ep(3) show thesis
    by (intro that [of "the (job_of token s (?u d))"])
      (auto simp: Claim_def candidate_alone [OF wf d due] Let_def apply_out_def job_of_def owns_def)
qed

lemma process_answered:
  assumes "answered v code" and "j_Active j" and "Decrypt cr (c_EncryptionKey cfg) (j_Secret j) = Inr secret"
    and "snd (Allow (v_redis_now v) Done (''endpoint:'' @ j_EndpointID j) (j_Rate j) (j_Rate j) ls) = Inr True"
  shows "process pg cr cfg v j s ls =
      (fst (Finish pg (v_draw v) (v_attempt_id v) (v_now v) all_done j code (v_elapsed v)
         (if 200 \<le> code \<and> code < 300 then [] else ''HTTP '' @ FormatInt code) s),
       fst (Allow (v_redis_now v) Done (''endpoint:'' @ j_EndpointID j) (j_Rate j) (j_Rate j) ls),
       Some (signed_request cr secret (v_clock v) j))"
  using assms by (simp add: process_def answered_def attempt_result_def Let_def split_beta del: append.simps)

lemma Finish_phase:
  assumes "db_wf s" "queue_inv s" "job_ok s j" and d: "d \<in> set (deliveries s)" "owns j d"
    and "att \<notin> a_id ` set (delivery_attempts s)" "int4_range code" "draw_ok draw"
  obtains d' where "d' \<in> set (deliveries (fst (Finish pg draw att now all_done j code dur reason s)))" "d_id d' = d_id d"
    "phase_of d' = phase_after code (d_generation d) (d_attempt_count d) (j_MaxAttempts j)"
proof -
  let ?s' = "fst (Finish pg draw att now all_done j code dur reason s)"
  obtain st w where fin: "deliveries ?s' = tbl_update (\<lambda>x. x = d)
        (release_row st (j_Attempt j) (now + pg_interval pg w) now) (deliveries s)"
    and st: "st = Succeeded \<longleftrightarrow> 200 \<le> code \<and> code < 300"
      "st = Retrying \<longleftrightarrow> Retryable code \<and> j_Attempt j < j_MaxAttempts j" "st = Succeeded \<or> st = Retrying \<or> st = Dead"
    using Finish_commits [OF assms, of pg now dur reason] by (elim exE conjE) simp
  let ?r = "release_row st (j_Attempt j) (now + pg_interval pg w) now d"
  have "?r \<in> set (deliveries ?s')" using d by (auto simp: fin tbl_simps)
  moreover have "j_Attempt j = d_attempt_count d + 1" using assms(3) d by (auto simp: job_ok_def)
  then have "phase_of ?r = phase_after code (d_generation d) (d_attempt_count d) (j_MaxAttempts j)"
    using st by (auto simp: phase_release phase_after_def)
  ultimately show thesis by (intro that [of ?r]) simp_all
qed

lemma worker_round:
  assumes wf: "db_wf s" and inv: "queue_inv s" and d: "d \<in> set (deliveries s)" and due: "due now d"
    and ep: "ep \<in> set (endpoints s)" "ep_id ep = d_endpoint_id d" "endpoint_live ep"
    and sec: "Decrypt cr (c_EncryptionKey cfg) (ep_secret_cipher ep) = Inr secret"
    and lim: "snd (Allow (v_redis_now v) Done (''endpoint:'' @ d_endpoint_id d) (ep_rate_per_second ep)
      (ep_rate_per_second ep) ls) = Inr True"
    and v: "answered v code" "v_attempt_id v \<notin> a_id ` set (delivery_attempts s)"
  obtains s1 j s2 ls2 d' where "Claim pg lease token now (\<lambda>k. k \<noteq> d_id d) Done s = (s1, Inr j)"
    "process pg cr cfg v j s1 ls = (s2, ls2, Some (signed_request cr secret (v_clock v) j))"
    "j_URL j = ep_url ep" "d' \<in> set (deliveries s2)" "d_id d' = d_id d"
    "phase_of d' = phase_after code (d_generation d) (d_attempt_count d) (ep_max_attempts ep)"
proof (rule claim_round [OF wf d due ep, of pg lease token])
  fix j
  let ?u = "claim_row token (now + pg_interval pg lease) now"
  let ?s1 = "s\<lparr>deliveries := tbl_update (\<lambda>x. d_id x = d_id d) ?u (deliveries s)\<rparr>"
  assume claim: "Claim pg lease token now (\<lambda>k. k \<noteq> d_id d) Done s = (?s1, Inr j)" and own: "owns j (?u d)"
    and j: "j_URL j = ep_url ep" "j_EndpointID j = d_endpoint_id d" "j_Secret j = ep_secret_cipher ep"
      "j_MaxAttempts j = ep_max_attempts ep" "j_Rate j = ep_rate_per_second ep" "j_Active j"
  have s1: "db_wf ?s1" "queue_inv ?s1" "job_ok ?s1 j"
    using Claim_wf [OF wf] Claim_inv [OF wf inv] Claim_job_ok [OF claim wf] claim by (metis fst_conv)+
  have row: "?u d \<in> set (deliveries ?s1)" using d by (auto simp: tbl_simps)
  from v(1) have code: "int4_range code" "draw_ok (v_draw v)" by (simp_all add: answered_def)
  have att: "v_attempt_id v \<notin> a_id ` set (delivery_attempts ?s1)" using v(2) by simp
  note proc = process_answered [OF v(1), of j cr cfg secret ls pg ?s1]
  obtain d' where "d' \<in> set (deliveries (fst (process pg cr cfg v j ?s1 ls)))" "d_id d' = d_id (?u d)"
    "phase_of d' = phase_after code (d_generation (?u d)) (d_attempt_count (?u d)) (j_MaxAttempts j)"
    by (rule Finish_phase [OF s1 row own att code]) (use proc sec lim j in auto)
  with that [OF claim] proc sec lim j show thesis by simp
qed

text \<open>
  C7: one round of a worker, end to end. In every reachable state a delivery that is due (waiting, or left in
  flight by a worker whose lease ran out) is claimed when no other is available; with a live endpoint, a
  readable secret, a token left in the endpoint's bucket and a receiver that answers, one request signed with that
  secret goes to the endpoint's URL, and the delivery is delivered on 2xx, waits for a retry on a retryable
  status while attempts are left, and is dead-lettered otherwise.
\<close>

theorem worker_delivers:
  assumes "sys_reachable sv y" and "d \<in> set (deliveries (sy_db y))" "due now d"
    and "ep \<in> set (endpoints (sy_db y))" "ep_id ep = d_endpoint_id d" "endpoint_live ep"
    and "Decrypt cr (c_EncryptionKey cfg) (ep_secret_cipher ep) = Inr secret"
    and "snd (Allow (v_redis_now v) Done (''endpoint:'' @ d_endpoint_id d) (ep_rate_per_second ep)
      (ep_rate_per_second ep) ls) = Inr True"
    and "answered v code" "v_attempt_id v \<notin> a_id ` set (delivery_attempts (sy_db y))"
  shows "\<exists>s1 j s2 ls2. \<exists>d' \<in> set (deliveries s2).
    Claim pg lease token now (\<lambda>k. k \<noteq> d_id d) Done (sy_db y) = (s1, Inr j) \<and> j_URL j = ep_url ep \<and>
    process pg cr cfg v j s1 ls = (s2, ls2, Some (signed_request cr secret (v_clock v) j)) \<and> d_id d' = d_id d \<and>
    phase_of d' = phase_after code (d_generation d) (d_attempt_count d) (ep_max_attempts ep)"
proof -
  have "db_wf (sy_db y)" "queue_inv (sy_db y)"
    using sys_reachable_inv [OF assms(1)] by (simp_all add: sys_inv_def)
  from worker_round [OF this assms(2-10), of pg lease token] show ?thesis by metis
qed

definition sealed_endpoint :: endpoint_row where
  "sealed_endpoint = sample_endpoint\<lparr>ep_secret_cipher := j_Secret sealed_job\<rparr>"

definition sealed_world :: world where
  "sealed_world = sample_world\<lparr>w_db := sample_db\<lparr>endpoints := [sealed_endpoint]\<rparr>\<rparr>"

lemma sealed_ok: "db_wf (w_db sealed_world)" "queue_inv (w_db sealed_world)"
  using sample_db_wf sample_db_inv
  by (simp_all add: sealed_world_def sealed_endpoint_def sample_defs db_wf_def wf_defs policy_check_def queue_inv_def)

lemma sealed_boot: "sys_reachable sv (sys_boot sealed_world)"
  by (rule Start [OF sealed_ok])

lemma sealed_cluster: "cluster_reachable sv (cluster_boot sealed_world)"
  by (rule Boots [OF sealed_ok])

lemma sealed_rows:
  "sample_delivery \<in> set (deliveries (sy_db (sys_boot sealed_world)))"
  "sealed_endpoint \<in> set (endpoints (sy_db (sys_boot sealed_world)))" "ep_id sealed_endpoint = d_endpoint_id sample_delivery"
  "endpoint_live sealed_endpoint"
  "Decrypt sample_crypto (c_EncryptionKey sample_config) (ep_secret_cipher sealed_endpoint) = Inr ''secret''"
  using sealed_secret by (simp_all add: sys_boot_def sealed_world_def sealed_endpoint_def sample_defs endpoint_live_def)

theorem worker_delivers_witness:
  "\<exists>s1 j s2 ls2. \<exists>d' \<in> set (deliveries s2).
    Claim sample_pg 60000000000 ''lease_a'' 30 (\<lambda>k. k \<noteq> ''dlv_1'') Done (sy_db (sys_boot sealed_world)) = (s1, Inr j) \<and>
    process sample_pg sample_crypto sample_config sample_visit j s1 (\<lambda>_. None) =
      (s2, ls2, Some (signed_request sample_crypto ''secret'' (time_Unix 1700000000) j)) \<and>
    d_id d' = ''dlv_1'' \<and> phase_of d' = Delivered 0 1"
proof -
  have "due 30 sample_delivery" by (simp add: due_def sample_delivery_def)
  moreover have "snd (Allow (v_redis_now sample_visit) Done k (ep_rate_per_second sealed_endpoint)
      (ep_rate_per_second sealed_endpoint) (\<lambda>_. None)) = Inr True" for k
    by (simp add: Allow_def bucket_script_def live_bucket_def refill_def Let_def sealed_endpoint_def sample_endpoint_def)
  moreover have "answered sample_visit 200"
    by (simp add: answered_def sample_visit_def int4_range_def draw_ok_def)
  moreover have "v_attempt_id sample_visit \<notin> a_id ` set (delivery_attempts (sy_db (sys_boot sealed_world)))"
    by (simp add: sys_boot_def sealed_world_def sample_world_def sample_db_def)
  ultimately show ?thesis
    using worker_delivers [OF sealed_boot sealed_rows(1) _ sealed_rows(2-5), of 30 sample_visit "\<lambda>_. None" 200 sample_pg
        60000000000 "''lease_a''"]
    by (simp add: phase_after_def sample_delivery_def sample_visit_def del: bex_simps) metis
qed

section \<open>No delivery is stuck\<close>

lemma open_becomes_due:
  assumes "queue_inv s" and "d \<in> set (deliveries s)" and "open_status (d_status d)" "d_status d \<noteq> Cancelled"
  shows "\<exists>now. due now d"
proof -
  have "lease_ok d" using queue_invD [OF assms(1,2)] by (simp add: delivery_ok_def)
  then obtain u where "d_status d = Processing \<Longrightarrow> d_lease_until d = Some u"
    by (auto simp: lease_ok_def)
  then have "due (max (d_next_attempt_at d) (u + 1)) d"
    using assms(3,4) by (cases "d_status d") (auto simp: due_def open_status_def)
  then show ?thesis ..
qed

lemma bucket_lets_through:
  assumes "1 \<le> rate"
  shows "\<exists>now. snd (Allow now Done key rate rate ls) = Inr True"
proof (cases "ls (''limit:'' @ key)")
  case None
  with assms have "snd (Allow 0 Done key rate rate ls) = Inr True"
    using dbl_arg [of rate] by (simp add: Allow_def bucket_script_def live_bucket_def refill_def Let_def)
  then show ?thesis ..
next
  case (Some b)
  with assms have "snd (Allow (b_expires b + 1) Done key rate rate ls) = Inr True"
    using dbl_arg [of rate] by (simp add: Allow_def bucket_script_def live_bucket_def refill_def Let_def)
  then show ?thesis ..
qed

lemma fresh_string: "\<exists>t :: string. t \<notin> set xs"
  using ex_new_if_finite [OF infinite_UNIV_listI finite_set] by blast

text \<open>The system can always deliver an open delivery: by a claim with some fresh token and one run of \<open>process\<close>.\<close>

lemma round_possible:
  assumes reach: "sys_reachable sv y" and d: "d \<in> set (deliveries (sy_db y))"
    and open_: "phase_of d = Waiting g n \<or> phase_of d = In_Flight g n"
    and ep: "ep \<in> set (endpoints (sy_db y))" "ep_id ep = d_endpoint_id d" "endpoint_live ep"
    and sec: "Decrypt (sv_cr sv) (c_EncryptionKey (sv_Config sv)) (ep_secret_cipher ep) = Inr secret"
  obtains token now v s1 j s2 ls2 req d' where "token \<notin> set (sy_tokens y)" "\<not> v_cancelled v" "\<not> v_cancelled_after v"
    "Claim (sv_pg sv) (c_LeaseDuration (sv_Config sv)) token now (\<lambda>k. k \<noteq> d_id d) Done (sy_db y) = (s1, Inr j)"
    "process (sv_pg sv) (sv_cr sv) (sv_Config sv) v j s1 (w_limits (sy_world y)) = (s2, ls2, req)"
    "d' \<in> set (deliveries s2)" "d_id d' = d_id d" "phase_of d' = Delivered g (n + 1)"
proof -
  have inv: "db_wf (sy_db y)" "queue_inv (sy_db y)"
    using sys_reachable_inv [OF reach] by (simp_all add: sys_inv_def)
  have st: "open_status (d_status d)" "d_status d \<noteq> Cancelled" and gn: "g = d_generation d" "n = d_attempt_count d"
    using open_ by (auto simp: phase_of_def open_status_def split: delivery_status.splits)
  obtain now where now: "due now d" using open_becomes_due [OF inv(2) d st] ..
  have "1 \<le> ep_rate_per_second ep" using inv(1) ep(1) by (auto simp: db_wf_def wf_endpoints_def policy_check_def)
  from bucket_lets_through [OF this] obtain rnow where lim: "snd (Allow rnow Done (''endpoint:'' @ d_endpoint_id d)
      (ep_rate_per_second ep) (ep_rate_per_second ep) (w_limits (sy_world y))) = Inr True" by blast
  obtain token where token: "token \<notin> set (sy_tokens y)" using fresh_string ..
  obtain att where att: "att \<notin> a_id ` set (delivery_attempts (sy_db y))"
    using fresh_string [of "map a_id (delivery_attempts (sy_db y))"] by auto
  let ?v = "sample_visit\<lparr>v_redis_now := rnow, v_attempt_id := att\<rparr>"
  have v: "answered ?v 200" by (simp add: answered_def sample_visit_def int4_range_def draw_ok_def)
  from lim have lim': "snd (Allow (v_redis_now ?v) Done (''endpoint:'' @ d_endpoint_id d)
      (ep_rate_per_second ep) (ep_rate_per_second ep) (w_limits (sy_world y))) = Inr True" by simp
  from att have att': "v_attempt_id ?v \<notin> a_id ` set (delivery_attempts (sy_db y))" by simp
  obtain s1 j s2 ls2 d' where claim: "Claim (sv_pg sv) (c_LeaseDuration (sv_Config sv)) token now (\<lambda>k. k \<noteq> d_id d) Done (sy_db y) = (s1, Inr j)"
    and work: "process (sv_pg sv) (sv_cr sv) (sv_Config sv) ?v j s1 (w_limits (sy_world y)) =
      (s2, ls2, Some (signed_request (sv_cr sv) secret (v_clock ?v) j))"
    and d': "d' \<in> set (deliveries s2)" "d_id d' = d_id d"
      "phase_of d' = phase_after 200 (d_generation d) (d_attempt_count d) (ep_max_attempts ep)"
    by (rule worker_round [OF inv d now ep sec lim' v att'])
  have "\<not> v_cancelled ?v" "\<not> v_cancelled_after ?v" by (simp_all add: sample_visit_def)
  moreover have "phase_of d' = Delivered g (n + 1)" using d'(3) gn by (simp add: phase_after_def)
  ultimately show thesis using that [OF token _ _ claim work d'(1,2)] by blast
qed

text \<open>
  C6: nothing gets stuck. From every reachable state of a cluster, whatever calls failed and whichever processes died holding
  leases, a delivery that is waiting or in flight and whose endpoint is live with a readable secret can still be
  delivered: a worker process started now claims it, hands it to a goroutine, and that goroutine's \<open>process\<close> delivers it.
\<close>

theorem never_stuck:
  assumes reach: "cluster_reachable sv y" and size: "1 \<le> c_Workers (sv_Config sv)"
    and d: "d \<in> set (deliveries (sy_db (cl_sys y)))" "phase_of d = Waiting g n \<or> phase_of d = In_Flight g n"
    and ep: "ep \<in> set (endpoints (sy_db (cl_sys y)))" "ep_id ep = d_endpoint_id d" "endpoint_live ep"
    and sec: "Decrypt (sv_cr sv) (c_EncryptionKey (sv_Config sv)) (ep_secret_cipher ep) = Inr secret"
  shows "\<exists>z. (cluster_step sv)\<^sup>*\<^sup>* y z \<and>
    (\<exists>d' \<in> set (deliveries (sy_db (cl_sys z))). d_id d' = d_id d \<and> phase_of d' = Delivered g (n + 1))"
proof -
  have sys: "sys_reachable sv (cl_sys y)" using cluster_reachable_ok [OF reach] ..
  obtain token now v s1 j s2 ls2 req d' where round: "token \<notin> set (sy_tokens (cl_sys y))" "\<not> v_cancelled v" "\<not> v_cancelled_after v"
    "Claim (sv_pg sv) (c_LeaseDuration (sv_Config sv)) token now (\<lambda>k. k \<noteq> d_id d) Done (sy_db (cl_sys y)) = (s1, Inr j)"
    "process (sv_pg sv) (sv_cr sv) (sv_Config sv) v j s1 (w_limits (sy_world (cl_sys y))) = (s2, ls2, req)"
    and d': "d' \<in> set (deliveries s2)" "d_id d' = d_id d" "phase_of d' = Delivered g (n + 1)"
    by (rule round_possible [OF sys d ep sec])
  let ?y = "y\<lparr>cl_pools := cl_pools y @ [pool_init (pool_size sv)]\<rparr>" and ?i = "length (cl_pools y)"
  have N: "0 < pool_size sv" using size by simp
  obtain z where z: "(cluster_step sv)\<^sup>*\<^sup>* ?y z" "cl_pools z = cl_pools y @ [busy_pool (pool_size sv) j]" "sy_db (cl_sys z) = s1"
      "w_limits (sy_world (cl_sys z)) = w_limits (sy_world (cl_sys y))"
    using claims_and_takes [of ?i ?y sv token now "\<lambda>k. k \<noteq> d_id d" Done s1 j] N round(1,4) by simp
  let ?b = "busy_pool (pool_size sv) j"
  let ?q = "?b\<lparr>pl_workers := (pl_workers ?b)[0 := W_Freeing], pl_processed := [j]\<rparr>"
  have step: "pool_step (pool_size sv) ?b ?q"
    using pool_step.Processed [of 0 ?b j "pool_size sv"] N by (simp add: busy_pool_def pool_init_def)
  have "cluster_step sv z (z\<lparr>cl_pools := (cl_pools z)[?i := ?q],
      cl_sys := (cl_sys z)\<lparr>sy_world := (sy_world (cl_sys z))\<lparr>w_db := s2, w_limits := ls2\<rparr>, sy_jobs := remove1 j (sy_jobs (cl_sys z))\<rparr>\<rparr>)"
    by (rule Handles_job) (use step round(2,3,5) z(2-4) in \<open>simp_all add: busy_pool_def pool_init_def\<close>)
  then obtain z' where "cluster_step sv z z'" "sy_db (cl_sys z') = s2" by fastforce
  with z(1) Starts [of sv y] d' show ?thesis by (meson converse_rtranclp_into_rtranclp rtranclp.rtrancl_into_rtrancl)
qed

theorem never_stuck_witness:
  "\<exists>z. (cluster_step sample_server)\<^sup>*\<^sup>* (cluster_boot sealed_world) z \<and>
    (\<exists>d' \<in> set (deliveries (sy_db (cl_sys z))). d_id d' = ''dlv_1'' \<and> phase_of d' = Delivered 0 1)"
proof -
  have "phase_of sample_delivery = Waiting 0 0" "d_id sample_delivery = ''dlv_1''"
    by (simp_all add: phase_of_def sample_delivery_def)
  then show ?thesis
    using never_stuck [OF sealed_cluster, where sv = sample_server and d = sample_delivery and g = 0 and n = 0 and
        ep = sealed_endpoint and secret = "''secret''"] sealed_rows
    by (simp add: cluster_boot_def sample_server_def sample_config_def)
qed

end
