(* ===== verification/Democlient.thy ===== *)
theory Democlient
  imports Json_Props Security
begin

text \<open>
  \<^verbatim>\<open>src/internal/democlient/client.go\<close>: the client of the seeding and load-testing tools. The other end is a parameter:
  \<open>do\<close> is \<^verbatim>\<open>http.Client.Do\<close>, cookie jar included, from the state of everything outside to that state and an answer:
  a status with the bytes of the body and whether reading it fails after them, or no answer. The parser of URLs and the range
  check of \<^verbatim>\<open>strconv.ParseFloat\<close> are parameters. A body is the tree of the Go value, \<open>None\<close> one that \<^verbatim>\<open>json.Marshal\<close>
  refuses; a type assertion on a missing field panics, which is a result of its own.
\<close>

record client =
  dc_Base :: string
  dc_Timeout :: duration

record http_call =
  hc_Method :: string
  hc_URL :: string
  hc_Header :: "(string \<times> string) list"
  hc_Body :: bytes

datatype http_answer = No_Answer | Answer (an_status: int) (an_body: bytes) (an_err: bool)

type_synonym 'w transport = "http_call \<Rightarrow> 'w \<Rightarrow> 'w \<times> http_answer"

record net_lib =
  nl_parses :: "string \<Rightarrow> bool"
  nl_float64 :: "string \<Rightarrow> bool"

datatype call_error = MarshalFailed | RequestFailed | DoFailed | ReadFailed | HTTPStatus int bytes | UnmarshalFailed

type_synonym reply_map = "(string \<times> json) list"

definition democlient_New :: "string \<Rightarrow> client" where
  "democlient_New base = \<lparr>dc_Base = base, dc_Timeout = 20 * second\<rparr>"

definition max_reply :: nat where
  "max_reply = 2097152"

text \<open>
  \<^verbatim>\<open>json.Unmarshal\<close> into a map: the text is one value; \<^verbatim>\<open>null\<close> leaves the map nil, which reads as the empty one; a
  number that is not a \<^verbatim>\<open>float64\<close> is an error, wherever it stands.
\<close>

fun numbers_fit :: "(string \<Rightarrow> bool) \<Rightarrow> json \<Rightarrow> bool" where
  "numbers_fit fits (JNum t) \<longleftrightarrow> fits t"
| "numbers_fit fits (JArr vs) \<longleftrightarrow> (\<forall>v \<in> set vs. numbers_fit fits v)"
| "numbers_fit fits (JObj ms) \<longleftrightarrow> (\<forall>m \<in> set ms. numbers_fit fits (snd m))"
| "numbers_fit fits v \<longleftrightarrow> True"

definition unmarshal_map :: "net_lib \<Rightarrow> bytes \<Rightarrow> call_error + reply_map" where
  "unmarshal_map nl raw =
     (case json_next raw of
        None \<Rightarrow> Inl UnmarshalFailed
      | Some (v, rest) \<Rightarrow>
          (if skip_space rest \<noteq> [] then Inl UnmarshalFailed
           else case v of
                  JNull \<Rightarrow> Inr []
                | JObj ms \<Rightarrow>
                    (if numbers_fit (nl_float64 nl) v then Inr (go_map (map (\<lambda>m. (fst m, go_value (snd m))) ms))
                     else Inl UnmarshalFailed)
                | _ \<Rightarrow> Inl UnmarshalFailed))"

definition read_answer :: "net_lib \<Rightarrow> http_answer \<Rightarrow> call_error + reply_map" where
  "read_answer nl a =
     (case a of
        No_Answer \<Rightarrow> Inl DoFailed
      | Answer status body err \<Rightarrow>
          (let raw = take max_reply body in
           if err \<and> length body < max_reply then Inl ReadFailed
           else if status \<ge> 300 then Inl (HTTPStatus status raw)
           else if raw \<noteq> [] then unmarshal_map nl raw else Inr []))"

definition call_headers :: "string \<Rightarrow> (string \<times> string) list" where
  "call_headers key =
     (''Content-Type'', ''application/json'') # (if key \<noteq> [] then [(''Authorization'', ''Bearer '' @ key)] else [])"

definition http_call_of :: "client \<Rightarrow> string \<Rightarrow> string \<Rightarrow> string \<Rightarrow> json \<Rightarrow> http_call" where
  "http_call_of c method path key body =
     \<lparr>hc_Method = method, hc_URL = dc_Base c @ path, hc_Header = call_headers key, hc_Body = json_print body\<rparr>"

definition Call ::
  "net_lib \<Rightarrow> 'w transport \<Rightarrow> client \<Rightarrow> string \<Rightarrow> string \<Rightarrow> string \<Rightarrow> json option \<Rightarrow> 'w \<Rightarrow>
     'w \<times> (call_error + reply_map)" where
  "Call nl do c method path key body w =
     (case body of
        None \<Rightarrow> (w, Inl MarshalFailed)
      | Some b \<Rightarrow>
          (if \<not> nl_parses nl (dc_Base c @ path) then (w, Inl RequestFailed)
           else let (w', a) = do (http_call_of c method path key b) w in (w', read_answer nl a)))"

section \<open>Bootstrap\<close>

definition obj :: "(string \<times> json) list \<Rightarrow> json option" where
  "obj ms = Some (JObj (go_map ms))"

datatype boot_result = BootFailed call_error | BootPanic | Booted string string

definition text_of :: "reply_map \<Rightarrow> string \<Rightarrow> string option" where
  "text_of m k = (case map_of m k of Some (JStr t) \<Rightarrow> Some t | _ \<Rightarrow> None)"

definition credentials_body :: "string \<Rightarrow> string \<Rightarrow> json option" where
  "credentials_body email password = obj [(''email'', JStr email), (''password'', JStr password)]"

definition name_body :: "string \<Rightarrow> json option" where
  "name_body name = obj [(''name'', JStr name)]"

definition endpoint_body :: "string \<Rightarrow> string \<Rightarrow> string \<Rightarrow> json option" where
  "endpoint_body name url secret =
     obj [(''name'', JStr name), (''url'', JStr url), (''secret'', JStr secret), (''base_delay_seconds'', JNum (FormatInt 1))]"

definition demo_endpoints :: "(string \<times> string) list" where
  "demo_endpoints =
     [(''Successful destination'', []), (''Recovers after two failures'', ''?failures=2''), (''Permanent failure'', ''?status=400'')]"

fun add_endpoints ::
  "net_lib \<Rightarrow> 'w transport \<Rightarrow> client \<Rightarrow> string \<Rightarrow> string \<Rightarrow> string \<Rightarrow> (string \<times> string) list \<Rightarrow> 'w \<Rightarrow>
     'w \<times> (call_error + unit)" where
  "add_endpoints nl do c pid endpoint secret [] w = (w, Inr ())"
| "add_endpoints nl do c pid endpoint secret ((name, suffix) # items) w =
     (case Call nl do c ''POST'' (''/api/projects/'' @ pid @ ''/endpoints'') [] (endpoint_body name (endpoint @ suffix) secret) w of
        (w', Inl e) \<Rightarrow> (w', Inl e)
      | (w', Inr _) \<Rightarrow> add_endpoints nl do c pid endpoint secret items w')"

text \<open>\<open>sign_in\<close> is the first statement: register, or sign in when that fails; \<open>set_up\<close> the rest.\<close>

definition sign_in ::
  "net_lib \<Rightarrow> 'w transport \<Rightarrow> client \<Rightarrow> string \<Rightarrow> string \<Rightarrow> 'w \<Rightarrow> 'w \<times> (call_error + unit)" where
  "sign_in nl do c email password w =
     (case Call nl do c ''POST'' ''/api/auth/register'' [] (credentials_body email password) w of
        (w1, Inr _) \<Rightarrow> (w1, Inr ())
      | (w1, Inl _) \<Rightarrow>
          (case Call nl do c ''POST'' ''/api/auth/login'' [] (credentials_body email password) w1 of
             (w2, Inl e) \<Rightarrow> (w2, Inl e)
           | (w2, Inr _) \<Rightarrow> (w2, Inr ())))"

definition new_key :: "net_lib \<Rightarrow> 'w transport \<Rightarrow> client \<Rightarrow> string \<Rightarrow> 'w \<Rightarrow> 'w \<times> boot_result" where
  "new_key nl do c pid w =
     (case Call nl do c ''POST'' (''/api/projects/'' @ pid @ ''/api-keys'') [] (name_body ''Synthetic seed'') w of
        (w', Inl e) \<Rightarrow> (w', BootFailed e)
      | (w', Inr k) \<Rightarrow> (w', case text_of k ''key'' of None \<Rightarrow> BootPanic | Some key \<Rightarrow> Booted pid key))"

definition set_up :: "net_lib \<Rightarrow> 'w transport \<Rightarrow> client \<Rightarrow> string \<Rightarrow> string \<Rightarrow> 'w \<Rightarrow> 'w \<times> boot_result" where
  "set_up nl do c endpoint secret w =
     (case Call nl do c ''POST'' ''/api/projects'' [] (name_body ''Synthetic operations'') w of
        (w1, Inl e) \<Rightarrow> (w1, BootFailed e)
      | (w1, Inr p) \<Rightarrow>
          (case text_of p ''id'' of
             None \<Rightarrow> (w1, BootPanic)
           | Some pid \<Rightarrow>
               (case add_endpoints nl do c pid endpoint secret demo_endpoints w1 of
                  (w2, Inl e) \<Rightarrow> (w2, BootFailed e)
                | (w2, Inr _) \<Rightarrow> new_key nl do c pid w2)))"

definition Bootstrap ::
  "net_lib \<Rightarrow> 'w transport \<Rightarrow> client \<Rightarrow> string \<Rightarrow> string \<Rightarrow> string \<Rightarrow> string \<Rightarrow> 'w \<Rightarrow> 'w \<times> boot_result" where
  "Bootstrap nl do c email password endpoint secret w =
     (case sign_in nl do c email password w of
        (w1, Inl e) \<Rightarrow> (w1, BootFailed e)
      | (w1, Inr _) \<Rightarrow> set_up nl do c endpoint secret w1)"

end
