(* ===== verification/Loadtest.thy ===== *)
theory Loadtest
  imports Runs Go_Text "HOL-Library.Multiset" "HOL-Library.Log_Nat"
begin

text \<open>
  \<^verbatim>\<open>src/cmd/loadtest/main.go\<close>: the main goroutine hands the numbers \<open>0..n-1\<close> over the unbuffered channel \<^verbatim>\<open>jobs\<close> to
  \<open>c\<close> goroutines, each of which posts one event per number, adds to \<^verbatim>\<open>failures\<close> when the call failed, and appends the
  latency under the mutex. A step of \<open>lt_step\<close> is a hand-over on the channel or one effect of one goroutine; any
  interleaving is a run. \<open>lt_calls\<close> records the calls that came back, with the number and whether it succeeded. The
  report reads the sorted latencies at two indices, the second computed in \<^verbatim>\<open>float64\<close>.
\<close>

definition loadtest_args :: "string \<Rightarrow> int \<Rightarrow> int \<Rightarrow> bool" where
  "loadtest_args key n c \<longleftrightarrow> \<not> (key = [] \<or> n < 1 \<or> c < 1 \<or> c > 128)"

datatype lt_main = L_Sending | L_Waiting | L_Reporting

datatype lt_worker = L_Idle | L_Calling int | L_Failed int | L_Called int | L_Exited

record loadtest =
  lt_next :: int
  lt_closed :: bool
  lt_main :: lt_main
  lt_workers :: "lt_worker list"
  lt_failures :: int
  lt_latencies :: "rat list"
  lt_calls :: "(int \<times> bool) list"

definition lt_init :: "nat \<Rightarrow> loadtest" where
  "lt_init c = \<lparr>lt_next = 0, lt_closed = False, lt_main = L_Sending, lt_workers = replicate c L_Idle, lt_failures = 0,
     lt_latencies = [], lt_calls = []\<rparr>"

inductive lt_step :: "int \<Rightarrow> loadtest \<Rightarrow> loadtest \<Rightarrow> bool" for n where
  Hand_over: "lt_main s = L_Sending \<Longrightarrow> lt_next s < n \<Longrightarrow> i < length (lt_workers s) \<Longrightarrow> lt_workers s ! i = L_Idle \<Longrightarrow>
    lt_step n s (s\<lparr>lt_next := lt_next s + 1, lt_workers := (lt_workers s)[i := L_Calling (lt_next s)]\<rparr>)"
| Close: "lt_main s = L_Sending \<Longrightarrow> \<not> lt_next s < n \<Longrightarrow> lt_step n s (s\<lparr>lt_main := L_Waiting, lt_closed := True\<rparr>)"
| Call_ok: "i < length (lt_workers s) \<Longrightarrow> lt_workers s ! i = L_Calling j \<Longrightarrow>
    lt_step n s (s\<lparr>lt_workers := (lt_workers s)[i := L_Called j], lt_calls := lt_calls s @ [(j, True)]\<rparr>)"
| Call_failed: "i < length (lt_workers s) \<Longrightarrow> lt_workers s ! i = L_Calling j \<Longrightarrow>
    lt_step n s (s\<lparr>lt_workers := (lt_workers s)[i := L_Failed j], lt_calls := lt_calls s @ [(j, False)]\<rparr>)"
| Count: "i < length (lt_workers s) \<Longrightarrow> lt_workers s ! i = L_Failed j \<Longrightarrow>
    lt_step n s (s\<lparr>lt_workers := (lt_workers s)[i := L_Called j], lt_failures := go_add (lt_failures s) 1\<rparr>)"
| Append: "i < length (lt_workers s) \<Longrightarrow> lt_workers s ! i = L_Called j \<Longrightarrow>
    lt_step n s (s\<lparr>lt_workers := (lt_workers s)[i := L_Idle], lt_latencies := lt_latencies s @ [ms]\<rparr>)"
| Exit: "i < length (lt_workers s) \<Longrightarrow> lt_workers s ! i = L_Idle \<Longrightarrow> lt_closed s \<Longrightarrow>
    lt_step n s (s\<lparr>lt_workers := (lt_workers s)[i := L_Exited]\<rparr>)"
| Join: "lt_main s = L_Waiting \<Longrightarrow> (\<forall>w \<in> set (lt_workers s). w = L_Exited) \<Longrightarrow> lt_step n s (s\<lparr>lt_main := L_Reporting\<rparr>)"

inductive lt_reachable :: "int \<Rightarrow> nat \<Rightarrow> loadtest \<Rightarrow> bool" for n c where
  Begin: "lt_reachable n c (lt_init c)"
| Goes: "lt_reachable n c s \<Longrightarrow> lt_step n s s' \<Longrightarrow> lt_reachable n c s'"

section \<open>The report\<close>

text \<open>
  A non-negative \<^verbatim>\<open>float64\<close> integer product: \<open>float_round\<close> keeps the 53 leading bits of a number, rounding to the nearest,
  ties to even. The constant \<^verbatim>\<open>.95\<close> is \<open>c95 / 2 ^ 53\<close>, and the conversion to \<^verbatim>\<open>int\<close> drops the fraction.
\<close>

definition float_round :: "nat \<Rightarrow> nat" where
  "float_round p =
     (let u = 2 ^ (floorlog 2 p - 53); q = p div u; r = p mod u
      in (if u < 2 * r \<or> (2 * r = u \<and> odd q) then q + 1 else q) * u)"

definition c95 :: nat where
  "c95 = 8556839292003942"

definition p95_index :: "nat \<Rightarrow> nat" where
  "p95_index k = float_round (float_round k * c95) div 2 ^ 53"

record report =
  rp_requests :: int
  rp_errors :: int
  rp_p50 :: rat
  rp_p95 :: rat

text \<open>\<open>None\<close>: an index is out of range and the program panics. The second result is the exit status.\<close>

definition report_of :: "int \<Rightarrow> loadtest \<Rightarrow> (report \<times> int) option" where
  "report_of n s =
     (let ls = sort (lt_latencies s); p50 = length ls div 2; p95 = p95_index (length ls - 1)
      in if p50 < length ls \<and> p95 < length ls
         then Some (\<lparr>rp_requests = n, rp_errors = lt_failures s, rp_p50 = ls ! p50, rp_p95 = ls ! p95\<rparr>,
           if lt_failures s > 0 then 1 else 0)
         else None)"

section \<open>The indices of the report\<close>

lemma float_round_bound: "float_round p * 2 ^ 53 \<le> p * (2 ^ 53 + 1)" and float_round_low: "p * (2 ^ 53 - 1) \<le> float_round p * 2 ^ 53"
proof -
  have "float_round p * 2 ^ 53 \<le> p * (2 ^ 53 + 1) \<and> p * 2 ^ 53 \<le> float_round p * 2 ^ 53 + p"
  proof (cases "floorlog 2 p \<le> 53")
    case True
    then show ?thesis by (simp add: float_round_def Let_def)
  next
    case False
    define s where "s = floorlog 2 p - 53"
    define u :: nat where "u = 2 ^ s"
    have "p \<noteq> 0" using False by (cases p) (auto simp: floorlog_def)
    then have "2 ^ (floorlog 2 p - 1) \<le> p" using floorlog_bounds [of p 2] by simp
    moreover have "floorlog 2 p - 1 = s + 52" using False by (simp add: s_def)
    ultimately have u: "u * 2 ^ 52 \<le> p" by (simp add: u_def power_add)
    define q r where "q = p div u" and "r = p mod u"
    have p: "p = q * u + r" by (simp add: q_def r_def)
    have "r < u" by (simp add: r_def u_def)
    moreover have "float_round p = (if u < 2 * r \<or> (2 * r = u \<and> odd q) then q + 1 else q) * u"
      by (simp add: float_round_def Let_def q_def r_def u_def s_def)
    ultimately have "2 * float_round p \<le> 2 * p + u" "2 * p \<le> 2 * float_round p + u"
      by (auto simp: p algebra_simps)
    then have "2 * float_round p * 2 ^ 52 \<le> (2 * p + u) * 2 ^ 52" "2 * p * 2 ^ 52 \<le> (2 * float_round p + u) * 2 ^ 52"
      by (auto intro: mult_right_mono)
    with u show ?thesis by (simp add: algebra_simps)
  qed
  then show "float_round p * 2 ^ 53 \<le> p * (2 ^ 53 + 1)" "p * (2 ^ 53 - 1) \<le> float_round p * 2 ^ 53"
    by (simp_all add: algebra_simps)
qed

lemma p95_index_bound: "p95_index k \<le> k"
proof -
  let ?a = "float_round k" and ?b = "float_round (float_round k * c95)"
  have "?b * 2 ^ 53 * 2 ^ 53 \<le> ?a * c95 * (2 ^ 53 + 1) * 2 ^ 53"
    by (rule mult_right_mono [OF float_round_bound]) simp
  also have "\<dots> = ?a * 2 ^ 53 * (c95 * (2 ^ 53 + 1))" by (simp add: ac_simps)
  also have "\<dots> \<le> k * (2 ^ 53 + 1) * (c95 * (2 ^ 53 + 1))"
    by (rule mult_right_mono [OF float_round_bound]) simp
  also have "\<dots> = k * ((2 ^ 53 + 1) * (c95 * (2 ^ 53 + 1)))" by (simp only: ac_simps)
  also have "\<dots> \<le> k * (2 ^ 53 * 2 ^ 53 * 2 ^ 53)"
    by (rule mult_left_mono) (simp_all add: c95_def)
  finally have "?b \<le> k * 2 ^ 53" by simp
  then have "?b div 2 ^ 53 \<le> k * 2 ^ 53 div 2 ^ 53" by (rule div_le_mono)
  then show ?thesis by (simp add: p95_index_def)
qed

text \<open>The median's index is not above it, but for two latencies.\<close>

lemma p95_index_low: "2 \<le> k \<Longrightarrow> (k + 1) div 2 \<le> p95_index k"
proof -
  let ?a = "float_round k" and ?b = "float_round (float_round k * c95)" and ?j = "(k + 1) div 2"
  assume "2 \<le> k"
  then have j: "4 * ?j \<le> 3 * k" by simp
  have "4 * ?j * 2 ^ 53 * (2 ^ 53 * 2 ^ 53) \<le> 3 * k * 2 ^ 53 * (2 ^ 53 * 2 ^ 53)"
    by (intro mult_right_mono j) simp_all
  also have "\<dots> = k * (3 * 2 ^ 53 * (2 ^ 53 * 2 ^ 53))" by (simp only: ac_simps)
  also have "\<dots> \<le> k * (4 * ((2 ^ 53 - 1) * (c95 * (2 ^ 53 - 1))))"
    by (rule mult_left_mono) (simp_all add: c95_def)
  also have "\<dots> = k * (2 ^ 53 - 1) * (4 * (c95 * (2 ^ 53 - 1)))" by (simp only: ac_simps)
  also have "\<dots> \<le> ?a * 2 ^ 53 * (4 * (c95 * (2 ^ 53 - 1)))"
    by (rule mult_right_mono [OF float_round_low]) simp
  also have "\<dots> = ?a * c95 * (2 ^ 53 - 1) * (4 * 2 ^ 53)" by (simp only: ac_simps)
  also have "\<dots> \<le> ?b * 2 ^ 53 * (4 * 2 ^ 53)"
    by (rule mult_right_mono [OF float_round_low]) simp
  finally have "?j * 2 ^ 53 \<le> ?b" by simp
  then have "?j * 2 ^ 53 div 2 ^ 53 \<le> ?b div 2 ^ 53" by (rule div_le_mono)
  then show ?thesis by (simp add: p95_index_def)
qed

section \<open>Every number is posted once\<close>

fun lt_job :: "lt_worker \<Rightarrow> int multiset" where
  "lt_job (L_Calling j) = {#j#}"
| "lt_job w = {#}"

fun lt_failed :: "lt_worker \<Rightarrow> nat" where
  "lt_failed (L_Failed j) = 1"
| "lt_failed w = 0"

fun lt_due :: "lt_worker \<Rightarrow> nat" where
  "lt_due (L_Failed j) = 1"
| "lt_due (L_Called j) = 1"
| "lt_due w = 0"

definition errors_of :: "(int \<times> bool) list \<Rightarrow> nat" where
  "errors_of cs = length (filter (\<lambda>c. \<not> snd c) cs)"

definition lt_jobs_ok :: "int \<Rightarrow> loadtest \<Rightarrow> bool" where
  "lt_jobs_ok n s \<longleftrightarrow> 0 \<le> lt_next s \<and> lt_next s \<le> n \<and>
     mset (map fst (lt_calls s)) + sum_list (map lt_job (lt_workers s)) = mset [0..lt_next s - 1]"

definition lt_counts_ok :: "loadtest \<Rightarrow> bool" where
  "lt_counts_ok s \<longleftrightarrow>
     length (lt_latencies s) + sum_list (map lt_due (lt_workers s)) = length (lt_calls s) \<and>
     lt_failures s + int (sum_list (map lt_failed (lt_workers s))) = int (errors_of (lt_calls s)) \<and> 0 \<le> lt_failures s"

definition lt_main_ok :: "int \<Rightarrow> nat \<Rightarrow> loadtest \<Rightarrow> bool" where
  "lt_main_ok n c s \<longleftrightarrow> length (lt_workers s) = c \<and> (lt_closed s \<longleftrightarrow> lt_main s \<noteq> L_Sending) \<and>
     (lt_closed s \<longrightarrow> lt_next s = n) \<and> (L_Exited \<in> set (lt_workers s) \<longrightarrow> lt_closed s) \<and>
     (lt_main s = L_Reporting \<longrightarrow> (\<forall>w \<in> set (lt_workers s). w = L_Exited))"

definition lt_ok :: "int \<Rightarrow> nat \<Rightarrow> loadtest \<Rightarrow> bool" where
  "lt_ok n c s \<longleftrightarrow> 0 < c \<and> 0 < n \<and> int64_range n \<and> lt_jobs_ok n s \<and> lt_counts_ok s \<and> lt_main_ok n c s"

lemma lt_jobs_step: "lt_step n s s' \<Longrightarrow> lt_jobs_ok n s \<Longrightarrow> lt_jobs_ok n s'"
proof (induction rule: lt_step.induct)
  case (Hand_over s i)
  then show ?case
    using sum_list_swap [of i "lt_workers s" lt_job "L_Calling (lt_next s)"] upto_rec2 [of 0 "lt_next s"]
    by (simp add: lt_jobs_ok_def)
next
  case (Call_ok i s j)
  then show ?case using sum_list_swap [of i "lt_workers s" lt_job "L_Called j"]
    by (simp add: lt_jobs_ok_def) (metis union_mset_add_mset_right)
next
  case (Call_failed i s j)
  then show ?case using sum_list_swap [of i "lt_workers s" lt_job "L_Failed j"]
    by (simp add: lt_jobs_ok_def) (metis union_mset_add_mset_right)
next
  case (Count i s j)
  then show ?case using sum_list_swap [of i "lt_workers s" lt_job "L_Called j"] by (simp add: lt_jobs_ok_def)
next
  case (Append i s j ms)
  then show ?case using sum_list_swap [of i "lt_workers s" lt_job L_Idle] by (simp add: lt_jobs_ok_def)
next
  case (Exit i s)
  then show ?case using sum_list_swap [of i "lt_workers s" lt_job L_Exited] by (simp add: lt_jobs_ok_def)
qed (simp_all add: lt_jobs_ok_def)

lemma lt_calls_bound: "lt_jobs_ok n s \<Longrightarrow> int (length (lt_calls s)) \<le> n"
proof -
  assume ok: "lt_jobs_ok n s"
  then have "size (mset (map fst (lt_calls s)) + sum_list (map lt_job (lt_workers s))) = size (mset [0..lt_next s - 1])"
    by (simp only: lt_jobs_ok_def)
  then have "length (lt_calls s) \<le> nat (lt_next s)" by simp
  with ok show ?thesis by (auto simp: lt_jobs_ok_def le_nat_iff)
qed

lemma errors_of_bound: "errors_of cs \<le> length cs"
  by (simp add: errors_of_def)

lemma lt_counts_step: "lt_step n s s' \<Longrightarrow> int64_range n \<Longrightarrow> lt_jobs_ok n s \<Longrightarrow> lt_counts_ok s \<Longrightarrow> lt_counts_ok s'"
proof (induction rule: lt_step.induct)
  case (Hand_over s i)
  then show ?case
    using sum_list_swap [of i "lt_workers s" lt_due "L_Calling (lt_next s)"]
      sum_list_swap [of i "lt_workers s" lt_failed "L_Calling (lt_next s)"] by (simp add: lt_counts_ok_def)
next
  case (Call_ok i s j)
  then show ?case
    using sum_list_swap [of i "lt_workers s" lt_due "L_Called j"] sum_list_swap [of i "lt_workers s" lt_failed "L_Called j"]
    by (simp add: lt_counts_ok_def errors_of_def)
next
  case (Call_failed i s j)
  then show ?case
    using sum_list_swap [of i "lt_workers s" lt_due "L_Failed j"] sum_list_swap [of i "lt_workers s" lt_failed "L_Failed j"]
    by (simp add: lt_counts_ok_def errors_of_def)
next
  case (Count i s j)
  have "1 \<le> sum_list (map lt_failed (lt_workers s))" using sum_list_ge [of i "lt_workers s" lt_failed] Count by simp
  then have "lt_failures s < int (errors_of (lt_calls s))" using Count by (simp add: lt_counts_ok_def)
  with errors_of_bound [of "lt_calls s"] lt_calls_bound [OF Count.prems(2)] Count.prems(1,3)
  have "int64_range (lt_failures s + 1)" by (simp add: int64_range_def lt_counts_ok_def)
  with Count show ?case
    using sum_list_swap [of i "lt_workers s" lt_due "L_Called j"] sum_list_swap [of i "lt_workers s" lt_failed "L_Called j"]
    by (simp add: lt_counts_ok_def go_add_def)
next
  case (Append i s j ms)
  then show ?case
    using sum_list_swap [of i "lt_workers s" lt_due L_Idle] sum_list_swap [of i "lt_workers s" lt_failed L_Idle]
    by (simp add: lt_counts_ok_def)
next
  case (Exit i s)
  then show ?case
    using sum_list_swap [of i "lt_workers s" lt_due L_Exited] sum_list_swap [of i "lt_workers s" lt_failed L_Exited]
    by (simp add: lt_counts_ok_def)
qed (simp_all add: lt_counts_ok_def)

lemma lt_main_step: "lt_step n s s' \<Longrightarrow> lt_jobs_ok n s \<Longrightarrow> lt_main_ok n c s \<Longrightarrow> lt_main_ok n c s'"
  by (induction rule: lt_step.induct)
    (auto simp: lt_main_ok_def lt_jobs_ok_def all_set_conv_all_nth nth_list_update dest!: subsetD [OF set_update_subset_insert])

lemma sum_list_replicate_0:
  fixes f :: "'a \<Rightarrow> 'b :: comm_monoid_add"
  shows "f x = 0 \<Longrightarrow> sum_list (map f (replicate c x)) = 0"
  by (induction c) simp_all

lemma lt_ok_init: "0 < c \<Longrightarrow> 0 < n \<Longrightarrow> int64_range n \<Longrightarrow> lt_ok n c (lt_init c)"
  by (auto simp: lt_ok_def lt_jobs_ok_def lt_counts_ok_def lt_main_ok_def lt_init_def errors_of_def sum_list_replicate_0
      simp del: map_replicate)

section \<open>The run ends\<close>

fun lt_worker_work :: "lt_worker \<Rightarrow> nat" where
  "lt_worker_work L_Exited = 0"
| "lt_worker_work L_Idle = 1"
| "lt_worker_work (L_Called j) = 2"
| "lt_worker_work (L_Failed j) = 3"
| "lt_worker_work (L_Calling j) = 4"

fun lt_main_work :: "lt_main \<Rightarrow> nat" where
  "lt_main_work L_Sending = 2"
| "lt_main_work L_Waiting = 1"
| "lt_main_work L_Reporting = 0"

definition lt_work :: "int \<Rightarrow> loadtest \<Rightarrow> nat" where
  "lt_work n s = 4 * nat (n - lt_next s) + sum_list (map lt_worker_work (lt_workers s)) + lt_main_work (lt_main s)"

lemma lt_work_step: "lt_step n s s' \<Longrightarrow> lt_work n s' < lt_work n s"
proof (induction rule: lt_step.induct)
  case (Hand_over s i)
  then show ?case using sum_list_swap [of i "lt_workers s" lt_worker_work "L_Calling (lt_next s)"] by (simp add: lt_work_def)
next
  case (Call_ok i s j)
  then show ?case using sum_list_swap [of i "lt_workers s" lt_worker_work "L_Called j"] by (simp add: lt_work_def)
next
  case (Call_failed i s j)
  then show ?case using sum_list_swap [of i "lt_workers s" lt_worker_work "L_Failed j"] by (simp add: lt_work_def)
next
  case (Count i s j)
  then show ?case using sum_list_swap [of i "lt_workers s" lt_worker_work "L_Called j"] by (simp add: lt_work_def)
next
  case (Append i s j ms)
  then show ?case using sum_list_swap [of i "lt_workers s" lt_worker_work L_Idle] by (simp add: lt_work_def)
next
  case (Exit i s)
  then show ?case using sum_list_swap [of i "lt_workers s" lt_worker_work L_Exited] by (simp add: lt_work_def)
qed (simp_all add: lt_work_def)

lemma lt_progress:
  assumes "lt_ok n c s" and "lt_main s \<noteq> L_Reporting"
  shows "\<exists>s'. lt_step n s s'"
proof (cases "\<forall>w \<in> set (lt_workers s). w = L_Idle \<or> w = L_Exited")
  case False
  then obtain i where i: "i < length (lt_workers s)" "lt_workers s ! i \<noteq> L_Idle" "lt_workers s ! i \<noteq> L_Exited"
    by (auto simp: in_set_conv_nth)
  then show ?thesis
    by (cases "lt_workers s ! i") (blast intro: lt_step.Call_ok lt_step.Count lt_step.Append)+
next
  case idle: True
  show ?thesis
  proof (cases "L_Idle \<in> set (lt_workers s)")
    case True
    then obtain i where "i < length (lt_workers s)" "lt_workers s ! i = L_Idle" by (auto simp: in_set_conv_nth)
    then show ?thesis
      using assms by (cases "lt_main s"; cases "lt_next s < n")
        (auto simp: lt_ok_def lt_main_ok_def intro: lt_step.Hand_over lt_step.Close lt_step.Exit)
  next
    case False
    with idle have all: "\<forall>w \<in> set (lt_workers s). w = L_Exited" by auto
    moreover have "L_Exited \<in> set (lt_workers s)"
      using all assms(1) by (cases "lt_workers s") (auto simp: lt_ok_def lt_main_ok_def)
    ultimately show ?thesis
      using assms by (cases "lt_main s") (auto simp: lt_ok_def lt_main_ok_def intro: lt_step.Join)
  qed
qed

interpretation lt: draining "lt_step n" "lt_ok n c" "lt_work n" "\<lambda>s. lt_main s = L_Reporting" for n c
  by unfold_locales
    (use lt_jobs_step lt_counts_step lt_main_step lt_work_step lt_progress in \<open>auto simp: lt_ok_def\<close>)

lemma lt_reachable_ok: "lt_reachable n c s \<Longrightarrow> loadtest_args key n (int c) \<Longrightarrow> int64_range n \<Longrightarrow> lt_ok n c s"
  by (induction rule: lt_reachable.induct) (auto simp: loadtest_args_def intro: lt_ok_init lt.ok_step)

lemma lt_final_counts:
  assumes "lt_ok n c s" and "lt_main s = L_Reporting"
  shows "mset (map fst (lt_calls s)) = mset [0..n - 1]" and "length (lt_latencies s) = nat n"
    and "lt_failures s = int (errors_of (lt_calls s))"
proof -
  have all: "\<forall>w \<in> set (lt_workers s). w = L_Exited" and "lt_next s = n" using assms by (auto simp: lt_ok_def lt_main_ok_def)
  have 0: "sum_list (map f ws) = 0" if "\<forall>w \<in> set ws. w = L_Exited" "f L_Exited = 0" for f :: "lt_worker \<Rightarrow> 'b :: comm_monoid_add" and ws
    using that by (induction ws) auto
  note zero = 0 [OF all, of lt_job] 0 [OF all, of lt_due] 0 [OF all, of lt_failed]
  from assms(1) zero show m: "mset (map fst (lt_calls s)) = mset [0..n - 1]" and "lt_failures s = int (errors_of (lt_calls s))"
    using \<open>lt_next s = n\<close> by (simp_all add: lt_ok_def lt_jobs_ok_def lt_counts_ok_def)
  from m have "size (mset (map fst (lt_calls s))) = size (mset [0..n - 1])" by (simp only:)
  with assms(1) zero show "length (lt_latencies s) = nat n" by (simp add: lt_ok_def lt_counts_ok_def)
qed

text \<open>
  C39: the load test measures what it says. When the goroutines are joined, whatever their interleaving, every number
  from 0 to \<open>n - 1\<close> was posted exactly once, there is one latency for each, the error count is the number of
  failed calls and decides the exit status; both percentiles are measured latencies (no index is out of range, in the
  rounding of \<^verbatim>\<open>float64\<close>), and the median is not above the 95th percentile unless there are exactly two requests.
\<close>

theorem loadtest_report:
  assumes args: "loadtest_args key n (int c)" "int64_range n" and run: "lt_reachable n c s" "lt_main s = L_Reporting"
  shows "mset (map fst (lt_calls s)) = mset [0..n - 1] \<and> length (lt_latencies s) = nat n \<and>
    (\<exists>r. report_of n s = Some (r, if 0 < errors_of (lt_calls s) then 1 else 0) \<and>
       rp_requests r = n \<and> rp_errors r = int (errors_of (lt_calls s)) \<and> rp_errors r \<le> n \<and>
       rp_p50 r \<in> set (lt_latencies s) \<and> rp_p95 r \<in> set (lt_latencies s) \<and> (n \<noteq> 2 \<longrightarrow> rp_p50 r \<le> rp_p95 r))"
proof -
  have ok: "lt_ok n c s" by (rule lt_reachable_ok [OF run(1) args])
  note fin = lt_final_counts [OF ok run(2)]
  have n: "1 \<le> n" using args(1) by (simp add: loadtest_args_def)
  define ls where "ls = sort (lt_latencies s)"
  have ls: "length ls = nat n" "set ls = set (lt_latencies s)" "sorted ls" using fin(2) by (simp_all add: ls_def)
  define p50 p95 where "p50 = length ls div 2" and "p95 = p95_index (length ls - 1)"
  have idx: "p50 < length ls" "p95 < length ls"
    using ls(1) n p95_index_bound [of "length ls - 1"] by (simp_all add: p50_def p95_def)
  have "n \<noteq> 2 \<longrightarrow> ls ! p50 \<le> ls ! p95"
  proof (intro impI sorted_nth_mono [OF ls(3) _ idx(2)])
    assume "n \<noteq> 2"
    then show "p50 \<le> p95"
      using n ls(1) p95_index_low [of "length ls - 1"] by (cases "n = 1") (simp_all add: p50_def p95_def)
  qed
  moreover have "int (errors_of (lt_calls s)) \<le> n"
    using errors_of_bound [of "lt_calls s"] lt_calls_bound [of n s] ok by (simp add: lt_ok_def)
  moreover have "ls ! p50 \<in> set (lt_latencies s)" "ls ! p95 \<in> set (lt_latencies s)"
    unfolding ls(2) [symmetric] using idx by (blast intro: nth_mem)+
  moreover have rep: "report_of n s = Some (\<lparr>rp_requests = n, rp_errors = lt_failures s, rp_p50 = ls ! p50, rp_p95 = ls ! p95\<rparr>,
      if lt_failures s > 0 then 1 else 0)"
    unfolding report_of_def Let_def ls_def [symmetric] p50_def [symmetric] p95_def [symmetric] using idx by simp
  ultimately have r: "\<exists>r. report_of n s = Some (r, if 0 < errors_of (lt_calls s) then 1 else 0) \<and>
       rp_requests r = n \<and> rp_errors r = int (errors_of (lt_calls s)) \<and> rp_errors r \<le> n \<and>
       rp_p50 r \<in> set (lt_latencies s) \<and> rp_p95 r \<in> set (lt_latencies s) \<and> (n \<noteq> 2 \<longrightarrow> rp_p50 r \<le> rp_p95 r)"
    by (intro exI [of _ "\<lparr>rp_requests = n, rp_errors = lt_failures s, rp_p50 = ls ! p50, rp_p95 = ls ! p95\<rparr>"])
      (simp only: rep fin(3) report.simps of_nat_0_less_iff simp_thms)
  show ?thesis by (intro conjI fin(1,2) r)
qed

text \<open>Two requests by one client, the second slower.\<close>

lemma lt_one_call:
  assumes "lt_reachable n 1 s" and "lt_main s = L_Sending" "lt_next s < n" "lt_workers s = [L_Idle]"
  shows "lt_reachable n 1 (s\<lparr>lt_next := lt_next s + 1, lt_calls := lt_calls s @ [(lt_next s, True)],
    lt_workers := [L_Idle], lt_latencies := lt_latencies s @ [ms]\<rparr>)"
proof -
  let ?a = "s\<lparr>lt_next := lt_next s + 1, lt_workers := [L_Calling (lt_next s)]\<rparr>"
  let ?b = "?a\<lparr>lt_workers := [L_Called (lt_next s)], lt_calls := lt_calls s @ [(lt_next s, True)]\<rparr>"
  have "lt_reachable n 1 ?a" using lt_reachable.Goes [OF assms(1) lt_step.Hand_over [of s n 0]] assms(2-4) by simp
  from lt_reachable.Goes [OF this lt_step.Call_ok [of 0 _ "lt_next s"]] have "lt_reachable n 1 ?b" by simp
  from lt_reachable.Goes [OF this lt_step.Append [of 0 _ "lt_next s" _ ms]] show ?thesis by simp
qed

lemma lt_all_sent:
  assumes "lt_reachable n 1 s" and "lt_main s = L_Sending" "\<not> lt_next s < n" "lt_workers s = [L_Idle]"
  shows "lt_reachable n 1 (s\<lparr>lt_closed := True, lt_workers := [L_Exited], lt_main := L_Reporting\<rparr>)"
proof -
  have "lt_reachable n 1 (s\<lparr>lt_main := L_Waiting, lt_closed := True\<rparr>)"
    using lt_reachable.Goes [OF assms(1) lt_step.Close] assms(2,3) by simp
  from lt_reachable.Goes [OF this lt_step.Exit [of 0]] assms(4)
  have "lt_reachable n 1 (s\<lparr>lt_main := L_Waiting, lt_closed := True, lt_workers := [L_Exited]\<rparr>)" by simp
  from lt_reachable.Goes [OF this lt_step.Join] show ?thesis by simp
qed

definition lt_two :: loadtest where
  "lt_two = \<lparr>lt_next = 2, lt_closed = True, lt_main = L_Reporting, lt_workers = [L_Exited], lt_failures = 0,
     lt_latencies = [10, 30], lt_calls = [(0, True), (1, True)]\<rparr>"

lemma lt_two_reachable: "lt_reachable 2 1 lt_two"
proof -
  have "lt_reachable 2 1 ((lt_init 1)\<lparr>lt_next := 1, lt_calls := [(0, True)], lt_latencies := [10]\<rparr>)"
    using lt_one_call [OF lt_reachable.Begin [of 2 1], of 10] by (simp add: lt_init_def)
  from lt_one_call [OF this, of 30] have "lt_reachable 2 1
      ((lt_init 1)\<lparr>lt_next := 2, lt_calls := [(0, True), (1, True)], lt_latencies := [10, 30]\<rparr>)"
    by (simp add: lt_init_def)
  from lt_all_sent [OF this] show ?thesis by (simp add: lt_init_def lt_two_def)
qed

theorem loadtest_report_witness:
  "length (lt_latencies lt_two) = 2 \<and> (\<exists>r. report_of 2 lt_two = Some (r, 0) \<and> rp_requests r = 2)"
  using loadtest_report [of "''k''" 2 1 lt_two] lt_two_reachable
  by (auto simp: loadtest_args_def int64_range_def lt_two_def errors_of_def)

lemma two_requests: "map_option (\<lambda>r. (rp_p50 (fst r), rp_p95 (fst r))) (report_of 2 lt_two) = Some (30, 10)"
proof -
  have "floorlog 2 (1 :: nat) = 1" by (simp add: floorlog_def)
  then have "float_round 1 = 1" by (simp add: float_round_def)
  moreover have "float_round c95 * 2 ^ 53 \<le> c95 * (2 ^ 53 + 1)" by (rule float_round_bound)
  then have "float_round c95 < 2 ^ 53" by (simp add: c95_def)
  ultimately have "p95_index 1 = 0" by (simp add: p95_index_def)
  then show ?thesis by (simp add: report_of_def lt_two_def)
qed

text \<open>
  C40: the load test ends. Every step of every goroutine lowers a measure, so no run is infinite, and some step is
  possible until the report is written: there is no deadlock on the channel, and from every reachable state a run
  reaches the report.
\<close>

theorem loadtest_ends:
  assumes args: "loadtest_args key n (int c)" "int64_range n" and run: "lt_reachable n c s"
  shows "(\<forall>s'. lt_step n s s' \<longrightarrow> lt_work n s' < lt_work n s) \<and>
    (lt_main s \<noteq> L_Reporting \<longrightarrow> (\<exists>s'. lt_step n s s')) \<and>
    (\<exists>s'. (lt_step n)\<^sup>*\<^sup>* s s' \<and> lt_main s' = L_Reporting)"
proof -
  have ok: "lt_ok n c s" by (rule lt_reachable_ok [OF run args])
  from lt.work_step [OF ok] lt.progress [OF ok] lt.reaches_final [OF ok] show ?thesis by blast
qed

theorem loadtest_ends_witness: "\<exists>s'. (lt_step 2)\<^sup>*\<^sup>* (lt_init 1) s' \<and> lt_main s' = L_Reporting"
  using loadtest_ends [of "''k''" 2 1, OF _ _ lt_reachable.Begin] by (simp add: loadtest_args_def int64_range_def)

end
