(* ===== verification/Migrate.thy ===== *)
theory Migrate
  imports Prelude
begin

text \<open>
  \<^verbatim>\<open>src/migrations/migrate.go\<close>: \<open>Apply\<close>. The database is the table \<^verbatim>\<open>schema_migrations\<close> (\<open>None\<close> before it exists; the
  names in the order they were inserted) and whatever else the migrations create, which only the SQL of the files touches:
  \<open>run\<close> executes the text of one file on it. \<open>files\<close> are the embedded files in the order of \<^verbatim>\<open>ReadDir\<close>, by name; reading
  the embedded file system does not fail. The advisory lock is held until the transaction ends, so one \<open>Apply\<close> is one step.
  \<open>pl\<close> gives the outcome of each call in the order the code makes them, \<open>cm\<close> that of the commit.
\<close>

record 's mig_db =
  mg_names :: "string list option"
  mg_objects :: 's

datatype migrate_error = MigrateDb db_error | MigrationFailed string db_error

abbreviation applied :: "'s mig_db \<Rightarrow> string list" where
  "applied s \<equiv> (case mg_names s of None \<Rightarrow> [] | Some ns \<Rightarrow> ns)"

fun apply_files ::
  "(bytes \<Rightarrow> 's \<Rightarrow> db_error + 's) \<Rightarrow> plan \<Rightarrow> nat \<Rightarrow> (string \<times> bytes) list \<Rightarrow> 's mig_db \<Rightarrow> migrate_error + 's mig_db" where
  "apply_files run pl k [] s = Inr s"
| "apply_files run pl k ((name, body) # fs) s =
     (if pl k \<noteq> Done then Inl (MigrateDb Unavailable)
      else if name \<in> set (applied s) then apply_files run pl (k + 3) fs s
      else case stmt (pl (k + 1)) (run body (mg_objects s)) of
             Inl e \<Rightarrow> Inl (MigrationFailed name e)
           | Inr obs \<Rightarrow>
               (if pl (k + 2) \<noteq> Done then Inl (MigrateDb Unavailable)
                else apply_files run pl (k + 3) fs (s\<lparr>mg_names := Some (applied s @ [name]), mg_objects := obs\<rparr>)))"

definition apply_body ::
  "(bytes \<Rightarrow> 's \<Rightarrow> db_error + 's) \<Rightarrow> (string \<times> bytes) list \<Rightarrow> plan \<Rightarrow> 's mig_db \<Rightarrow> migrate_error + ('s mig_db \<times> unit)" where
  "apply_body run files pl s =
     (if pl 1 \<noteq> Done \<or> pl 2 \<noteq> Done then Inl (MigrateDb Unavailable)
      else res_bind (apply_files run pl 3 files (s\<lparr>mg_names := Some (applied s)\<rparr>)) (\<lambda>s'. Inr (s', ())))"

definition Apply ::
  "(bytes \<Rightarrow> 's \<Rightarrow> db_error + 's) \<Rightarrow> (string \<times> bytes) list \<Rightarrow> plan \<Rightarrow> outcome \<Rightarrow> 's mig_db
     \<Rightarrow> 's mig_db \<times> (migrate_error + unit)" where
  "Apply run files pl cm = run_tx (pl 0) cm (MigrateDb Unavailable) (apply_body run files pl)"

section \<open>Each migration runs once\<close>

fun run_all :: "(bytes \<Rightarrow> 's \<Rightarrow> db_error + 's) \<Rightarrow> bytes list \<Rightarrow> 's \<Rightarrow> db_error + 's" where
  "run_all run [] obs = Inr obs"
| "run_all run (b # bs) obs = res_bind (run b obs) (run_all run bs)"

definition pending :: "string list \<Rightarrow> (string \<times> bytes) list \<Rightarrow> (string \<times> bytes) list" where
  "pending names files = filter (\<lambda>f. fst f \<notin> set names) files"

lemma apply_files_Inr:
  assumes "apply_files run pl k files s = Inr s'" and "distinct (map fst files)" and "mg_names s = Some ns"
  shows "mg_names s' = Some (ns @ map fst (pending ns files)) \<and>
    run_all run (map snd (pending ns files)) (mg_objects s) = Inr (mg_objects s')"
  using assms
proof (induction files arbitrary: k s ns)
  case (Cons f fs)
  obtain name body where f: "f = (name, body)" by (cases f)
  show ?case
  proof (cases "name \<in> set ns")
    case True
    with Cons show ?thesis by (auto simp: f pending_def split: if_splits)
  next
    case False
    with Cons.prems obtain obs where obs: "run body (mg_objects s) = Inr obs"
      and rest: "apply_files run pl (k + 3) fs (s\<lparr>mg_names := Some (ns @ [name]), mg_objects := obs\<rparr>) = Inr s'"
      by (auto simp: f split: if_splits sum.splits)
    have "pending (ns @ [name]) fs = pending ns fs"
      using Cons.prems(2) f unfolding pending_def by (intro filter_cong) (auto simp: rev_image_eqI)
    with Cons.IH [OF rest, of "ns @ [name]"] Cons.prems(2) f obs False show ?thesis
      by (simp add: pending_def)
  qed
qed (simp add: pending_def)

lemma apply_files_all_applied:
  "\<forall>i. pl i = Done \<Longrightarrow> fst ` set files \<subseteq> set (applied s) \<Longrightarrow> apply_files run pl k files s = Inr s"
  by (induction files arbitrary: k) auto

lemma Apply_again:
  assumes "\<forall>i. pl i = Done" and "fst ` set files \<subseteq> set ns" and "mg_names t = Some ns"
  shows "Apply run files pl Done t = (t, Inr ())"
proof -
  have eq: "t\<lparr>mg_names := Some ns\<rparr> = t" using assms(3) by simp
  have "apply_files run pl 3 files (t\<lparr>mg_names := Some ns\<rparr>) = Inr t"
    unfolding eq using assms by (intro apply_files_all_applied) simp_all
  with assms show ?thesis by (simp add: Apply_def run_tx_def apply_body_def)
qed

text \<open>
  C37: migrations are applied once and as a whole. \<open>Apply\<close> leaves the database as it was or has run exactly the files
  not yet recorded, in order, and recorded them; when it reports success every file is recorded, and applying the
  same files again changes nothing.
\<close>

theorem migrations_once:
  assumes "distinct (map fst files)" and "\<forall>i. pl' i = Done"
  shows "let (s', res) = Apply run files pl cm s; todo = pending (applied s) files in
    (s' = s \<or> mg_names s' = Some (applied s @ map fst todo) \<and>
       run_all run (map snd todo) (mg_objects s) = Inr (mg_objects s')) \<and>
    (res = Inr () \<longrightarrow> fst ` set files \<subseteq> set (applied s') \<and> Apply run files pl' Done s' = (s', Inr ()))"
proof -
  have did: "mg_names s' = Some (applied s @ map fst (pending (applied s) files)) \<and>
      run_all run (map snd (pending (applied s) files)) (mg_objects s) = Inr (mg_objects s')"
    if "apply_body run files pl s = Inr (s', u)" for s' u
    using that apply_files_Inr [of run pl 3 files "s\<lparr>mg_names := Some (applied s)\<rparr>" s' "applied s"] assms(1)
    by (auto simp: apply_body_def split: if_splits)
  let ?s' = "fst (Apply run files pl cm s)"
  have first: "?s' = s \<or> mg_names ?s' = Some (applied s @ map fst (pending (applied s) files)) \<and>
      run_all run (map snd (pending (applied s) files)) (mg_objects s) = Inr (mg_objects ?s')"
    using run_tx_atomic [of "pl 0" cm "MigrateDb Unavailable" "apply_body run files pl" s] did
    unfolding Apply_def by blast
  have second: "fst ` set files \<subseteq> set (applied ?s') \<and> Apply run files pl' Done ?s' = (?s', Inr ())"
    if "snd (Apply run files pl cm s) = Inr ()"
  proof -
    have "apply_body run files pl s = Inr (?s', ())"
      using that run_tx_Inr [of "pl 0" cm "MigrateDb Unavailable" "apply_body run files pl" s ?s' "()"] unfolding Apply_def
      by (metis prod.collapse)
    from did [OF this] have n: "mg_names ?s' = Some (applied s @ map fst (pending (applied s) files))" by blast
    then have "fst ` set files \<subseteq> set (applied ?s')" by (auto simp: pending_def)
    with Apply_again [OF assms(2) _ n, of files run] n show ?thesis by simp
  qed
  show ?thesis using first second by (simp add: Let_def split_beta)
qed

theorem migrations_once_witness:
  "Apply (\<lambda>b n. Inr (n + length b)) [(''001.sql'', ''ab'')] all_done Done
     (fst (Apply (\<lambda>b n. Inr (n + length b)) [(''001.sql'', ''ab'')] all_done Done \<lparr>mg_names = None, mg_objects = 0\<rparr>)) =
   (\<lparr>mg_names = Some [''001.sql''], mg_objects = 2\<rparr>, Inr ())"
  using migrations_once [of "[(''001.sql'', ''ab'')]" all_done "\<lambda>b n. Inr (n + length b)" all_done Done
      "\<lparr>mg_names = None, mg_objects = 0\<rparr>"]
  by (simp add: Apply_def run_tx_def pending_def apply_body_def)

end
