(* ===== verification/App.thy ===== *)
theory App
  imports Pool Config Redisx Migrate Transport
begin

text \<open>
  \<^verbatim>\<open>src/internal/app/app.go\<close> and \<^verbatim>\<open>src/internal/database/database.go\<close>: how a process starts, and how it stops. \<open>start\<close> is \<open>Run\<close>
  up to the point where its goroutines run: which configuration, connections, migrations, HTTP server and worker
  each mode gets, and which error ends it. \<open>app_step\<close> is the rest: the main goroutine, the HTTP server and the worker
  pool run side by side, joined by the signal context, \<^verbatim>\<open>errCh\<close> and \<^verbatim>\<open>done\<close>. \<^verbatim>\<open>ParseConfig\<close> and the results of connecting
  are parameters.
\<close>

section \<open>Starting\<close>

record pool_settings =
  po_MaxConns :: int
  po_MinConns :: int
  po_MaxConnLifetime :: duration
  po_ConnectTimeout :: duration

datatype open_error = ParseConfigFailed | NewPoolFailed | PingFailed

definition database_Open ::
  "(string \<Rightarrow> pool_settings option) \<Rightarrow> bool \<Rightarrow> outcome \<Rightarrow> string \<Rightarrow> open_error + pool_settings" where
  "database_Open ParseConfig new_ok ping url =
     (case ParseConfig url of
        None \<Rightarrow> Inl ParseConfigFailed
      | Some c \<Rightarrow>
          (let cfg = c\<lparr>po_MaxConns := 20, po_MinConns := 1, po_MaxConnLifetime := 3600 * second, po_ConnectTimeout := 5 * second\<rparr>
           in if \<not> new_ok then Inl NewPoolFailed else if ping \<noteq> Done then Inl PingFailed else Inr cfg))"

datatype serves = Serves_Api | Serves_Health

record http_server =
  hs_Addr :: string
  hs_Handler :: serves
  hs_ReadHeaderTimeout :: duration
  hs_ReadTimeout :: duration
  hs_WriteTimeout :: duration
  hs_IdleTimeout :: duration
  hs_MaxHeaderBytes :: int

record worker_settings =
  ws_Lease :: duration
  ws_Config :: config
  ws_Client :: http_client

record started =
  sd_Config :: config
  sd_DB :: pool_settings
  sd_Redis :: redis_options
  sd_Server :: http_server
  sd_Worker :: "worker_settings option"

datatype start_error = StartConfig config_error | StartDatabase open_error | StartRedis | StartMigrate migrate_error

text \<open>The worker's own routes; for other paths and methods the status is that of \<^verbatim>\<open>ServeMux\<close>, redirects to clean paths aside.\<close>

definition health_status :: "string \<Rightarrow> string \<Rightarrow> outcome \<Rightarrow> outcome \<Rightarrow> int" where
  "health_status method path db_ping redis_ping =
     (if path \<noteq> ''/health'' \<and> path \<noteq> ''/ready'' then 404
      else if method \<noteq> ''GET'' \<and> method \<noteq> ''HEAD'' then 405
      else if path = ''/ready'' \<and> (db_ping \<noteq> Done \<or> redis_ping \<noteq> Done) then 503 else 200)"

definition server_of :: "string \<Rightarrow> config \<Rightarrow> http_server" where
  "server_of mode cfg =
     \<lparr>hs_Addr = (if mode = ''worker'' then c_WorkerAddress cfg else c_Address cfg),
      hs_Handler = (if mode = ''worker'' then Serves_Health else Serves_Api),
      hs_ReadHeaderTimeout = 5 * second, hs_ReadTimeout = 15 * second, hs_WriteTimeout = 20 * second,
      hs_IdleTimeout = 60 * second, hs_MaxHeaderBytes = 16 * 1024\<rparr>"

definition worker_of :: "string \<Rightarrow> config \<Rightarrow> worker_settings option" where
  "worker_of mode cfg =
     (if mode = ''worker'' \<or> mode = ''demo''
      then Some \<lparr>ws_Lease = c_LeaseDuration cfg, ws_Config = cfg, ws_Client = HTTPClient (c_HTTPTimeout cfg) (c_AllowPrivate cfg)\<rparr>
      else None)"

definition start ::
  "string \<Rightarrow> (string \<Rightarrow> string) \<Rightarrow> (string \<Rightarrow> open_error + pool_settings) \<Rightarrow> (string \<Rightarrow> redis_options option) \<Rightarrow>
   ('s mig_db \<Rightarrow> 's mig_db \<times> (migrate_error + unit)) \<Rightarrow> 's mig_db \<Rightarrow> 's mig_db \<times> (start_error + started)" where
  "start mode getenv open_db ParseURL migrate s =
     (case Load getenv of
        Inl e \<Rightarrow> (s, Inl (StartConfig e))
      | Inr cfg \<Rightarrow>
          (case open_db (c_DatabaseURL cfg) of
             Inl e \<Rightarrow> (s, Inl (StartDatabase e))
           | Inr db \<Rightarrow>
               (case redis_Open ParseURL (c_RedisURL cfg) of
                  None \<Rightarrow> (s, Inl StartRedis)
                | Some rd \<Rightarrow>
                    (let (s', res) = (if mode = ''demo'' then migrate s else (s, Inr ()))
                     in (s', case res of
                               Inl e \<Rightarrow> Inl (StartMigrate e)
                             | Inr _ \<Rightarrow> Inr \<lparr>sd_Config = cfg, sd_DB = db, sd_Redis = rd, sd_Server = server_of mode cfg,
                                 sd_Worker = worker_of mode cfg\<rparr>)))))"

section \<open>Running and stopping\<close>

datatype server_error = ErrServerClosed | ListenError string

datatype server_state = Listening | Listen_Failed server_error | Shut_Down

datatype app_main = App_Waiting | App_Stopping | App_Joining | App_Exited

record app =
  ap_cancelled :: bool
  ap_server :: server_state
  ap_main :: app_main
  ap_err :: "server_error option"
  ap_pool :: "pool option"

definition app_init :: "nat \<Rightarrow> bool \<Rightarrow> app" where
  "app_init N has_worker =
     \<lparr>ap_cancelled = False, ap_server = Listening, ap_main = App_Waiting, ap_err = None,
      ap_pool = (if has_worker then Some (pool_init N) else None)\<rparr>"

definition cancel_ctx :: "app \<Rightarrow> app" where
  "cancel_ctx a = a\<lparr>ap_cancelled := True, ap_pool := map_option (\<lambda>p. p\<lparr>pl_cancelled := True\<rparr>) (ap_pool a)\<rparr>"

definition worker_done :: "app \<Rightarrow> bool" where
  "worker_done a \<longleftrightarrow> (case ap_pool a of None \<Rightarrow> True | Some p \<Rightarrow> pl_main p = Returned)"

definition run_result :: "server_error option \<Rightarrow> server_error option" where
  "run_result e = (if e = Some ErrServerClosed then None else e)"

inductive app_step :: "nat \<Rightarrow> app \<Rightarrow> app \<Rightarrow> bool" for N where
  Signal: "app_step N a (cancel_ctx a)"
| Listen_fails: "ap_server a = Listening \<Longrightarrow> app_step N a (a\<lparr>ap_server := Listen_Failed e\<rparr>)"
| See_signal: "ap_main a = App_Waiting \<Longrightarrow> ap_cancelled a \<Longrightarrow> app_step N a (a\<lparr>ap_main := App_Stopping\<rparr>)"
| See_error: "ap_main a = App_Waiting \<Longrightarrow> ap_server a = Listen_Failed e \<Longrightarrow>
    app_step N a ((cancel_ctx a)\<lparr>ap_main := App_Stopping, ap_err := Some e\<rparr>)"
| Shutdown: "ap_main a = App_Stopping \<Longrightarrow>
    app_step N a (a\<lparr>ap_main := App_Joining, ap_server := (if ap_server a = Listening then Shut_Down else ap_server a)\<rparr>)"
| Worker: "ap_pool a = Some p \<Longrightarrow> pool_step N p p' \<Longrightarrow> pl_cancelled p' = pl_cancelled p \<Longrightarrow>
    app_step N a (a\<lparr>ap_pool := Some p'\<rparr>)"
| Join: "ap_main a = App_Joining \<Longrightarrow> worker_done a \<Longrightarrow>
    app_step N a (a\<lparr>ap_main := App_Exited, ap_err := run_result (ap_err a)\<rparr>)"

inductive app_reachable :: "nat \<Rightarrow> bool \<Rightarrow> app \<Rightarrow> bool" for N w where
  Begin: "app_reachable N w (app_init N w)"
| Goes: "app_reachable N w a \<Longrightarrow> app_step N a a' \<Longrightarrow> app_reachable N w a'"

text \<open>The pool inside the process is the pool of \<open>Worker.Run\<close>, driven by the process's context.\<close>

definition app_ok :: "nat \<Rightarrow> app \<Rightarrow> bool" where
  "app_ok N a \<longleftrightarrow>
     (\<forall>p. ap_pool a = Some p \<longrightarrow> pool_reachable N p \<and> (pl_cancelled p \<longleftrightarrow> ap_cancelled a)) \<and>
     (ap_main a \<noteq> App_Waiting \<longrightarrow> ap_cancelled a) \<and> (ap_main a = App_Exited \<longrightarrow> worker_done a)"

lemma cancel_pool: "pool_reachable N p \<Longrightarrow> pool_reachable N (p\<lparr>pl_cancelled := True\<rparr>)"
proof (cases "pl_cancelled p")
  case True
  then have "p\<lparr>pl_cancelled := True\<rparr> = p" by simp
  then show "pool_reachable N p \<Longrightarrow> ?thesis" by (simp only:)
qed (auto intro: pool_reachable.Step pool_step.Cancel)

lemma returned_stays: "pool_step N p p' \<Longrightarrow> close_ok p \<Longrightarrow> pl_main p = Returned \<Longrightarrow> pl_main p' = Returned"
  by (induction rule: pool_step.induct) auto

lemma app_ok_step:
  assumes "app_step N a a'" and "app_ok N a"
  shows "app_ok N a'"
  using assms
proof (induction rule: app_step.induct)
  case (Worker a p p')
  then have "pool_reachable N p'" "close_ok p" using pool_reachable_ok by (auto simp: app_ok_def intro: pool_reachable.Step)
  with Worker show ?case by (auto simp: app_ok_def worker_done_def dest: returned_stays)
qed (auto simp: app_ok_def cancel_ctx_def worker_done_def cancel_pool split: option.splits)

lemma app_ok_init: "app_ok N (app_init N w)"
  by (auto simp: app_init_def app_ok_def intro: pool_reachable.Init) (simp_all add: pool_init_def)

lemma app_reachable_ok: "app_reachable N w a \<Longrightarrow> app_ok N a"
  by (induction rule: app_reachable.induct) (auto intro: app_ok_init app_ok_step)

section \<open>Stopping is clean and possible\<close>

lemma pool_step_cancelled: "pool_step N p p' \<Longrightarrow> pl_cancelled p \<Longrightarrow> pl_cancelled p'"
  by (induction rule: pool_step.induct) auto

text \<open>A cancelled pool can return: its claiming loop leaves at its next channel operation, then the workers drain.\<close>

lemma cancelled_closes:
  assumes "pool_reachable N p" and "pl_cancelled p"
  shows "\<exists>p'. (pool_step N)\<^sup>*\<^sup>* p p' \<and> pool_reachable N p' \<and> pl_closed p'"
proof -
  have ok: "slots_ok N p" "close_ok p" using pool_reachable_ok [OF assms(1)] by blast+
  have one: ?thesis if "pool_step N p p'" "pl_closed p'" for p'
    using that assms(1) by (blast intro: pool_reachable.Step)
  show ?thesis
  proof (cases "pl_main p")
    case Selecting
    then show ?thesis using one [OF pool_step.Stop_select] assms(2) by simp
  next
    case Claiming
    let ?q = "p\<lparr>pl_slots := pl_slots p - 1, pl_main := Pausing\<rparr>"
    have 1: "pool_step N p ?q" using Claiming ok(1) by (intro pool_step.Claim_failed) (simp_all add: slots_ok_def)
    have 2: "pool_step N ?q (?q\<lparr>pl_main := Draining, pl_closed := True\<rparr>)"
      using assms(2) by (intro pool_step.Stop_pause) simp_all
    from 1 2 have "(pool_step N)\<^sup>*\<^sup>* p (?q\<lparr>pl_main := Draining, pl_closed := True\<rparr>)"
      "pool_reachable N (?q\<lparr>pl_main := Draining, pl_closed := True\<rparr>)"
      using pool_reachable.Step [OF pool_reachable.Step [OF assms(1) 1] 2] by (simp_all add: converse_rtranclp_into_rtranclp)
    then show ?thesis by force
  next
    case (Sending j)
    then have "0 < pl_slots p" using ok(1) by (simp add: slots_ok_def)
    then show ?thesis using one [OF pool_step.Stop_send [OF Sending assms(2)]] by simp
  next
    case Pausing
    then show ?thesis using one [OF pool_step.Stop_pause] assms(2) by simp
  qed (use ok(2) assms(1) in \<open>auto simp: close_ok_def\<close>)
qed

lemma pool_run_lifts:
  assumes "(pool_step N)\<^sup>*\<^sup>* p p'" and "ap_pool a = Some p" and "pl_cancelled p"
  shows "(app_step N)\<^sup>*\<^sup>* a (a\<lparr>ap_pool := Some p'\<rparr>) \<and> pl_cancelled p'"
  using assms
proof (induction rule: rtranclp_induct)
  case base
  then have eq: "a\<lparr>ap_pool := Some p\<rparr> = a" by simp
  show ?case unfolding eq using base by simp
next
  case (step q r)
  then have run: "(app_step N)\<^sup>*\<^sup>* a (a\<lparr>ap_pool := Some q\<rparr>)" and qr: "pl_cancelled q" "pl_cancelled r"
    using pool_step_cancelled [of N q r] by auto
  have "app_step N (a\<lparr>ap_pool := Some q\<rparr>) (a\<lparr>ap_pool := Some q\<rparr>\<lparr>ap_pool := Some r\<rparr>)"
    by (rule app_step.Worker [of _ q]) (use step.hyps(2) qr in simp_all)
  then have "(app_step N)\<^sup>*\<^sup>* a (a\<lparr>ap_pool := Some q\<rparr>\<lparr>ap_pool := Some r\<rparr>)"
    by (rule rtranclp.rtrancl_into_rtrancl [OF run])
  with qr show ?case by simp
qed

lemma worker_can_finish:
  assumes "app_ok N a" and "ap_cancelled a"
  shows "\<exists>a'. (app_step N)\<^sup>*\<^sup>* a a' \<and> worker_done a' \<and> ap_main a' = ap_main a"
proof (cases "ap_pool a")
  case (Some p)
  with assms have p: "pool_reachable N p" "pl_cancelled p" by (auto simp: app_ok_def)
  obtain q where q: "(pool_step N)\<^sup>*\<^sup>* p q" "pool_reachable N q" "pl_closed q" using cancelled_closes [OF p] by blast
  obtain r where r: "(pool_step N)\<^sup>*\<^sup>* q r" "pl_main r = Returned" using drain.reaches_final [of N q] q(2,3) by (auto simp: drains_def)
  from pool_run_lifts [OF rtranclp_trans [OF q(1) r(1)] Some p(2)] r(2) show ?thesis
    by (intro exI [of _ "a\<lparr>ap_pool := Some r\<rparr>"]) (auto simp: worker_done_def)
qed (auto simp: worker_done_def)

lemma can_exit:
  assumes "app_ok N a" and "ap_cancelled a"
  shows "\<exists>a'. (app_step N)\<^sup>*\<^sup>* a a' \<and> ap_main a' = App_Exited"
proof -
  obtain b where b: "(app_step N)\<^sup>*\<^sup>* a b" "worker_done b" "ap_main b = ap_main a" using worker_can_finish [OF assms] by blast
  have canc: "ap_cancelled y" if "(app_step N)\<^sup>*\<^sup>* x y" "ap_cancelled x" for x y
    using that by (induction rule: rtranclp_induct) (auto elim!: app_step.cases simp: cancel_ctx_def)
  have join: "\<exists>a'. (app_step N)\<^sup>*\<^sup>* c a' \<and> ap_main a' = App_Exited" if "ap_main c = App_Joining" "worker_done c" for c
    using app_step.Join [OF that, of N] by (intro exI conjI) (rule r_into_rtranclp, assumption, simp)
  have stop: "\<exists>a'. (app_step N)\<^sup>*\<^sup>* c a' \<and> ap_main a' = App_Exited" if c: "ap_main c = App_Stopping" "worker_done c" for c
  proof -
    let ?d = "c\<lparr>ap_main := App_Joining, ap_server := (if ap_server c = Listening then Shut_Down else ap_server c)\<rparr>"
    have "worker_done ?d" using c(2) by (simp add: worker_done_def)
    with join [of ?d] app_step.Shutdown [OF c(1), of N] show ?thesis by (auto intro: converse_rtranclp_into_rtranclp)
  qed
  have "\<exists>a'. (app_step N)\<^sup>*\<^sup>* b a' \<and> ap_main a' = App_Exited"
  proof (cases "ap_main b")
    case App_Waiting
    have "worker_done (b\<lparr>ap_main := App_Stopping\<rparr>)" using b(2) by (simp add: worker_done_def)
    with stop [of "b\<lparr>ap_main := App_Stopping\<rparr>"] app_step.See_signal [OF App_Waiting canc [OF b(1) assms(2)], of N]
    show ?thesis by (auto intro: converse_rtranclp_into_rtranclp)
  qed (use stop join b(2) in auto)
  with b(1) show ?thesis by (meson rtranclp_trans)
qed

text \<open>
  C36: a process stops cleanly and can always stop. When \<open>Run\<close> has returned its context is cancelled, the worker's
  \<open>Run\<close> has returned before it, no job is in flight, and every job claimed was processed but for at most one that was
  given up (its lease expires). And from every reachable state in which a signal has arrived, some continuation
  ends with \<open>Run\<close> returned.
\<close>

theorem app_shutdown:
  assumes "app_reachable N w a" and "0 < N"
  shows "(ap_main a = App_Exited \<longrightarrow> ap_cancelled a \<and>
      (\<forall>p. ap_pool a = Some p \<longrightarrow> pl_main p = Returned \<and> in_flight p = {#} \<and>
         mset (pl_claimed p) = mset (pl_processed p) + mset (pl_dropped p) \<and> length (pl_dropped p) \<le> 1)) \<and>
    (ap_cancelled a \<longrightarrow> (\<exists>a'. (app_step N)\<^sup>*\<^sup>* a a' \<and> ap_main a' = App_Exited))"
proof -
  note ok = app_reachable_ok [OF assms(1)]
  have "pl_main p = Returned \<and> in_flight p = {#} \<and>
      mset (pl_claimed p) = mset (pl_processed p) + mset (pl_dropped p) \<and> length (pl_dropped p) \<le> 1"
    if "ap_main a = App_Exited" "ap_pool a = Some p" for p
  proof -
    have r: "pl_main p = Returned" and p: "slots_ok N p" "close_ok p" "jobs_ok p"
      using ok that pool_reachable_ok [of N p] by (auto simp: app_ok_def worker_done_def)
    with returned_idle [OF p(1,2) r assms(2)] show ?thesis by (simp add: jobs_ok_def)
  qed
  with ok can_exit [OF ok] show ?thesis by (auto simp: app_ok_def)
qed

theorem app_shutdown_witness:
  "\<exists>a'. (app_step 2)\<^sup>*\<^sup>* (cancel_ctx (app_init 2 True)) a' \<and> ap_main a' = App_Exited"
  using app_shutdown [OF app_reachable.Goes [OF app_reachable.Begin app_step.Signal], of 2 True]
  by (simp add: cancel_ctx_def)

end
