(* ===== verification/Commands.thy ===== *)
theory Commands
  imports Democlient Loadtest App Receiver
begin

text \<open>
  The programs under \<^verbatim>\<open>src/cmd\<close>: what each \<^verbatim>\<open>main\<close> does with the modelled components. \<open>ended\<close> is how a program ends:
  completed, by \<^verbatim>\<open>log.Fatal\<close>, or by a panic. The environment, the flags, the clock and the peer of the client are
  arguments; printing is left out.
\<close>

datatype 'e ended = Completed | Fatal 'e | Panicked

section \<open>cmd/api, cmd/worker, cmd/demo\<close>

text \<open>\<open>starts\<close> is \<open>App.start\<close>, \<open>runs\<close> the error with which the started process exits, the \<open>ap_err\<close> of \<open>App.app\<close>.\<close>

definition app_Run ::
  "(string \<Rightarrow> start_error + started) \<Rightarrow> (started \<Rightarrow> server_error option) \<Rightarrow> string \<Rightarrow> (start_error + server_error) option" where
  "app_Run starts runs mode = (case starts mode of Inl e \<Rightarrow> Some (Inl e) | Inr sd \<Rightarrow> map_option Inr (runs sd))"

definition main_of :: "'e option \<Rightarrow> 'e ended" where
  "main_of e = (case e of None \<Rightarrow> Completed | Some x \<Rightarrow> Fatal x)"

definition api_main :: "(string \<Rightarrow> 'e option) \<Rightarrow> 'e ended" where
  "api_main run = main_of (run ''api'')"

definition worker_main :: "(string \<Rightarrow> 'e option) \<Rightarrow> 'e ended" where
  "worker_main run = main_of (run ''worker'')"

definition demo_main :: "(string \<Rightarrow> 'e option) \<Rightarrow> 'e ended" where
  "demo_main run = main_of (run ''demo'')"

section \<open>cmd/migrate\<close>

definition migrate_main ::
  "(string \<Rightarrow> open_error + pool_settings) \<Rightarrow> ('s mig_db \<Rightarrow> 's mig_db \<times> (migrate_error + unit)) \<Rightarrow> (string \<Rightarrow> string) \<Rightarrow>
     's mig_db \<Rightarrow> 's mig_db \<times> (open_error + migrate_error) ended" where
  "migrate_main open_db migrate getenv s =
     (case open_db (getenv ''DATABASE_URL'') of
        Inl e \<Rightarrow> (s, Fatal (Inl e))
      | Inr p \<Rightarrow> (case migrate s of (s', Inl e) \<Rightarrow> (s', Fatal (Inr e)) | (s', Inr _) \<Rightarrow> (s', Completed)))"

section \<open>cmd/receiver\<close>

record receiver_server =
  rv_Addr :: string
  rv_Handler :: receiver
  rv_ReadHeaderTimeout :: duration
  rv_ReadTimeout :: duration
  rv_WriteTimeout :: duration

definition receiver_server_of :: "(string \<Rightarrow> string) \<Rightarrow> receiver_server option" where
  "receiver_server_of getenv =
     (let secret = getenv ''RECEIVER_SECRET''; port0 = getenv ''PORT''; port = (if port0 = [] then ''8090'' else port0)
      in if length secret < 16 then None
         else Some \<lparr>rv_Addr = '':'' @ port, rv_Handler = receiver_New secret, rv_ReadHeaderTimeout = 5 * second,
           rv_ReadTimeout = 10 * second, rv_WriteTimeout = 35 * second\<rparr>)"

text \<open>
  Running and stopping. \<open>rx_active\<close> counts the requests in progress. \<^verbatim>\<open>Shutdown\<close> closes the listener, upon which \<^verbatim>\<open>ListenAndServe\<close>
  returns \<^verbatim>\<open>ErrServerClosed\<close>, and waits, at most five seconds, for the requests in progress; when \<^verbatim>\<open>main\<close> returns, the
  process is gone.
\<close>

datatype rx_stop = Rx_Waiting | Rx_Shutting | Rx_Shut

record rx =
  rx_listening :: bool
  rx_active :: nat
  rx_signalled :: bool
  rx_stop :: rx_stop
  rx_ended :: "server_error ended option"

definition rx_init :: rx where
  "rx_init = \<lparr>rx_listening = True, rx_active = 0, rx_signalled = False, rx_stop = Rx_Waiting, rx_ended = None\<rparr>"

inductive rx_step :: "rx \<Rightarrow> rx \<Rightarrow> bool" where
  Rx_accept: "rx_ended s = None \<Longrightarrow> rx_listening s \<Longrightarrow> rx_step s (s\<lparr>rx_active := rx_active s + 1\<rparr>)"
| Rx_answer: "rx_ended s = None \<Longrightarrow> 0 < rx_active s \<Longrightarrow> rx_step s (s\<lparr>rx_active := rx_active s - 1\<rparr>)"
| Rx_signal: "rx_ended s = None \<Longrightarrow> rx_step s (s\<lparr>rx_signalled := True\<rparr>)"
| Rx_shutdown: "rx_ended s = None \<Longrightarrow> rx_signalled s \<Longrightarrow> rx_stop s = Rx_Waiting \<Longrightarrow>
    rx_step s (s\<lparr>rx_stop := Rx_Shutting, rx_listening := False\<rparr>)"
| Rx_drained: "rx_ended s = None \<Longrightarrow> rx_stop s = Rx_Shutting \<Longrightarrow> rx_active s = 0 \<or> timeout \<Longrightarrow> rx_step s (s\<lparr>rx_stop := Rx_Shut\<rparr>)"
| Rx_closed: "rx_ended s = None \<Longrightarrow> rx_stop s \<noteq> Rx_Waiting \<Longrightarrow> rx_step s (s\<lparr>rx_ended := Some Completed\<rparr>)"
| Rx_failed: "rx_ended s = None \<Longrightarrow> rx_listening s \<Longrightarrow> rx_step s (s\<lparr>rx_listening := False, rx_ended := Some (Fatal (ListenError e))\<rparr>)"

section \<open>cmd/seed\<close>

record seed_flags =
  sf_url :: string
  sf_endpoint :: string
  sf_email :: string
  sf_events :: int

datatype seed_error = SecretTooShort | ClientFailed call_error

definition seed_types :: "string list" where
  "seed_types = [''payment.completed'', ''order.created'', ''subscription.cancelled'', ''conversion.completed'', ''user.created'',
     ''invoice.failed'']"

definition event_body :: "string \<Rightarrow> string \<Rightarrow> (string \<times> json) list \<Rightarrow> json option" where
  "event_body eid typ data = obj [(''event_id'', JStr eid), (''type'', JStr typ), (''data'', JObj (go_map data))]"

definition seed_event_id :: "int \<Rightarrow> int \<Rightarrow> string" where
  "seed_event_id nano i = ''seed-'' @ FormatInt nano @ ''-'' @ FormatInt i"

definition seed_body :: "int \<Rightarrow> int \<Rightarrow> json option" where
  "seed_body nano i =
     event_body (seed_event_id nano i) (seed_types ! nat (i mod int (length seed_types)))
       [(''synthetic'', JBool True), (''sequence'', JNum (FormatInt i)), (''value'', JNum (FormatInt 1499))]"

fun seed_events ::
  "net_lib \<Rightarrow> 'w transport \<Rightarrow> client \<Rightarrow> string \<Rightarrow> (int \<Rightarrow> int) \<Rightarrow> int list \<Rightarrow> 'w \<Rightarrow> 'w \<times> seed_error ended" where
  "seed_events nl do c key clock [] w = (w, Completed)"
| "seed_events nl do c key clock (i # is) w =
     (case Call nl do c ''POST'' ''/v1/events'' key (seed_body (clock i) i) w of
        (w', Inl e) \<Rightarrow> (w', Fatal (ClientFailed e))
      | (w', Inr _) \<Rightarrow> seed_events nl do c key clock is w')"

definition seed_main ::
  "net_lib \<Rightarrow> 'w transport \<Rightarrow> seed_flags \<Rightarrow> (string \<Rightarrow> string) \<Rightarrow> bytes \<Rightarrow> (int \<Rightarrow> int) \<Rightarrow> 'w \<Rightarrow> 'w \<times> seed_error ended" where
  "seed_main nl do f getenv rnd clock w =
     (let password0 = getenv ''DEMO_PASSWORD'';
          password = (if password0 = [] then the (Token ''demo_'' (Some rnd)) else password0);
          secret = getenv ''RECEIVER_SECRET'';
          c = democlient_New (sf_url f)
      in if length secret < 16 then (w, Fatal SecretTooShort)
         else case Bootstrap nl do c (sf_email f) password (sf_endpoint f) secret w of
                (w', BootFailed e) \<Rightarrow> (w', Fatal (ClientFailed e))
              | (w', BootPanic) \<Rightarrow> (w', Panicked)
              | (w', Booted pid key) \<Rightarrow> seed_events nl do c key clock [0..sf_events f - 1] w')"

section \<open>cmd/loadtest\<close>

text \<open>What the goroutine that received \<open>j\<close> posts; \<open>run\<close> is the start of the run in nanoseconds.\<close>

definition load_event_id :: "int \<Rightarrow> int \<Rightarrow> string" where
  "load_event_id run j = ''load-'' @ FormatInt run @ ''-'' @ FormatInt j"

definition load_body :: "int \<Rightarrow> int \<Rightarrow> json option" where
  "load_body run j =
     event_body (load_event_id run j) ''order.created''
       [(''synthetic'', JBool True), (''sequence'', JNum (FormatInt j))]"

text \<open>The start of the program: \<open>None\<close> is the refusal of the arguments, with exit status 1 and no request made.\<close>

record load_flags =
  lf_url :: string
  lf_events :: int
  lf_concurrency :: int

definition loadtest_start :: "(string \<Rightarrow> string) \<Rightarrow> load_flags \<Rightarrow> (client \<times> string \<times> loadtest) option" where
  "loadtest_start getenv f =
     (let key = getenv ''API_KEY''
      in if \<not> loadtest_args key (lf_events f) (lf_concurrency f) then None
         else Some (democlient_New (lf_url f), key, lt_init (nat (lf_concurrency f))))"

definition load_call :: "net_lib \<Rightarrow> 'w transport \<Rightarrow> client \<Rightarrow> string \<Rightarrow> int \<Rightarrow> int \<Rightarrow> 'w \<Rightarrow> 'w \<times> bool" where
  "load_call nl do c key run j w =
     (case Call nl do c ''POST'' ''/v1/events'' key (load_body run j) w of (w', Inl e) \<Rightarrow> (w', False) | (w', Inr _) \<Rightarrow> (w', True))"

section \<open>Properties\<close>

inductive rx_reachable :: "rx \<Rightarrow> bool" where
  Rx_begin: "rx_reachable rx_init"
| Rx_goes: "rx_reachable s \<Longrightarrow> rx_step s s' \<Longrightarrow> rx_reachable s'"

lemma rx_completed: "rx_reachable s \<Longrightarrow> (rx_stop s = Rx_Waiting \<or> rx_signalled s) \<and> (rx_ended s = Some Completed \<longrightarrow> rx_stop s \<noteq> Rx_Waiting)"
  by (induction rule: rx_reachable.induct) (auto simp: rx_init_def elim!: rx_step.cases)

text \<open>
  The receiver exits without an error only after a signal; but it does not wait for \<^verbatim>\<open>Shutdown\<close>: it can be gone while a request
  is in progress, before the five seconds have passed.
\<close>

lemma receiver_exit_cuts_requests:
  "(\<forall>s. rx_reachable s \<and> rx_ended s = Some Completed \<longrightarrow> rx_signalled s) \<and>
   (\<exists>s. rx_reachable s \<and> rx_ended s = Some Completed \<and> 0 < rx_active s \<and> rx_stop s = Rx_Shutting)"
proof
  show "\<forall>s. rx_reachable s \<and> rx_ended s = Some Completed \<longrightarrow> rx_signalled s" using rx_completed by blast
  have "rx_reachable (rx_init\<lparr>rx_active := 1\<rparr>)"
    using rx_reachable.Rx_goes [OF rx_reachable.Rx_begin rx_step.Rx_accept] by (simp add: rx_init_def)
  from rx_reachable.Rx_goes [OF this rx_step.Rx_signal] have "rx_reachable (rx_init\<lparr>rx_active := 1, rx_signalled := True\<rparr>)"
    by (simp add: rx_init_def)
  from rx_reachable.Rx_goes [OF this rx_step.Rx_shutdown]
  have "rx_reachable (rx_init\<lparr>rx_active := 1, rx_signalled := True, rx_stop := Rx_Shutting, rx_listening := False\<rparr>)"
    by (simp add: rx_init_def)
  from rx_reachable.Rx_goes [OF this rx_step.Rx_closed]
  show "\<exists>s. rx_reachable s \<and> rx_ended s = Some Completed \<and> 0 < rx_active s \<and> rx_stop s = Rx_Shutting"
    by (force simp: rx_init_def)
qed

text \<open>The longest answer of the receiver fits its write timeout.\<close>

lemma receiver_sleep_fits: "receiver_server_of getenv = Some s \<Longrightarrow> sleep_delay q < rv_WriteTimeout s \<and> 16 \<le> length (rc_Secret (rv_Handler s))"
  by (auto simp: receiver_server_of_def Let_def sleep_delay_def receiver_New_def duration_defs split: if_splits option.splits)

end
