(* ===== verification/Json_Fields.thy ===== *)
theory Json_Fields
  imports Json_Props
begin

text \<open>
  What one side of the HTTP interface encodes the other decodes: the raw members of a printed object are its members
  (\<open>json_fields_print\<close>), so decoding a printed object into a struct stores its members one by one
  (\<open>decode_struct_print\<close>); and a decimal integer is a number, within the length its bound allows.
\<close>

section \<open>Printed objects\<close>

abbreviation raw_member :: "string \<times> json \<Rightarrow> field" where
  "raw_member m \<equiv> (fst m, json_print (snd m), snd m)"

lemma raw_member_print:
  assumes "utf8 k" "wf_json v" "nests (max_nesting - 1) v" and x: "x = CHR ''}'' # r \<or> x = CHR '','' # r"
  shows "json_fields (Suc n) (print_member (k, v) @ x) =
    (if hd x = CHR ''}'' then Some [raw_member (k, v)] else map_option (Cons (raw_member (k, v))) (json_fields n r))"
proof -
  let ?s = "print_member (k, v) @ x" and ?s3 = "json_print v @ x"
  let ?t = "print_text (length k) k @ CHR 0x22 # CHR '':'' # ?s3"
  have s: "?s = CHR 0x22 # ?t" by (simp add: print_string_def)
  have str: "json_string (length ?s) ?t = Some (k, CHR '':'' # ?s3)"
    by (rule json_string_print [OF assms(1)]) (simp_all add: print_string_def)
  have val: "json_value (2 * length ?s3 + 1) 1 ?s3 = Some (v, x)"
    using assms x stops_marks by (intro json_value_print) auto
  have sk: "skip_space (tl (skip_space (CHR '':'' # ?s3))) = ?s3"
    using skip_printed [OF assms(2)] by (simp add: json_space_def)
  show ?thesis
    unfolding json_fields.simps s using str val sk x
    by (auto simp: json_space_def Let_def print_string_def simp del: json_value.simps)
qed

lemma json_fields_print:
  assumes "ms \<noteq> []" and "length ms \<le> n"
    and "\<forall>m \<in> set ms. utf8 (fst m) \<and> wf_json (snd m) \<and> nests (max_nesting - 1) (snd m)"
  shows "json_fields n (join '','' (map print_member ms) @ CHR ''}'' # r) = Some (map raw_member ms)"
  using assms
proof (induction ms arbitrary: n)
  case (Cons a ms)
  obtain k v where a: "a = (k, v)" by (cases a)
  obtain m where n: "n = Suc m" using Cons.prems(2) by (cases n) auto
  have kv: "utf8 k" "wf_json v" "nests (max_nesting - 1) v" using Cons.prems(3) a by auto
  show ?case
  proof (cases ms)
    case Nil
    with raw_member_print [OF kv, of "CHR ''}'' # r"] show ?thesis by (simp add: n a del: json_fields.simps)
  next
    case (Cons b bs)
    let ?rest = "join '','' (map print_member ms) @ CHR ''}'' # r"
    have eq: "join '','' (map print_member (a # ms)) @ CHR ''}'' # r = print_member (k, v) @ CHR '','' # ?rest"
      using Cons a by simp
    have "json_fields m ?rest = Some (map raw_member ms)"
      using Cons.prems n Cons by (intro Cons.IH) auto
    with raw_member_print [OF kv, of "CHR '','' # ?rest" ?rest] show ?thesis
      unfolding eq by (simp add: n a del: json_fields.simps)
  qed
qed simp

lemma join_length: "length xs \<le> length (join [s] xs) + 1"
  by (induction "[s]" xs rule: join.induct) auto

lemma decode_struct_print:
  assumes "ms \<noteq> []" and "wf_json (JObj ms)" and "nests max_nesting (JObj ms)"
  shows "decode_struct names put (JObj ms) (json_print (JObj ms)) x = set_fields names put (map raw_member ms) x"
proof -
  let ?b = "join '','' (map print_member ms) @ CHR ''}'' # []"
  have p: "json_print (JObj ms) = CHR ''{'' # ?b" by simp
  have "json_fields (length (json_print (JObj ms))) ?b = Some (map raw_member ms)"
    using assms join_length [of "map print_member ms" "CHR '',''"] by (intro json_fields_print) auto
  then have "json_fields (length (json_print (JObj ms))) (tl (skip_space (json_print (JObj ms)))) = Some (map raw_member ms)"
    unfolding p by (simp add: json_space_def)
  with assms(1) show ?thesis by (cases ms) (simp_all add: decode_struct_def del: json_print.simps)
qed

section \<open>Decimal integers\<close>

lemma nat_digits_digits: "c \<in> set (nat_digits n) \<Longrightarrow> digit c"
proof (induction n rule: nat_digits.induct)
  case (1 n)
  have d: "digit (char_of (48 + k))" if "k < 10" for k :: nat using that by (simp add: digit_def between_def byte_char_of)
  show ?case
    using 1 d [of n] d [of "n mod 10"] by (cases "n < 10") (auto simp: nat_digits.simps [of n])
qed

lemma hd_digits_zero: "0 < n \<Longrightarrow> hd (nat_digits n) \<noteq> CHR ''0''"
proof (induction n rule: nat_digits.induct)
  case (1 n)
  show ?case
  proof (cases "n < 10")
    case True
    have "char_of (48 + n) \<noteq> CHR ''0''"
    proof
      assume "char_of (48 + n) = CHR ''0''"
      then have "byte (char_of (48 + n)) = byte (CHR ''0'')" by (rule arg_cong)
      with True 1(2) show False by (simp add: byte_char_of)
    qed
    with True show ?thesis by (simp add: nat_digits.simps [of n])
  next
    case False
    with 1 show ?thesis by (simp add: nat_digits.simps [of n])
  qed
qed

lemma nat_digits_length: "n < 10 ^ k \<Longrightarrow> 0 < k \<Longrightarrow> length (nat_digits n) \<le> k"
proof (induction k arbitrary: n)
  case (Suc k)
  show ?case
  proof (cases "n < 10")
    case False
    then have "0 < k" using Suc.prems by (cases k) auto
    moreover have "n div 10 < 10 ^ k" using Suc.prems(1) by (simp add: less_mult_imp_div_less)
    ultimately show ?thesis using Suc.IH [of "n div 10"] False by (simp add: nat_digits.simps [of n])
  qed (simp add: nat_digits.simps [of n])
qed simp

lemma FormatInt_length: "int64_range n \<Longrightarrow> length (FormatInt n) \<le> 20"
  using nat_digits_length [of "nat n" 19] nat_digits_length [of "nat (- n)" 19]
  by (auto simp: FormatInt_def int64_range_def nat_less_iff)

lemma FormatInt_chars: "c \<in> set (FormatInt n) \<Longrightarrow> digit c \<or> c = CHR ''-''"
  by (auto simp: FormatInt_def nat_digits_digits split: if_splits)

lemma FormatInt_inject: "int64_range m \<Longrightarrow> int64_range n \<Longrightarrow> FormatInt m = FormatInt n \<Longrightarrow> m = n"
  by (metis ParseInt_FormatInt parse_result.inject(1))

lemma int_part_digits: "int_part (nat_digits n) = Some (nat_digits n, [])"
proof (cases "nat_digits n")
  case (Cons c s)
  have d: "\<forall>c \<in> set (nat_digits n). digit c" using nat_digits_digits by blast
  then have "split_digits (nat_digits n) = (nat_digits n, [])"
    using split_digits_append [of "[]" "nat_digits n"] by (simp add: no_digit_def)
  moreover have "c = CHR ''0'' \<Longrightarrow> s = []"
    using hd_digits_zero [of n] Cons by (cases "n = 0") (auto simp: nat_digits.simps [of 0])
  moreover have "digit c" using d Cons by simp
  ultimately show ?thesis using Cons by (auto simp: int_part_def)
qed simp

lemma number_FormatInt [simp]: "number (FormatInt n)"
proof -
  have sign: "takeWhile (\<lambda>x. x = CHR ''-'') (take 1 (nat_digits k)) = []" for k
    using hd_nat_digits [of k] by (cases "nat_digits k") auto
  have "json_number (FormatInt n) = Some (FormatInt n, [])"
    using int_part_digits sign [of "nat n"]
    by (cases "n < 0") (simp_all add: FormatInt_def json_number_def frac_part_def exp_part_def Let_def)
  from json_number_Some [OF this] show ?thesis by simp
qed

end
