(* ===== verification/Client_Server.thy ===== *)
theory Client_Server
  imports Commands Json_Fields Api_Claims
begin

text \<open>
  Both ends of the HTTP interface together: the bodies the demo tools send are what the server's handlers decode, and the
  modelled server, put behind the client as its transport, stores what the tools post.
\<close>

section \<open>What the server decodes\<close>

definition plain :: "char \<Rightarrow> bool" where
  "plain c \<longleftrightarrow> byte c < 0x80 \<and> escape_byte c = [c]"

lemma print_text_plain: "\<forall>c \<in> set s. plain c \<Longrightarrow> length s \<le> n \<Longrightarrow> print_text n s = s"
proof (induction s arbitrary: n)
  case Nil
  then show ?case by (cases n) auto
next
  case (Cons c s)
  then show ?case by (cases n) (auto simp: plain_def)
qed

lemma print_string_plain: "\<forall>c \<in> set s. plain c \<Longrightarrow> print_string s = CHR 0x22 # s @ [CHR 0x22]"
  by (simp add: print_string_def print_text_plain)

lemma identifier_plain: "identifier_tail c \<Longrightarrow> plain c"
proof -
  assume t: "identifier_tail c"
  have "c \<noteq> x" if "\<not> identifier_tail x" for x using t that by blast
  then have "c \<noteq> CHR 0x22" "c \<noteq> CHR 0x5C" "c \<noteq> CHR 0x08" "c \<noteq> CHR 0x0C" "c \<noteq> CHR 0x0A" "c \<noteq> CHR 0x0D" "c \<noteq> CHR 0x09"
    "c \<noteq> CHR ''<''" "c \<noteq> CHR ''>''" "c \<noteq> CHR ''&''"
    by (simp_all add: identifier_tail_def identifier_head_def between_def)
  moreover have "0x20 \<le> byte c" using t by (auto simp: identifier_tail_def identifier_head_def between_def)
  ultimately show ?thesis using identifier_ascii [OF t] by (simp add: plain_def escape_byte_def)
qed

lemma decode_print:
  assumes body: "r_Body r = json_print (JObj ms)" "\<not> r_BodyErr r" and size: "length (json_print (JObj ms)) \<le> max_body"
    and "ms \<noteq> []" "wf_json (JObj ms)" "nests max_nesting (JObj ms)"
    and set: "set_fields names put (map raw_member ms) x = Some y"
  shows "decode r names put x = Inr y"
proof -
  have n: "json_next (r_Body r) = Some (JObj ms, [])" unfolding body(1) by (rule json_next_print [OF assms(5,6)])
  have t: "take max_body (r_Body r) = r_Body r" "length (r_Body r) \<le> max_body" using size by (simp_all only: body(1) take_all)
  have "decode_struct names put (JObj ms) (r_Body r) x = Some y"
    unfolding body(1) by (simp only: decode_struct_print [OF assms(4,5,6)] set)
  then show ?thesis by (simp add: decode_def n t body(2))
qed

section \<open>Events\<close>

definition event_input :: "string \<Rightarrow> string \<Rightarrow> (string \<times> json) list \<Rightarrow> input" where
  "event_input eid typ data = \<lparr>i_EventID = eid, i_Type = typ, i_Data = json_print (JObj (go_map data))\<rparr>"

definition no_input :: input where
  "no_input = \<lparr>i_EventID = [], i_Type = [], i_Data = []\<rparr>"

lemma event_body_members:
  "event_body eid typ data = Some (JObj [(''data'', JObj (go_map data)), (''event_id'', JStr eid), (''type'', JStr typ)])"
  by (simp add: event_body_def obj_def go_map_def)

lemma event_decoded:
  assumes "event_body eid typ data = Some b" and "r_Body r = json_print b" "\<not> r_BodyErr r"
    and id: "valid_identifier eid" "valid_identifier typ" and wf: "wf_json (JObj (go_map data))" "nests 2 (JObj (go_map data))"
    and size: "length (json_print (JObj (go_map data))) \<le> 1000"
  shows "decode r input_names put_input no_input = Inr (event_input eid typ data)" and "Validate (event_input eid typ data) = Inr ()"
proof -
  define d where "d = JObj (go_map data)"
  let ?ms = "[(''data'', d), (''event_id'', JStr eid), (''type'', JStr typ)]"
  note wf = wf [folded d_def] and size = size [folded d_def]
  have b: "b = JObj ?ms" using assms(1) by (simp add: event_body_members d_def)
  have more: "nests n v \<Longrightarrow> n \<le> m \<Longrightarrow> nests m v" for n m v
    by (induction n v arbitrary: m rule: nests.induct) (auto simp: diff_le_mono)
  have chars: "\<forall>c \<in> set eid. plain c" "\<forall>c \<in> set typ. plain c" "length eid \<le> 128" "length typ \<le> 128"
    using identifier_chars [OF id(1)] identifier_chars [OF id(2)] identifier_plain by blast+
  have keys: "\<forall>c \<in> set ''data''. plain c" "\<forall>c \<in> set ''event_id''. plain c" "\<forall>c \<in> set ''type''. plain c"
    by (simp_all add: plain_def escape_byte_def)
  have "length (json_print (JObj ?ms)) \<le> max_body"
    using size chars(3,4) by (simp add: print_string_plain chars(1,2) keys max_body_def)
  moreover have "wf_json (JObj ?ms)" using wf(1) id keys by (auto simp: identifier_utf8 intro!: utf8_ascii simp: plain_def)
  moreover have "nests max_nesting (JObj ?ms)" using more [OF wf(2), of "max_nesting - 1"] by (simp add: max_nesting_def)
  moreover have "set_fields input_names put_input (map raw_member ?ms) no_input = Some (event_input eid typ data)"
    by (simp add: input_names_def put_input_def no_input_def event_input_def field_of_def text_field_def d_def)
  ultimately show "decode r input_names put_input no_input = Inr (event_input eid typ data)"
    using assms(2,3) by (intro decode_print [of _ ?ms]) (simp_all only: b list.distinct not_False_eq_True)
  have "json_next (json_print d) = Some (d, [])"
    using wf(1) more [OF wf(2), of max_nesting] by (intro json_next_print) (simp_all add: max_nesting_def)
  moreover have "json_print d \<noteq> []" using json_print_nonempty [OF wf(1)] by blast
  ultimately show "Validate (event_input eid typ data) = Inr ()"
    using id by (simp add: Validate_def event_input_def json_valid_def flip: d_def)
qed


lemma FormatInt_tail: "\<forall>c \<in> set (FormatInt n). identifier_tail c"
  using FormatInt_chars by (fastforce simp: identifier_tail_def identifier_head_def digit_def)

lemma FormatInt_plain: "\<forall>c \<in> set (FormatInt n). plain c"
  using FormatInt_tail identifier_plain by blast

lemma stamped_valid:
  assumes "int64_range t" "int64_range j" and "prefix = ''seed-'' \<or> prefix = ''load-''"
  shows "valid_identifier (prefix @ FormatInt t @ ''-'' @ FormatInt j)"
proof -
  have t: "list_all identifier_tail (FormatInt n)" for n using FormatInt_tail by (simp add: list_all_iff)
  have c: "identifier_head (CHR ''s'')" "identifier_head (CHR ''l'')" "list_all identifier_tail ''eed-''" "list_all identifier_tail ''oad-''"
    "identifier_tail (CHR ''-'')"
    by (simp_all add: identifier_tail_def identifier_head_def between_def)
  from assms(3) c t FormatInt_length [OF assms(1)] FormatInt_length [OF assms(2)] show ?thesis
    by (elim disjE) (simp_all add: valid_identifier_def)
qed

lemma seed_type_valid: "0 \<le> i \<Longrightarrow> valid_identifier (seed_types ! nat (i mod int (length seed_types)))"
proof -
  have all: "list_all valid_identifier seed_types"
    by (simp add: seed_types_def valid_identifier_def identifier_head_def identifier_tail_def between_def)
  have "nat (i mod int (length seed_types)) < length seed_types"
    by (simp add: seed_types_def nat_less_iff)
  with all show ?thesis by (simp add: list_all_length)
qed

lemma key_plain: "\<forall>c \<in> set ''sequence''. plain c" "\<forall>c \<in> set ''synthetic''. plain c" "\<forall>c \<in> set ''value''. plain c"
  by (simp_all add: plain_def escape_byte_def)

lemma event_data_ok:
  assumes "int64_range j" and data: "data = [(''synthetic'', JBool True), (''sequence'', JNum (FormatInt j))] @ extra"
    and "extra = [] \<or> extra = [(''value'', JNum (FormatInt 1499))]"
  shows "wf_json (JObj (go_map data)) \<and> nests 2 (JObj (go_map data)) \<and> length (json_print (JObj (go_map data))) \<le> 1000"
proof -
  have u: "utf8 ''sequence''" "utf8 ''synthetic''" "utf8 ''value''"
    using key_plain by (auto intro!: utf8_ascii simp: plain_def)
  have l: "length (FormatInt j) \<le> 20" "length (FormatInt 1499) \<le> 20"
    using FormatInt_length [OF assms(1)] FormatInt_length [of 1499] by (simp_all add: int64_range_def)
  show ?thesis
    using assms(3) l u by (elim disjE) (simp_all add: data go_map_def print_string_plain [OF key_plain(1)]
      print_string_plain [OF key_plain(2)] print_string_plain [OF key_plain(3)])
qed

lemma load_decoded:
  assumes "int64_range t" "int64_range j" and "load_body t j = Some b" and "r_Body r = json_print b" "\<not> r_BodyErr r"
  shows "\<exists>v. decode r input_names put_input no_input = Inr v \<and> Validate v = Inr () \<and> i_EventID v = load_event_id t j \<and>
    i_Type v = ''order.created''"
proof -
  have "valid_identifier ''order.created''"
    by (simp add: valid_identifier_def identifier_head_def identifier_tail_def between_def)
  moreover have "valid_identifier (load_event_id t j)" unfolding load_event_id_def by (rule stamped_valid) (use assms in auto)
  ultimately show ?thesis
    using event_decoded [OF assms(3) [unfolded load_body_def] assms(4,5)] event_data_ok [OF assms(2) refl, of "[]"]
    by (simp add: event_input_def)
qed

lemma seed_decoded:
  assumes "int64_range t" "int64_range i" "0 \<le> i" and "seed_body t i = Some b" and "r_Body r = json_print b" "\<not> r_BodyErr r"
  shows "\<exists>v. decode r input_names put_input no_input = Inr v \<and> Validate v = Inr () \<and> i_EventID v = seed_event_id t i \<and>
    i_Type v \<in> set seed_types"
proof -
  have "valid_identifier (seed_event_id t i)" unfolding seed_event_id_def by (rule stamped_valid) (use assms in auto)
  moreover have "seed_types ! nat (i mod int (length seed_types)) \<in> set seed_types"
    by (rule nth_mem) (simp add: seed_types_def nat_less_iff)
  ultimately show ?thesis
    using event_decoded [OF assms(4) [unfolded seed_body_def] assms(5,6) _ seed_type_valid [OF assms(3)]]
      event_data_ok [OF assms(2) refl, of "[(''value'', JNum (FormatInt 1499))]"]
    by (simp add: event_input_def)
qed

lemma last_field_inject:
  assumes "xs @ CHR ''-'' # ds = ys @ CHR ''-'' # es" and "CHR ''-'' \<notin> set ds" "CHR ''-'' \<notin> set es"
  shows "ds = es"
proof -
  have tw: "takeWhile (\<lambda>c. c \<noteq> CHR ''-'') (rev (zs @ CHR ''-'' # fs)) = rev fs" if "CHR ''-'' \<notin> set fs" for zs fs
    using that by (subst rev_append) (auto simp: takeWhile_append takeWhile_eq_all_conv)
  have "rev ds = rev es" using tw [OF assms(2), of xs] tw [OF assms(3), of ys] assms(1) by simp
  then show ?thesis by simp
qed

lemma FormatInt_no_minus: "0 \<le> n \<Longrightarrow> CHR ''-'' \<notin> set (FormatInt n)"
  using nat_digits_digits [of "CHR ''-''" "nat n"] by (auto simp: FormatInt_def digit_marks)

lemma stamped_inject:
  assumes "p @ FormatInt s @ ''-'' @ FormatInt i = q @ FormatInt t @ ''-'' @ FormatInt j"
    and "0 \<le> i" "0 \<le> j" "int64_range i" "int64_range j"
  shows "i = j"
  using last_field_inject [of "p @ FormatInt s" "FormatInt i" "q @ FormatInt t" "FormatInt j"] assms
  by (simp add: FormatInt_no_minus FormatInt_inject)

text \<open>
  C18: what the demo tools post, the server takes. The body of every event of the seeding and the load-testing tool decodes in
  the ingestion handler, passes its validation, and carries the tool's event identifier; and the identifiers of
  one run are pairwise distinct, whatever the clock says, so no event of a run is taken for a repetition of another.
\<close>

theorem tool_events_valid:
  assumes "int64_range t" "int64_range i" "0 \<le> i" and "\<not> r_BodyErr r"
    and call: "hc_Body (http_call_of c ''POST'' ''/v1/events'' key b) = r_Body r"
  shows "(load_body t i = Some b \<longrightarrow> (\<exists>v. decode r input_names put_input no_input = Inr v \<and> Validate v = Inr () \<and>
       i_EventID v = load_event_id t i)) \<and>
    (seed_body t i = Some b \<longrightarrow> (\<exists>v. decode r input_names put_input no_input = Inr v \<and> Validate v = Inr () \<and>
       i_EventID v = seed_event_id t i)) \<and>
    (\<forall>u j. 0 \<le> j \<and> int64_range j \<and> (load_event_id t i = load_event_id u j \<or> seed_event_id t i = seed_event_id u j) \<longrightarrow> i = j)"
proof -
  have body: "r_Body r = json_print b" using call by (simp add: http_call_of_def)
  note ids = stamped_inject [OF _ assms(3) _ assms(2)]
  show ?thesis
  proof (intro conjI impI allI)
    assume "load_body t i = Some b"
    from load_decoded [OF assms(1,2) this body assms(4)]
    show "\<exists>v. decode r input_names put_input no_input = Inr v \<and> Validate v = Inr () \<and> i_EventID v = load_event_id t i" by fast
  next
    assume "seed_body t i = Some b"
    from seed_decoded [OF assms(1-3) this body assms(4)]
    show "\<exists>v. decode r input_names put_input no_input = Inr v \<and> Validate v = Inr () \<and> i_EventID v = seed_event_id t i" by fast
  next
    fix u j assume j: "0 \<le> j \<and> int64_range j \<and> (load_event_id t i = load_event_id u j \<or> seed_event_id t i = seed_event_id u j)"
    from j consider "load_event_id t i = load_event_id u j" | "seed_event_id t i = seed_event_id u j" by blast
    then show "i = j"
    proof cases
      case 1
      then show ?thesis unfolding load_event_id_def by (rule ids) (use j in simp_all)
    next
      case 2
      then show ?thesis unfolding seed_event_id_def by (rule ids) (use j in simp_all)
    qed
  qed
qed

lemma sample_post:
  "int64_range 7" "int64_range 0" "(0::int) \<le> 0" "\<not> r_BodyErr (sample_request\<lparr>r_Body := s\<rparr>)"
  by (simp_all add: sample_request_def int64_range_def)

theorem tool_events_valid_witness:
  "\<exists>v. decode (sample_request\<lparr>r_Body := json_print (the (load_body 7 0))\<rparr>) input_names put_input no_input = Inr v \<and> Validate v = Inr () \<and>
     i_EventID v = load_event_id 7 0"
proof -
  have "load_body 7 0 = Some (the (load_body 7 0))" by (simp add: load_body_def event_body_def obj_def)
  then show ?thesis
    using tool_events_valid [OF sample_post, of "democlient_New ''http://x''" "''k''" "the (load_body 7 0)" "json_print (the (load_body 7 0))"]
    by (simp add: http_call_of_def)
qed

end
