(* ===== verification/Demo_Setup.thy ===== *)
theory Demo_Setup
  imports Client_Server
begin

text \<open>
  The demo client against the modelled server: \<open>serve_call\<close> puts \<open>Server.Handler\<close> behind the client as its transport. The
  client's jar keeps the session cookie and sends a secure one only over TLS; \<open>ios\<close> gives each request its view of
  the clocks, the random bytes and the failing calls; nobody else writes to the server in between.
\<close>

section \<open>The server behind the client\<close>

record site =
  st_world :: world
  st_jar :: "(string \<times> bool) option"
  st_count :: nat

fun split_slash :: "string \<Rightarrow> string list" where
  "split_slash [] = [[]]"
| "split_slash (c # s) =
     (if c = CHR ''/'' then [] # split_slash s
      else case split_slash s of [] \<Rightarrow> [[c]] | x # xs \<Rightarrow> (c # x) # xs)"

definition path_of :: "string \<Rightarrow> string \<Rightarrow> string list" where
  "path_of base url = split_slash (drop (Suc (length base)) url)"

definition sent_cookie :: "string \<Rightarrow> (string \<times> bool) option \<Rightarrow> string option" where
  "sent_cookie base jar =
     (case jar of None \<Rightarrow> None | Some (v, secure) \<Rightarrow> if secure \<and> \<not> has_prefix base ''https:'' then None else Some v)"

definition kept_cookie :: "cookie option \<Rightarrow> (string \<times> bool) option \<Rightarrow> (string \<times> bool) option" where
  "kept_cookie ck jar =
     (case ck of None \<Rightarrow> jar | Some c \<Rightarrow> if ck_MaxAge c < 0 then None else Some (ck_Value c, ck_Secure c))"

definition site_request :: "string \<Rightarrow> string \<Rightarrow> string \<Rightarrow> (string \<times> bool) option \<Rightarrow> http_call \<Rightarrow> request" where
  "site_request base host addr jar hc =
     \<lparr>r_Method = hc_Method hc, r_Path = path_of base (hc_URL hc), r_Host = host, r_RemoteAddr = addr,
      r_Header = (\<lambda>h. case map_of (hc_Header hc) h of None \<Rightarrow> [] | Some v \<Rightarrow> v),
      r_Cookie = (\<lambda>n. if n = ''pulseroute_session'' then sent_cookie base jar else None), r_Query = (\<lambda>_. []), r_ID = [],
      r_Body = hc_Body hc, r_BodyErr = False, r_request = [], r_user = []\<rparr>"

definition answer_of :: "response \<Rightarrow> http_answer" where
  "answer_of rsp =
     Answer (rsp_status rsp) (case rsp_body rsp of None \<Rightarrow> [] | Some v \<Rightarrow> json_print v @ [CHR 0x0A]) False"

definition serve_call ::
  "server \<Rightarrow> (nat \<Rightarrow> io) \<Rightarrow> (request \<Rightarrow> response) \<Rightarrow> string \<Rightarrow> string \<Rightarrow> string \<Rightarrow> site transport" where
  "serve_call sv ios files base host addr hc st =
     (let (w', rsp) = Handler sv (ios (st_count st)) (\<lambda>s. s) files (site_request base host addr (st_jar st) hc) (st_world st)
      in (\<lparr>st_world = w', st_jar = kept_cookie (rsp_cookie rsp) (st_jar st), st_count = st_count st + 1\<rparr>, answer_of rsp))"

lemma Call_site:
  assumes "Call nl (serve_call sv ios files base host addr) c ''POST'' path key (Some b) st = (st', Inr m)"
  obtains w' rsp where
    "Handler sv (ios (st_count st)) (\<lambda>s. s) files (site_request base host addr (st_jar st) (http_call_of c ''POST'' path key b)) (st_world st) =
       (w', rsp)"
    "st_world st' = w'" "read_answer nl (answer_of rsp) = Inr m"
  using assms by (auto simp: Call_def serve_call_def split: if_splits prod.splits)

section \<open>Reading the replies\<close>

lemma key_sorted_distinct: "sorted_wrt key_less m \<Longrightarrow> distinct (map fst m)"
proof (induction m)
  case (Cons a m)
  then show ?case using key_less_notin [of "fst a" "snd a" m] by simp
qed simp

lemma go_map_idem: "go_map (go_map ms) = go_map ms"
proof -
  have "distinct (map fst (go_map ms))" by (rule key_sorted_distinct [OF go_map_sorted])
  then have "map_of (rev (go_map ms)) = map_of (go_map ms)"
    by (subst map_of_inject_set) (simp_all add: rev_map [symmetric])
  then show ?thesis by (simp add: go_map_eq_iff map_of_go_map)
qed

text \<open>A flat object of strings and truth values reads back as the Go map it was printed from.\<close>

definition flat :: "(string \<times> json) list \<Rightarrow> bool" where
  "flat ms \<longleftrightarrow> (\<forall>m \<in> set ms. utf8 (fst m) \<and> ((\<exists>v. snd m = JStr v \<and> utf8 v) \<or> (\<exists>b. snd m = JBool b)))"

lemma read_flat:
  assumes "flat ms" and "status < 300" and "length (json_print (any_obj ms)) < max_reply"
  shows "read_answer nl (Answer status (json_print (any_obj ms) @ [CHR 0x0A]) False) = Inr (go_map ms)"
proof -
  define M where "M = go_map ms"
  have M: "flat M" using set_go_map [of ms] assms(1) by (auto simp: M_def flat_def)
  then have wf: "wf_json (JObj M)" "nests max_nesting (JObj M)" "numbers_fit (nl_float64 nl) (JObj M)"
    by (auto simp: max_nesting_def flat_def)
  have vals: "map (\<lambda>m. (fst m, go_value (snd m))) M = M" using M by (intro map_idI) (auto simp: prod_eq_iff flat_def)
  have "json_next (json_print (JObj M) @ [CHR 0x0A]) = Some (JObj M, [CHR 0x0A])"
    unfolding json_next_def using wf by (intro json_value_print) (auto simp: stops_def digit_def between_def)
  moreover have "go_map M = M" by (simp add: M_def go_map_idem)
  moreover have "json_print (JObj M) \<noteq> []" by simp
  ultimately show ?thesis
    using assms(2,3) wf(3) unfolding any_obj_def M_def [symmetric]
    by (simp add: read_answer_def unmarshal_map_def vals json_space_def del: json_print.simps numbers_fit.simps)
qed

lemma str_obj_any: "str_obj ms = any_obj (map (\<lambda>(k, v). (k, JStr v)) ms)"
  by (simp add: str_obj_def any_obj_def)

lemma read_strings:
  assumes "\<forall>m \<in> set ms. utf8 (fst m) \<and> utf8 (snd m)" and "status < 300" and "length (json_print (str_obj ms)) < max_reply"
  shows "read_answer nl (Answer status (json_print (str_obj ms) @ [CHR 0x0A]) False) = Inr (go_map (map (\<lambda>(k, v). (k, JStr v)) ms))"
  using assms read_flat [of "map (\<lambda>(k, v). (k, JStr v)) ms"] by (force simp: str_obj_any flat_def)

lemma text_of_strings: "text_of (go_map (map (\<lambda>(k, v). (k, JStr v)) ms)) k = map_of (rev ms) k"
proof -
  have "map_of (map (\<lambda>(k, v). (k, JStr v)) xs) k = map_option JStr (map_of xs k)" for xs :: "(string \<times> string) list"
    by (induction xs) auto
  then show ?thesis by (simp add: text_of_def map_of_go_map rev_map split: option.split)
qed

section \<open>Tokens\<close>

lemma token_chars: "c \<in> set (new_token i k p) \<Longrightarrow> c \<in> set p \<or> c \<in> set b64_url"
  using b64_url.encode_chars by (auto simp: new_token_def Token_def)

lemma b64_url_plain: "c \<in> set b64_url \<Longrightarrow> plain c \<and> c \<noteq> CHR ''/''"
proof -
  assume c: "c \<in> set b64_url"
  have "list_all identifier_tail b64_url"
    by (simp add: b64_url_def identifier_tail_def identifier_head_def between_def)
  with c have t: "identifier_tail c" by (simp add: list_all_iff)
  moreover have "\<not> identifier_tail (CHR ''/'')" by (simp add: identifier_tail_def identifier_head_def between_def)
  ultimately show ?thesis using identifier_plain by blast
qed

lemma b64_length: "length (b64_encode al bs) \<le> 2 * length bs"
  by (induction bs rule: list3_induct) (simp_all add: Let_def)

lemma token_plain:
  assumes "\<forall>c \<in> set p. plain c \<and> c \<noteq> CHR ''/''"
  shows "\<forall>c \<in> set (new_token i k p). plain c" "CHR ''/'' \<notin> set (new_token i k p)"
    "length (new_token i k p) \<le> length p + 2 * length (io_rand i k)"
  using token_chars [of _ i k p] b64_url_plain assms b64_length [of b64_url "io_rand i k"]
  by (blast, blast, simp add: new_token_def Token_def)


section \<open>Paths and routes\<close>

lemma split_slash_plain: "CHR ''/'' \<notin> set a \<Longrightarrow> split_slash a = [a]"
  by (induction a) (auto split: list.split)

lemma split_slash_append: "CHR ''/'' \<notin> set a \<Longrightarrow> split_slash (a @ CHR ''/'' # b) = a # split_slash b"
  by (induction a) (auto split: list.split)

lemma path_projects: "path_of base (base @ ''/api/projects'') = [''api'', ''projects'']"
  by (simp add: path_of_def)

lemma path_below_project:
  assumes "CHR ''/'' \<notin> set pid"
  shows "path_of base (base @ ''/api/projects/'' @ pid @ ''/endpoints'') = [''api'', ''projects'', pid, ''endpoints'']"
    and "path_of base (base @ ''/api/projects/'' @ pid @ ''/api-keys'') = [''api'', ''projects'', pid, ''api-keys'']"
  using split_slash_append [OF assms] by (simp_all add: path_of_def)

lemma demo_routes:
  "route_of ''POST'' [''api'', ''projects''] = CreateProject"
  "clean_segment pid \<Longrightarrow> route_of ''POST'' [''api'', ''projects'', pid, ''endpoints''] = CreateEndpoint pid"
  "clean_segment pid \<Longrightarrow> route_of ''POST'' [''api'', ''projects'', pid, ''api-keys''] = CreateKey pid"
  by (auto simp: route_of_def post_route_def below2_def moved_def clean_segment_def)

section \<open>Successful requests\<close>

text \<open>A request below \<^verbatim>\<open>/api\<close> that is answered below 300 passed the middleware and \<open>auth\<close>; the body, what the handler reads.\<close>

lemma middleware_ok:
  assumes "middleware sv i h r w = (w', rsp)" and "rsp_status rsp < 300"
  obtains rsp0 where "h (r\<lparr>r_request := new_token i 0 ''req_''\<rparr>) w = (w', rsp0)" "rsp_status rsp0 = rsp_status rsp" "rsp_body rsp0 = rsp_body rsp"
  using assms by (auto simp: middleware_def Let_def split: if_splits prod.splits)

lemma auth_ok:
  assumes "auth sv i h r w = (w', rsp)" and "rsp_status rsp < 300"
  obtains u where "h (r\<lparr>r_user := u\<rparr>) w = (w', rsp)"
  using assms by (auto simp: auth_def split: option.splits sum.splits)

lemma exec_ok: "exec sv ps oc f s = (s', Inr a) \<Longrightarrow> f s = Inr (s', a)"
  by (auto simp: exec_def apply_out_def split: if_splits sum.splits)

definition grows :: "db \<Rightarrow> db \<Rightarrow> bool" where
  "grows s s' \<longleftrightarrow> set (projects s) \<subseteq> set (projects s') \<and> set (endpoints s) \<subseteq> set (endpoints s') \<and> set (api_keys s) \<subseteq> set (api_keys s')"

lemma grows_refl [simp]: "grows s s"
  by (simp add: grows_def)

lemma grows_trans: "grows s t \<Longrightarrow> grows t u \<Longrightarrow> grows s u"
  by (auto simp: grows_def)

lemma dbError_fails [simp]: "\<not> rsp_status (dbError r e) < 300"
  by (simp add: dbError_def)

lemma insert_ok:
  "insert_project p s = Inr s' \<Longrightarrow> s' = s\<lparr>projects := projects s @ [p]\<rparr>"
  "insert_endpoint e s = Inr s' \<Longrightarrow> s' = s\<lparr>endpoints := endpoints s @ [e]\<rparr>"
  "insert_api_key k s = Inr s' \<Longrightarrow> s' = s\<lparr>api_keys := api_keys s @ [k]\<rparr> \<and> k_key_hash k \<notin> k_key_hash ` set (api_keys s)"
  by (auto simp: insert_project_def insert_endpoint_def insert_api_key_def split: if_splits)

lemma createProject_ok:
  assumes "createProject sv i r w = (w', rsp)" and "rsp_status rsp < 300" and "decode r [''name''] put_named \<lparr>n_Name = []\<rparr> = Inr \<lparr>n_Name = n\<rparr>"
  shows "rsp = write_json 201 (str_obj [(''id'', new_token i 1 ''prj_''), (''name'', n)]) \<and> grows (w_db w) (w_db w') \<and>
    (\<exists>p \<in> set (projects (w_db w')). p_id p = new_token i 1 ''prj_'' \<and> p_owner_id p = r_user r)"
  using assms
  by (auto simp: createProject_def Let_def user_def grows_def split: if_splits prod.splits sum.splits dest!: exec_ok insert_ok(1))

lemma createEndpoint_ok:
  assumes "createEndpoint sv i r w = (w', rsp)" and "rsp_status rsp < 300"
    and "decode r endpoint_names put_endpoint
      \<lparr>ei_Name = [], ei_URL = [], ei_Secret = [], ei_Active = None, ei_MaxAttempts = 5, ei_BaseDelay = 5, ei_Rate = 10\<rparr> = Inr v"
  shows "grows (w_db w) (w_db w') \<and> (\<exists>e \<in> set (endpoints (w_db w')). ep_project_id e = r_ID r \<and> ep_name e = ei_Name v \<and>
      ep_url e = ei_URL v \<and> ep_active e = (ei_Active v \<noteq> Some False) \<and> ep_deleted_at e = None \<and>
      ep_base_delay_seconds e = ei_BaseDelay v \<and>
      (ei_Secret v \<noteq> [] \<longrightarrow> Encrypt (sv_cr sv) (c_EncryptionKey (sv_Config sv)) (Some (io_rand i 2)) (ei_Secret v) = Inr (ep_secret_cipher e)))"
  using assms
  by (auto simp: createEndpoint_def validateEndpoint_def Let_def grows_def
      split: if_splits prod.splits sum.splits option.splits dest!: exec_ok insert_ok(2))

lemma find_snoc: "\<forall>x \<in> set xs. \<not> P x \<Longrightarrow> P y \<Longrightarrow> find P (xs @ [y]) = Some y"
  by (induction xs) auto

lemma insert_key_ok:
  assumes "insert_api_key k s = Inr s'"
  shows "grows s s' \<and> (k_revoked_at k = None \<longrightarrow> (\<exists>x. live_key s' (k_key_hash k) = Some x \<and> k_project_id x = k_project_id k))"
proof (intro conjI impI)
  show "grows s s'" using insert_ok(3) [OF assms] by (auto simp: grows_def)
next
  assume "k_revoked_at k = None"
  moreover have "s' = s\<lparr>api_keys := api_keys s @ [k]\<rparr>" "\<forall>x \<in> set (api_keys s). k_key_hash x \<noteq> k_key_hash k"
    using insert_ok(3) [OF assms] by (auto simp: image_iff)
  ultimately have "live_key s' (k_key_hash k) = Some k"
    using find_snoc [of "api_keys s" "\<lambda>x. k_key_hash x = k_key_hash k \<and> k_revoked_at x = None" k] by (simp add: live_key_def)
  then show "\<exists>x. live_key s' (k_key_hash k) = Some x \<and> k_project_id x = k_project_id k" by blast
qed

lemma createKey_ok:
  assumes "createKey sv i r w = (w', rsp)" and "rsp_status rsp < 300" and "decode r [''name''] put_named \<lparr>n_Name = []\<rparr> = Inr \<lparr>n_Name = n\<rparr>"
  shows "rsp = write_json 201 (str_obj [(''id'', new_token i 1 ''key_''), (''key'', new_token i 2 ''pr_live_''),
        (''prefix'', take 16 (new_token i 2 ''pr_live_''))]) \<and> grows (w_db w) (w_db w') \<and>
    (\<exists>k. live_key (w_db w') (Hash (sv_cr sv) (new_token i 2 ''pr_live_'')) = Some k \<and> k_project_id k = r_ID r)"
  using assms
  by (auto simp: createKey_def Let_def
      split: if_splits prod.splits sum.splits option.splits dest!: exec_ok insert_key_ok)


section \<open>What the handlers read\<close>

lemma hex_escape_length [simp]: "length (hex_escape n) = 6"
  by (simp add: hex_escape_def)

lemma escape_byte_length: "length (escape_byte c) \<le> 6"
  by (simp add: escape_byte_def)

lemma rune_size_pos: "rune_size (c # s) = 0 \<or> 1 \<le> rune_size (c # s) \<and> rune_size (c # s) \<le> length (c # s)"
  using rune_size_take [of "c # s"] by (cases "rune_size (c # s) = 0") auto

lemma print_text_length: "length (print_text n s) \<le> 6 * length s"
proof (induction n s rule: print_text.induct)
  case (3 n c s)
  let ?k = "rune_size (c # s)"
  show ?case
  proof (cases "byte c < 0x80")
    case True
    with 3(1) [OF True] escape_byte_length [of c] show ?thesis by simp
  next
    case False
    show ?thesis
    proof (cases "?k = 0")
      case True
      with 3(2) [OF False refl True] False show ?thesis by simp
    next
      case k: False
      have "length (print_text n (drop ?k (c # s))) \<le> 6 * length (drop ?k (c # s))" by (rule 3(3) [OF False refl k])
      with False k rune_size_pos [of c s] show ?thesis
        by (auto simp: Let_def line_separator_def simp del: rune_size.simps split: option.split)
    qed
  qed
qed simp_all

lemma print_string_length: "length (print_string s) \<le> 6 * length s + 2"
  using print_text_length [of "length s" s] by (simp add: print_string_def)

lemma plain_utf8: "\<forall>c \<in> set s. plain c \<Longrightarrow> utf8 s"
  by (rule utf8_ascii) (simp add: plain_def)

lemma name_decoded:
  assumes "name_body n = Some b" and "r_Body r = json_print b" "\<not> r_BodyErr r" and n: "utf8 n" "length n \<le> 1000"
  shows "decode r [''name''] put_named \<lparr>n_Name = []\<rparr> = Inr \<lparr>n_Name = n\<rparr>"
proof -
  let ?ms = "[(''name'', JStr n)]"
  have b: "b = JObj ?ms" using assms(1) by (simp add: name_body_def obj_def go_map_def)
  have key: "\<forall>c \<in> set ''name''. plain c" by (simp add: plain_def escape_byte_def)
  show ?thesis
  proof (rule decode_print [of _ ?ms])
    show "length (json_print (JObj ?ms)) \<le> max_body"
      using n(2) print_string_length [of n] by (simp add: print_string_plain key max_body_def)
    show "wf_json (JObj ?ms)" "nests max_nesting (JObj ?ms)" using plain_utf8 [OF key] n(1) by (simp_all add: max_nesting_def)
    show "set_fields [''name''] put_named (map raw_member ?ms) \<lparr>n_Name = []\<rparr> = Some \<lparr>n_Name = n\<rparr>"
      by (simp add: put_named_def field_of_def text_field_def)
  qed (simp_all add: assms(2,3) b)
qed

lemma endpoint_decoded:
  assumes "endpoint_body n url secret = Some b" and "r_Body r = json_print b" "\<not> r_BodyErr r"
    and utf: "utf8 n" "utf8 url" "utf8 secret" and len: "length n \<le> 1000" "length url \<le> 10000" "length secret \<le> 10000"
  shows "decode r endpoint_names put_endpoint
      \<lparr>ei_Name = [], ei_URL = [], ei_Secret = [], ei_Active = None, ei_MaxAttempts = 5, ei_BaseDelay = 5, ei_Rate = 10\<rparr> =
    Inr \<lparr>ei_Name = n, ei_URL = url, ei_Secret = secret, ei_Active = None, ei_MaxAttempts = 5, ei_BaseDelay = 1, ei_Rate = 10\<rparr>"
proof -
  let ?ms = "[(''base_delay_seconds'', JNum (FormatInt 1)), (''name'', JStr n), (''secret'', JStr secret), (''url'', JStr url)]"
  have b: "b = JObj ?ms" using assms(1) by (simp add: endpoint_body_def obj_def go_map_def)
  have key: "\<forall>c \<in> set ''base_delay_seconds''. plain c" "\<forall>c \<in> set ''name''. plain c" "\<forall>c \<in> set ''secret''. plain c"
    "\<forall>c \<in> set ''url''. plain c"
    by (simp_all add: plain_def escape_byte_def)
  have one: "ParseInt (FormatInt 1) = ParseOk 1" "length (FormatInt 1) \<le> 20"
    using ParseInt_FormatInt [of 1] FormatInt_length [of 1] by (simp_all add: int64_range_def)
  show ?thesis
  proof (rule decode_print [of _ ?ms])
    show "length (json_print (JObj ?ms)) \<le> max_body"
      using len one(2) print_string_length [of n] print_string_length [of url] print_string_length [of secret]
      by (simp add: print_string_plain [OF key(1)] print_string_plain [OF key(2)] print_string_plain [OF key(3)]
          print_string_plain [OF key(4)] max_body_def)
    show "wf_json (JObj ?ms)" "nests max_nesting (JObj ?ms)"
      using key utf by (simp_all add: max_nesting_def plain_utf8)
    show "set_fields endpoint_names put_endpoint (map raw_member ?ms)
        \<lparr>ei_Name = [], ei_URL = [], ei_Secret = [], ei_Active = None, ei_MaxAttempts = 5, ei_BaseDelay = 5, ei_Rate = 10\<rparr> =
      Some \<lparr>ei_Name = n, ei_URL = url, ei_Secret = secret, ei_Active = None, ei_MaxAttempts = 5, ei_BaseDelay = 1, ei_Rate = 10\<rparr>"
      by (simp add: endpoint_names_def put_endpoint_def field_of_def text_field_def int_field_def one(1))
  qed (simp_all add: assms(2,3) b)
qed

section \<open>The calls of Bootstrap\<close>

lemma read_answer_ok: "read_answer nl (answer_of rsp) = Inr m \<Longrightarrow> rsp_status rsp < 300"
  by (auto simp: read_answer_def answer_of_def Let_def split: if_splits)

lemma api_ok:
  assumes "Handler sv i m files r w = (w', rsp)" and "rsp_status rsp < 300"
    and rt: "serve sv i m files (route_of (r_Method r) (r_Path r)) = auth sv i h"
  obtains rid u rsp0 where "h (r\<lparr>r_request := rid, r_user := u\<rparr>) w = (w', rsp0)" "rsp_status rsp0 = rsp_status rsp" "rsp_body rsp0 = rsp_body rsp"
proof -
  from assms(1,2) obtain rid rsp0 where 0: "auth sv i h (r\<lparr>r_request := rid\<rparr>) w = (w', rsp0)"
    "rsp_status rsp0 = rsp_status rsp" "rsp_body rsp0 = rsp_body rsp"
    unfolding Handler_def by (elim middleware_ok) (auto simp: rt)
  from auth_ok [OF 0(1)] 0 assms(2) that show ?thesis by auto
qed


lemma demo_chars: "\<forall>c \<in> set ''prj_''. plain c \<and> c \<noteq> CHR ''/''" "\<forall>c \<in> set ''key_''. plain c \<and> c \<noteq> CHR ''/''"
    "\<forall>c \<in> set ''pr_live_''. plain c \<and> c \<noteq> CHR ''/''"
    "\<forall>c \<in> set ''id''. plain c" "\<forall>c \<in> set ''name''. plain c" "\<forall>c \<in> set ''key''. plain c" "\<forall>c \<in> set ''prefix''. plain c"
    "\<forall>c \<in> set ''Synthetic operations''. plain c" "\<forall>c \<in> set ''Synthetic seed''. plain c"
  by (simp_all add: plain_def escape_byte_def)

lemma join_bound: "\<forall>x \<in> set xs. length x \<le> k \<Longrightarrow> length (join [s] xs) \<le> (k + 1) * length xs"
  by (induction "[s]" xs rule: join.induct) auto

lemma map_put_length: "length (map_put k v m) \<le> length m + 1"
  by (induction k v m rule: map_put.induct) auto

lemma go_map_length: "length (go_map ms) \<le> length ms"
proof (induction ms rule: rev_induct)
  case (snoc m ms)
  then show ?case using map_put_length [of "fst m" "snd m" "go_map ms"] go_map_snoc [of ms "fst m" "snd m"] by simp
qed (simp add: go_map_def)

lemma str_obj_length:
  assumes "\<forall>m \<in> set ms. length (fst m) \<le> 200 \<and> length (snd m) \<le> 200" and "length ms \<le> 100"
  shows "length (json_print (str_obj ms)) < max_reply"
proof -
  define M where "M = go_map (map (\<lambda>(k, v). (k, JStr v)) ms)"
  have "set M \<subseteq> (\<lambda>(k, v). (k, JStr v)) ` set ms" using set_go_map [of "map (\<lambda>(k, v). (k, JStr v)) ms"] by (simp add: M_def)
  have "length (print_member m) \<le> 2500" if "m \<in> set M" for m
  proof -
    from that \<open>set M \<subseteq> _\<close> obtain k v where "(k, v) \<in> set ms" "m = (k, JStr v)" by auto
    with assms(1) print_string_length [of k] print_string_length [of v] show ?thesis by fastforce
  qed
  then have "length (join '','' (map print_member M)) \<le> 2501 * length M"
    using join_bound [of "map print_member M" 2500] by simp
  moreover have "length M \<le> 100" using go_map_length [of "map (\<lambda>(k, v). (k, JStr v)) ms"] assms(2) by (simp add: M_def)
  ultimately show ?thesis by (simp add: str_obj_def max_reply_def flip: M_def)
qed

lemma read_created:
  assumes "read_answer nl (answer_of rsp) = Inr m" and "rsp_status rsp0 = rsp_status rsp" "rsp_body rsp0 = rsp_body rsp"
    and "rsp0 = write_json 201 (str_obj ms)"
    and ms: "\<forall>m \<in> set ms. utf8 (fst m) \<and> utf8 (snd m) \<and> length (fst m) \<le> 200 \<and> length (snd m) \<le> 200" "length ms \<le> 100"
  shows "text_of m k = map_of (rev ms) k"
proof -
  have "rsp_status rsp0 = 201" "rsp_body rsp0 = Some (str_obj ms)" using assms(4) by (simp_all add: write_json_def)
  then have "rsp_status rsp = 201" "rsp_body rsp = Some (str_obj ms)" using assms(2,3) by simp_all
  then have "answer_of rsp = Answer 201 (json_print (str_obj ms) @ [CHR 0x0A]) False"
    by (simp add: answer_of_def del: json_print.simps)
  moreover have "length (json_print (str_obj ms)) < max_reply" using str_obj_length ms by blast
  ultimately have "m = go_map (map (\<lambda>(k, v). (k, JStr v)) ms)"
    using assms(1) ms(1) read_strings [of ms 201 nl] by simp
  then show ?thesis by (simp only: text_of_strings)
qed

lemma project_call:
  assumes call: "Call nl (serve_call sv ios files (dc_Base c) host addr) c ''POST'' ''/api/projects'' [] (name_body ''Synthetic operations'') st = (st', Inr m)"
    and rand: "\<And>i k. length (io_rand (ios i) k) \<le> 64"
  shows "\<exists>pid. text_of m ''id'' = Some pid \<and> clean_segment pid \<and> CHR ''/'' \<notin> set pid \<and> (\<exists>p \<in> set (projects (w_db (st_world st'))). p_id p = pid)"
proof -
  obtain b where b: "name_body ''Synthetic operations'' = Some b" by (simp add: name_body_def obj_def)
  let ?i = "ios (st_count st)"
  let ?r = "site_request (dc_Base c) host addr (st_jar st) (http_call_of c ''POST'' ''/api/projects'' [] b)"
  let ?pid = "new_token ?i 1 ''prj_''"
  obtain w' rsp where h: "Handler sv ?i (\<lambda>s. s) files ?r (st_world st) = (w', rsp)" "st_world st' = w'" "read_answer nl (answer_of rsp) = Inr m"
    using Call_site [OF call [unfolded b]] by blast
  have rt: "serve sv ?i (\<lambda>s. s) files (route_of (r_Method ?r) (r_Path ?r)) = auth sv ?i (createProject sv ?i)"
    by (simp add: site_request_def http_call_of_def path_projects demo_routes serve_def)
  obtain rid u rsp0 where c: "createProject sv ?i (?r\<lparr>r_request := rid, r_user := u\<rparr>) (st_world st) = (w', rsp0)"
    "rsp_status rsp0 = rsp_status rsp" "rsp_body rsp0 = rsp_body rsp"
    by (rule api_ok [OF h(1) read_answer_ok [OF h(3)] rt]) blast
  have "decode (?r\<lparr>r_request := rid, r_user := u\<rparr>) [''name''] put_named \<lparr>n_Name = []\<rparr> = Inr \<lparr>n_Name = ''Synthetic operations''\<rparr>"
    by (rule name_decoded [OF b]) (simp_all add: site_request_def http_call_of_def plain_utf8 [OF demo_chars(8)])
  with createProject_ok [OF c(1)] c(2) read_answer_ok [OF h(3)]
  have rsp: "rsp0 = write_json 201 (str_obj [(''id'', ?pid), (''name'', ''Synthetic operations'')])"
    and db: "\<exists>p \<in> set (projects (w_db w')). p_id p = ?pid" by auto
  note tok = token_plain [OF demo_chars(1), of ?i 1]
  have "text_of m ''id'' = map_of (rev [(''id'', ?pid), (''name'', ''Synthetic operations'')]) ''id''"
    by (rule read_created [OF h(3) c(2,3) rsp])
      (use tok(3) rand [of "st_count st" 1] in \<open>simp_all add: plain_utf8 [OF demo_chars(4)] plain_utf8 [OF demo_chars(5)]
        plain_utf8 [OF demo_chars(8)] plain_utf8 [OF tok(1)] del: One_nat_def\<close>)
  then have "text_of m ''id'' = Some ?pid" by simp
  moreover have "clean_segment ?pid" by (simp add: new_token_def Token_def clean_segment_def)
  ultimately show ?thesis using tok(2) db h(2) by blast
qed

lemma key_call:
  assumes call: "Call nl (serve_call sv ios files (dc_Base c) host addr) c ''POST'' (''/api/projects/'' @ pid @ ''/api-keys'') []
      (name_body ''Synthetic seed'') st = (st', Inr m)"
    and rand: "\<And>i k. length (io_rand (ios i) k) \<le> 64" and pid: "clean_segment pid" "CHR ''/'' \<notin> set pid"
  shows "grows (w_db (st_world st)) (w_db (st_world st')) \<and>
    (\<exists>key k. text_of m ''key'' = Some key \<and> live_key (w_db (st_world st')) (Hash (sv_cr sv) key) = Some k \<and> k_project_id k = pid)"
proof -
  obtain b where b: "name_body ''Synthetic seed'' = Some b" by (simp add: name_body_def obj_def)
  let ?i = "ios (st_count st)"
  let ?r = "site_request (dc_Base c) host addr (st_jar st) (http_call_of c ''POST'' (''/api/projects/'' @ pid @ ''/api-keys'') [] b)"
  let ?kid = "new_token ?i 1 ''key_''" and ?key = "new_token ?i 2 ''pr_live_''"
  let ?o = "[(''id'', ?kid), (''key'', ?key), (''prefix'', take 16 ?key)]"
  obtain w' rsp where h: "Handler sv ?i (\<lambda>s. s) files ?r (st_world st) = (w', rsp)" "st_world st' = w'" "read_answer nl (answer_of rsp) = Inr m"
    using Call_site [OF call [unfolded b]] by blast
  have rt: "serve sv ?i (\<lambda>s. s) files (route_of (r_Method ?r) (r_Path ?r)) = auth sv ?i (with_id pid (createKey sv ?i))"
    using path_below_project(2) [OF pid(2), of "dc_Base c"] demo_routes(3) [OF pid(1)]
    by (simp add: site_request_def http_call_of_def serve_def)
  obtain rid u rsp0 where c: "createKey sv ?i (?r\<lparr>r_request := rid, r_user := u, r_ID := pid\<rparr>) (st_world st) = (w', rsp0)"
    "rsp_status rsp0 = rsp_status rsp" "rsp_body rsp0 = rsp_body rsp"
    by (rule api_ok [OF h(1) read_answer_ok [OF h(3)] rt]) (simp add: with_id_def)
  have "decode (?r\<lparr>r_request := rid, r_user := u, r_ID := pid\<rparr>) [''name''] put_named \<lparr>n_Name = []\<rparr> = Inr \<lparr>n_Name = ''Synthetic seed''\<rparr>"
    by (rule name_decoded [OF b]) (simp_all add: site_request_def http_call_of_def plain_utf8 [OF demo_chars(9)])
  with createKey_ok [OF c(1)] c(2) read_answer_ok [OF h(3)]
  have rsp: "rsp0 = write_json 201 (str_obj ?o)" and db: "grows (w_db (st_world st)) (w_db w')"
    "\<exists>k. live_key (w_db w') (Hash (sv_cr sv) ?key) = Some k \<and> k_project_id k = pid" by auto
  note kid = token_plain [OF demo_chars(2), of ?i 1] and key = token_plain [OF demo_chars(3), of ?i 2]
  have pre: "\<forall>c \<in> set (take 16 ?key). plain c" using key(1) by (meson in_set_takeD)
  have "text_of m ''key'' = map_of (rev ?o) ''key''"
    by (rule read_created [OF h(3) c(2,3) rsp])
      (use kid(3) key(3) rand [of "st_count st" 1] rand [of "st_count st" 2] in
        \<open>simp_all add: plain_utf8 [OF demo_chars(4)] plain_utf8 [OF demo_chars(6)] plain_utf8 [OF demo_chars(7)]
          plain_utf8 [OF kid(1)] plain_utf8 [OF key(1)] plain_utf8 [OF pre] del: One_nat_def\<close>)
  then have "text_of m ''key'' = Some ?key" by simp
  with db h(2) show ?thesis by blast
qed


text \<open>The row of an endpoint the client asked for; its cipher is an encryption of the secret the receiver holds.\<close>

definition demo_endpoint :: "server \<Rightarrow> string \<Rightarrow> string \<Rightarrow> string \<Rightarrow> string \<Rightarrow> endpoint_row \<Rightarrow> bool" where
  "demo_endpoint sv pid n url secret e \<longleftrightarrow> ep_project_id e = pid \<and> ep_name e = n \<and> ep_url e = url \<and> ep_active e \<and>
     ep_deleted_at e = None \<and> ep_base_delay_seconds e = 1 \<and>
     (\<exists>rnd. Encrypt (sv_cr sv) (c_EncryptionKey (sv_Config sv)) rnd secret = Inr (ep_secret_cipher e))"

lemma endpoint_call:
  assumes call: "Call nl (serve_call sv ios files (dc_Base c) host addr) c ''POST'' (''/api/projects/'' @ pid @ ''/endpoints'') []
      (endpoint_body n url secret) st = (st', Inr m)"
    and pid: "clean_segment pid" "CHR ''/'' \<notin> set pid" and utf: "utf8 n" "utf8 url" "utf8 secret"
    and len: "length n \<le> 1000" "length url \<le> 10000" "length secret \<le> 10000" "secret \<noteq> []"
  shows "grows (w_db (st_world st)) (w_db (st_world st')) \<and> (\<exists>e \<in> set (endpoints (w_db (st_world st'))). demo_endpoint sv pid n url secret e)"
proof -
  obtain b where b: "endpoint_body n url secret = Some b" by (simp add: endpoint_body_def obj_def)
  let ?i = "ios (st_count st)"
  let ?r = "site_request (dc_Base c) host addr (st_jar st) (http_call_of c ''POST'' (''/api/projects/'' @ pid @ ''/endpoints'') [] b)"
  obtain w' rsp where h: "Handler sv ?i (\<lambda>s. s) files ?r (st_world st) = (w', rsp)" "st_world st' = w'" "read_answer nl (answer_of rsp) = Inr m"
    using Call_site [OF call [unfolded b]] by blast
  have rt: "serve sv ?i (\<lambda>s. s) files (route_of (r_Method ?r) (r_Path ?r)) = auth sv ?i (with_id pid (createEndpoint sv ?i))"
    using path_below_project(1) [OF pid(2), of "dc_Base c"] demo_routes(2) [OF pid(1)]
    by (simp add: site_request_def http_call_of_def serve_def)
  obtain rid u rsp0 where c: "createEndpoint sv ?i (?r\<lparr>r_request := rid, r_user := u, r_ID := pid\<rparr>) (st_world st) = (w', rsp0)"
    "rsp_status rsp0 = rsp_status rsp" "rsp_body rsp0 = rsp_body rsp"
    by (rule api_ok [OF h(1) read_answer_ok [OF h(3)] rt]) (simp add: with_id_def)
  have "decode (?r\<lparr>r_request := rid, r_user := u, r_ID := pid\<rparr>) endpoint_names put_endpoint
      \<lparr>ei_Name = [], ei_URL = [], ei_Secret = [], ei_Active = None, ei_MaxAttempts = 5, ei_BaseDelay = 5, ei_Rate = 10\<rparr> =
    Inr \<lparr>ei_Name = n, ei_URL = url, ei_Secret = secret, ei_Active = None, ei_MaxAttempts = 5, ei_BaseDelay = 1, ei_Rate = 10\<rparr>"
    by (rule endpoint_decoded [OF b _ _ utf len(1-3)]) (simp_all add: site_request_def http_call_of_def)
  with createEndpoint_ok [OF c(1)] c(2) read_answer_ok [OF h(3)] len(4) h(2) show ?thesis
    by (auto simp: demo_endpoint_def)
qed

lemma add_endpoints_ok:
  assumes "add_endpoints nl (serve_call sv ios files (dc_Base c) host addr) c pid endpoint secret items st = (st', Inr u)"
    and "clean_segment pid" "CHR ''/'' \<notin> set pid" and "utf8 endpoint" "utf8 secret" "length endpoint \<le> 9000" "length secret \<le> 10000" "secret \<noteq> []"
    and "\<forall>x \<in> set items. utf8 (fst x) \<and> utf8 (snd x) \<and> length (fst x) \<le> 1000 \<and> length (snd x) \<le> 1000"
  shows "grows (w_db (st_world st)) (w_db (st_world st')) \<and>
    (\<forall>x \<in> set items. \<exists>e \<in> set (endpoints (w_db (st_world st'))). demo_endpoint sv pid (fst x) (endpoint @ snd x) secret e)"
  using assms
proof (induction items arbitrary: st)
  case (Cons x items)
  obtain n suf where x: "x = (n, suf)" by (cases x)
  obtain st1 m where c: "Call nl (serve_call sv ios files (dc_Base c) host addr) c ''POST'' (''/api/projects/'' @ pid @ ''/endpoints'') []
      (endpoint_body n (endpoint @ suf) secret) st = (st1, Inr m)"
    and rest: "add_endpoints nl (serve_call sv ios files (dc_Base c) host addr) c pid endpoint secret items st1 = (st', Inr u)"
    using Cons.prems(1) by (auto simp: x split: prod.splits sum.splits)
  have "grows (w_db (st_world st)) (w_db (st_world st1)) \<and>
      (\<exists>e \<in> set (endpoints (w_db (st_world st1))). demo_endpoint sv pid n (endpoint @ suf) secret e)"
    by (rule endpoint_call [OF c]) (use Cons.prems x in \<open>auto intro: utf8_append\<close>)
  with Cons.IH [OF rest] Cons.prems x show ?case by (auto simp: grows_def)
qed simp

end
