(* ===== verification/Demo_Events.thy ===== *)
theory Demo_Events
  imports Demo_Setup
begin

text \<open>
  One post of the load test against the modelled server, end to end: from the marshalled body over routing, key, limiter, decoding,
  validation and the ingestion transaction to the client's reading of the reply.
\<close>

definition load_input :: "int \<Rightarrow> int \<Rightarrow> input" where
  "load_input run j =
     event_input (load_event_id run j) ''order.created'' [(''synthetic'', JBool True), (''sequence'', JNum (FormatInt j))]"

lemma load_input_decoded:
  assumes "int64_range t" "int64_range j" and "load_body t j = Some b" and "r_Body r = json_print b" "\<not> r_BodyErr r"
  shows "decode r input_names put_input no_input = Inr (load_input t j)" and "Validate (load_input t j) = Inr ()"
proof -
  have "valid_identifier ''order.created''"
    by (simp add: valid_identifier_def identifier_head_def identifier_tail_def between_def)
  moreover have "valid_identifier (load_event_id t j)" unfolding load_event_id_def by (rule stamped_valid) (use assms in auto)
  ultimately show "decode r input_names put_input no_input = Inr (load_input t j)" "Validate (load_input t j) = Inr ()"
    using event_decoded [OF assms(3) [unfolded load_body_def] assms(4,5)] event_data_ok [OF assms(2) refl, of "[]"]
    by (simp_all add: load_input_def)
qed

lemma load_input_id [simp]: "i_EventID (load_input t j) = load_event_id t j"
  by (simp add: load_input_def event_input_def)

lemma path_events: "path_of base (base @ ''/v1/events'') = [''v1'', ''events'']"
  by (simp add: path_of_def)

text \<open>The server's side of a post whose key is live and which the limiter lets through.\<close>

lemma Handler_ingest:
  assumes "r_Method r = ''POST''" "r_Path r = [''v1'', ''events'']" "r_Header r ''Origin'' = []" "r_Header r ''Sec-Fetch-Site'' = []"
    and "r_Header r ''Authorization'' = ''Bearer '' @ key"
    and "live_key (w_db w) (Hash (sv_cr sv) key) = Some k" and "io_db i = all_done" "io_redis i = all_done"
    and "Allow (io_redis_now i) Done (''ingest:'' @ k_id k) 50 100 (w_limits w) = (ls, Inr True)"
    and dec: "\<And>rid. decode (r\<lparr>r_request := rid\<rparr>) input_names put_input no_input = Inr v"
    and ing: "\<And>rid. ingest_event sv i (k_project_id k) v (r\<lparr>r_request := rid\<rparr>) (w\<lparr>w_limits := ls\<rparr>) = (w', rsp)"
  shows "\<exists>hs. Handler sv i m files r w = (w', rsp\<lparr>rsp_headers := hs\<rparr>)"
proof -
  have t: "trim_prefix (r_Header r ''Authorization'') ''Bearer '' = key" by (simp only: assms(5) trim_prefix_append)
  have "ingest sv i (r\<lparr>r_request := rid\<rparr>) w = (w', rsp)" for rid
    using assms(6-9) dec [of rid] ing [of rid]
    by (simp add: ingest_def Let_def t of_option_def no_input_def del: append.append_Cons)
  moreover have "route_of ''POST'' [''v1'', ''events''] = Ingest" by (simp add: route_of_def post_route_def moved_def clean_segment_def)
  moreover have "\<not> contains [] ''cross-site''" by simp
  ultimately show ?thesis using assms(1-4)
    by (simp add: Handler_def middleware_def Let_def serve_def) (rule exI, rule refl)
qed

lemma post_answered:
  assumes base: "nl_parses nl (dc_Base c @ ''/v1/events'')" and key: "key \<noteq> []"
    and live: "live_key (w_db (st_world st)) (Hash (sv_cr sv) key) = Some k" and i: "i = ios (st_count st)"
    and up: "io_db i = all_done" "io_redis i = all_done"
    and allow: "Allow (io_redis_now i) Done (''ingest:'' @ k_id k) 50 100 (w_limits (st_world st)) = (ls, Inr True)"
    and body: "load_body t j = Some b" "int64_range t" "int64_range j"
    and ing: "\<And>r. ingest_event sv i (k_project_id k) (load_input t j) r ((st_world st)\<lparr>w_limits := ls\<rparr>) =
      (w', write_json status (accepted eid dup))" "status < 300"
    and eid: "utf8 eid" "length eid \<le> 1000"
  shows "\<exists>st'. Call nl (serve_call sv ios files (dc_Base c) host addr) c ''POST'' ''/v1/events'' key (load_body t j) st =
      (st', Inr (go_map [(''id'', JStr eid), (''duplicate'', JBool dup)])) \<and> st_world st' = w' \<and> st_count st' = st_count st + 1"
proof -
  let ?r = "site_request (dc_Base c) host addr (st_jar st) (http_call_of c ''POST'' ''/v1/events'' key b)"
  have "\<exists>hs. Handler sv i (\<lambda>s. s) files ?r (st_world st) = (w', (write_json status (accepted eid dup))\<lparr>rsp_headers := hs\<rparr>)"
  proof (rule Handler_ingest [OF _ _ _ _ _ live up allow, where v = "load_input t j"])
    show "decode (?r\<lparr>r_request := rid\<rparr>) input_names put_input no_input = Inr (load_input t j)" for rid
      by (rule load_input_decoded [OF body(2,3,1)]) (simp_all add: site_request_def http_call_of_def)
  qed (simp_all add: site_request_def http_call_of_def path_events call_headers_def key ing)
  then obtain hs where h: "Handler sv i (\<lambda>s. s) files ?r (st_world st) = (w', (write_json status (accepted eid dup))\<lparr>rsp_headers := hs\<rparr>)"
    by blast
  have fl: "flat [(''id'', JStr eid), (''duplicate'', JBool dup)]"
    using eid(1) plain_utf8 [OF demo_chars(4)] by (auto simp: flat_def intro!: utf8_ascii)
  have dup: "\<forall>c \<in> set ''duplicate''. plain c" by (simp add: plain_def escape_byte_def)
  have "length (json_print (any_obj [(''id'', JStr eid), (''duplicate'', JBool dup)])) < max_reply"
    using eid(2) print_string_length [of eid]
    by (simp add: any_obj_def go_map_def print_string_plain [OF demo_chars(4)] print_string_plain [OF dup] max_reply_def)
  from read_flat [OF fl ing(2) this] show ?thesis
    unfolding Call_def serve_call_def body(1) i [symmetric]
    using base h by (simp add: http_call_of_def answer_of_def write_json_def accepted_def del: json_print.simps)
qed


lemma existing_stored:
  assumes "existing_event s prj (i_EventID v) = None"
  shows "existing_event (store_event sv i prj v stored hash s) prj (i_EventID v) =
    Some (event_of (new_token i 1 ''evt_'') prj v stored hash (io_now i))"
  using assms find_snoc [of "events s" "\<lambda>e. ev_project_id e = prj \<and> ev_event_id e = i_EventID v"]
  by (simp add: existing_event_def find_None_iff store_event_rows event_of_def)

text \<open>
  C17: a post can be repeated. While the server's calls succeed, a post of a new event is answered with the identifier of an
  event that is then stored with its fan-out; and posting the same event again, as a client does that lost the
  first answer, is answered with the same identifier, marked as a duplicate, and leaves the database as it was.
\<close>

theorem post_repeatable:
  fixes st :: site and ios :: "nat \<Rightarrow> io" and nl :: net_lib and sv :: server and files :: "request \<Rightarrow> response"
    and c :: client and host addr key :: string and t j :: int
  defines "w \<equiv> st_world st" and "i \<equiv> ios (st_count st)" and "v \<equiv> load_input t j"
    and "post \<equiv> Call nl (serve_call sv ios files (dc_Base c) host addr) c ''POST'' ''/v1/events'' key (load_body t j)"
  assumes base: "nl_parses nl (dc_Base c @ ''/v1/events'')" and key: "key \<noteq> []" "live_key (w_db w) (Hash (sv_cr sv) key) = Some k"
    and range: "int64_range t" "int64_range j"
    and db: "db_wf (w_db w)" "fresh_ids sv i (k_project_id k) (w_db w)" "existing_event (w_db w) (k_project_id k) (load_event_id t j) = None"
    and can: "Canonical (sv_cr sv) v = Some (payload, hash)" "pg_jsonb (sv_pg sv) payload = Some stored"
    and up: "\<And>n. io_db (ios n) = all_done" "\<And>n. io_redis (ios n) = all_done" and rand: "length (io_rand i 1) \<le> 64"
    and allow: "Allow (io_redis_now i) Done (''ingest:'' @ k_id k) 50 100 (w_limits w) = (ls, Inr True)"
      "Allow (io_redis_now (ios (st_count st + 1))) Done (''ingest:'' @ k_id k) 50 100 ls = (ls', Inr True)"
  shows "\<exists>st1 st2. post st = (st1, Inr (go_map [(''id'', JStr (new_token i 1 ''evt_'')), (''duplicate'', JBool False)])) \<and>
    w_db (st_world st1) = store_event sv i (k_project_id k) v stored hash (w_db w) \<and>
    post st1 = (st2, Inr (go_map [(''id'', JStr (new_token i 1 ''evt_'')), (''duplicate'', JBool True)])) \<and>
    w_db (st_world st2) = w_db (st_world st1)"
proof -
  obtain b where b: "load_body t j = Some b" by (simp add: load_body_def event_body_def obj_def)
  let ?prj = "k_project_id k" and ?eid = "new_token i 1 ''evt_''" and ?w1 = "w\<lparr>w_limits := ls\<rparr>"
  let ?s1 = "store_event sv i ?prj v stored hash (w_db w)"
  have valid: "Validate v = Inr ()"
    using load_input_decoded(2) [OF range b, of "sample_request\<lparr>r_Body := json_print b\<rparr>"] by (simp add: v_def sample_request_def)
  have "k \<in> set (api_keys (w_db w))" using key(2) by (auto simp: live_key_def find_Some_iff)
  then have prj: "?prj \<in> p_id ` set (projects (w_db w))" using db(1) by (auto simp: db_wf_def wf_defs)
  have evt: "\<forall>c \<in> set ''evt_''. plain c \<and> c \<noteq> CHR ''/''" by (simp add: plain_def escape_byte_def)
  have eid: "utf8 ?eid" "length ?eid \<le> 1000"
    using plain_utf8 [OF token_plain(1) [OF evt]] token_plain(3) [OF evt, of i 1] rand by simp_all
  have id: "i_EventID v = load_event_id t j" by (simp add: v_def)
  have first: "ingest_event sv i ?prj v r ?w1 = (?w1\<lparr>w_db := ?s1\<rparr>, write_json 202 (accepted ?eid False))" for r
    using ingest_event_answers [of ?w1 sv i ?prj v payload hash stored r] db prj valid can up
    by (simp add: i_def id)
  have "\<exists>st'. Call nl (serve_call sv ios files (dc_Base c) host addr) c ''POST'' ''/v1/events'' key (load_body t j) st =
      (st', Inr (go_map [(''id'', JStr ?eid), (''duplicate'', JBool False)])) \<and> st_world st' = ?w1\<lparr>w_db := ?s1\<rparr> \<and>
      st_count st' = st_count st + 1"
    by (rule post_answered [where i = i and k = k and ls = ls and b = b and status = 202, OF base key(1)])
      (use key(2) allow(1) up b range first eid in \<open>simp_all add: v_def w_def i_def\<close>)
  then obtain st1 where st1: "post st = (st1, Inr (go_map [(''id'', JStr ?eid), (''duplicate'', JBool False)]))"
    "st_world st1 = ?w1\<lparr>w_db := ?s1\<rparr>" "st_count st1 = st_count st + 1"
    unfolding post_def by blast
  let ?i' = "ios (st_count st1)" and ?w2 = "(st_world st1)\<lparr>w_limits := ls'\<rparr>"
  have live: "live_key (w_db (st_world st1)) (Hash (sv_cr sv) key) = Some k"
    using key(2) by (simp add: st1(2) live_key_def store_event_rows)
  have "existing_event ?s1 ?prj (i_EventID v) = Some (event_of ?eid ?prj v stored hash (io_now i))"
    by (rule existing_stored) (simp add: id db(3))
  then have second: "ingest_event sv ?i' ?prj v r ?w2 = (?w2, write_json 200 (accepted ?eid True))" for r
    using ingest_tx_old [of ?s1 ?prj v _ ?i' sv payload stored r "new_token ?i' 1 ''evt_''" hash] valid can up
    by (simp add: ingest_event_def run_tx_def collapse_def st1(2) event_of_def)
  have "\<exists>st'. Call nl (serve_call sv ios files (dc_Base c) host addr) c ''POST'' ''/v1/events'' key (load_body t j) st1 =
      (st', Inr (go_map [(''id'', JStr ?eid), (''duplicate'', JBool True)])) \<and> st_world st' = ?w2 \<and> st_count st' = st_count st1 + 1"
    by (rule post_answered [where i = "?i'" and k = k and ls = ls' and b = b and status = 200, OF base key(1) live])
      (use allow(2) up b range second [unfolded v_def] eid in \<open>simp_all add: st1(2,3)\<close>)
  then obtain st2 where "post st1 = (st2, Inr (go_map [(''id'', JStr ?eid), (''duplicate'', JBool True)]))" "st_world st2 = ?w2"
    unfolding post_def by blast
  with st1 show ?thesis by (intro exI [of _ st1] exI [of _ st2]) simp
qed


definition demo_key :: api_key_row where
  "demo_key = \<lparr>k_id = ''key_2'', k_project_id = ''prj_1'', k_name = ''demo'', k_key_hash = Hash sample_crypto ''pr_live_k'',
     k_prefix = ''pr_live_k'', k_revoked_at = None, k_created_at = 4\<rparr>"

definition demo_site :: site where
  "demo_site = \<lparr>st_world = sample_world\<lparr>w_db := sample_db\<lparr>api_keys := api_keys sample_db @ [demo_key]\<rparr>\<rparr>, st_jar = None, st_count = 0\<rparr>"

definition any_url :: net_lib where
  "any_url = \<lparr>nl_parses = (\<lambda>_. True), nl_float64 = (\<lambda>_. True)\<rparr>"

lemma demo_site_db: "db_wf (w_db (st_world demo_site))"
proof -
  have "insert_api_key demo_key sample_db = Inr (w_db (st_world demo_site))" by code_simp
  from insert_api_key_wf [OF sample_db_wf this] show ?thesis .
qed

lemma demo_site_key: "live_key (w_db (st_world demo_site)) (Hash (sv_cr sample_server) ''pr_live_k'') = Some demo_key"
  by code_simp

lemma demo_allow:
  "\<exists>ls ls'. Allow (io_redis_now sample_io) Done x 50 100 (w_limits (st_world demo_site)) = (ls, Inr True) \<and>
     Allow (io_redis_now sample_io) Done x 50 100 ls = (ls', Inr True)"
  by (simp add: Allow_def bucket_script_def live_bucket_def refill_def bucket_ttl_def apply_out_def Let_def sample_io_def demo_site_def
      sample_world_def)

lemma demo_fresh: "fresh_ids sample_server sample_io (k_project_id demo_key) (w_db (st_world demo_site))"
  by code_simp

lemma demo_new: "existing_event (w_db (st_world demo_site)) (k_project_id demo_key) (load_event_id 7 0) = None"
  by (simp add: existing_event_def demo_site_def sample_world_def sample_db_def sample_event_def load_event_id_def)

lemma demo_canonical: "\<exists>payload hash. Canonical (sv_cr sample_server) (load_input 7 0) = Some (payload, hash)"
proof -
  obtain b where b: "load_body 7 0 = Some b" by (simp add: load_body_def event_body_def obj_def)
  have "Validate (load_input 7 0) = Inr ()"
    using load_input_decoded(2) [OF _ _ b, of "sample_request\<lparr>r_Body := json_print b\<rparr>"] by (simp add: sample_request_def int64_range_def)
  then show ?thesis using Validate_Canonical by blast
qed

definition demo_post :: "site \<Rightarrow> site \<times> (call_error + reply_map)" where
  "demo_post = Call any_url (serve_call sample_server (\<lambda>_. sample_io) (\<lambda>_. write_header 404) (dc_Base (democlient_New ''http://x'')) ''x'' ''1.2.3.4:5'')
     (democlient_New ''http://x'') ''POST'' ''/v1/events'' ''pr_live_k'' (load_body 7 0)"

theorem post_repeatable_witness:
  "\<exists>st1 st2 m1 m2. demo_post demo_site = (st1, Inr m1) \<and> demo_post st1 = (st2, Inr m2) \<and>
    length (events (w_db (st_world demo_site))) = 1 \<and> length (events (w_db (st_world st2))) = 2"
proof -
  obtain payload hash where can: "Canonical (sv_cr sample_server) (load_input 7 0) = Some (payload, hash)" using demo_canonical by blast
  obtain ls ls' where al: "Allow (io_redis_now sample_io) Done (''ingest:'' @ k_id demo_key) 50 100 (w_limits (st_world demo_site)) = (ls, Inr True)"
    "Allow (io_redis_now sample_io) Done (''ingest:'' @ k_id demo_key) 50 100 ls = (ls', Inr True)" using demo_allow by blast
  have "pg_jsonb (sv_pg sample_server) payload = Some payload" by (simp add: sample_server_def sample_pg_def)
  note post_repeatable [where st = demo_site and ios = "\<lambda>_. sample_io" and c = "democlient_New ''http://x''" and nl = any_url
      and files = "\<lambda>_. write_header 404" and host = "''x''" and addr = "''1.2.3.4:5''",
      OF _ _ demo_site_key _ _ demo_site_db demo_fresh demo_new can this _ _ _ al, folded demo_post_def]
  then obtain st1 st2 m1 m2 where "demo_post demo_site = (st1, Inr m1)" "demo_post st1 = (st2, Inr m2)"
    "w_db (st_world st2) = store_event sample_server sample_io (k_project_id demo_key) (load_input 7 0) payload hash (w_db (st_world demo_site))"
    by (auto simp: any_url_def int64_range_def sample_io_def)
  then show ?thesis by (simp add: store_event_rows demo_site_def sample_world_def sample_db_def)
qed

end
