(* ===== verification/Demo_Run.thy ===== *)
theory Demo_Run
  imports Demo_Events
begin

text \<open>A complete run of \<open>Bootstrap\<close> against a small server: it registers, and ends with a project and a key.\<close>

section \<open>What a successful request does\<close>

lemma Call_runs:
  assumes "nl_parses nl (dc_Base c @ path)"
    and "Handler sv (ios (st_count st)) (\<lambda>s. s) files (site_request (dc_Base c) host addr (st_jar st) (http_call_of c ''POST'' path key b)) (st_world st) = (w', rsp)"
    and "rsp_status rsp < 300" "rsp_body rsp = Some (str_obj ms)"
    and ms: "\<forall>m \<in> set ms. utf8 (fst m) \<and> utf8 (snd m) \<and> length (fst m) \<le> 200 \<and> length (snd m) \<le> 200" "length ms \<le> 100"
  shows "Call nl (serve_call sv ios files (dc_Base c) host addr) c ''POST'' path key (Some b) st =
    (\<lparr>st_world = w', st_jar = kept_cookie (rsp_cookie rsp) (st_jar st), st_count = st_count st + 1\<rparr>,
     Inr (go_map (map (\<lambda>(k, v). (k, JStr v)) ms)))"
proof -
  have "length (json_print (str_obj ms)) < max_reply" using str_obj_length ms by blast
  moreover have "answer_of rsp = Answer (rsp_status rsp) (json_print (str_obj ms) @ [CHR 0x0A]) False"
    by (simp add: answer_of_def assms(4) del: json_print.simps)
  ultimately have "read_answer nl (answer_of rsp) = Inr (go_map (map (\<lambda>(k, v). (k, JStr v)) ms))"
    using read_strings [of ms "rsp_status rsp" nl] ms(1) assms(3) by simp
  with assms(1,2) show ?thesis by (simp add: Call_def serve_call_def)
qed

lemma middleware_runs:
  assumes "r_Header r ''Origin'' = []" "r_Header r ''Sec-Fetch-Site'' = []"
    and "\<And>rid. h (r\<lparr>r_request := rid\<rparr>) w = (w', rsp)"
  shows "\<exists>hs. middleware sv i h r w = (w', rsp\<lparr>rsp_headers := hs\<rparr>)"
proof -
  have "\<not> contains [] ''cross-site''" by simp
  with assms show ?thesis by (simp add: middleware_def Let_def) (rule exI, rule refl)
qed

lemma auth_runs:
  assumes "r_Cookie r ''pulseroute_session'' = Some t" and "io_db i = all_done"
    and "live_session (io_now i) (w_db w) (Hash (sv_cr sv) t) = Some x"
  shows "auth sv i h r w = h (r\<lparr>r_user := s_user_id x\<rparr>) w"
  using assms by (simp add: auth_def query_def of_option_def)

lemma api_call_runs:
  assumes url: "nl_parses nl (dc_Base c @ path)" "has_prefix (dc_Base c) ''https:''"
    and st: "st_jar st = Some (t, sec)" "live_session (io_now (ios (st_count st))) (w_db (st_world st)) (Hash (sv_cr sv) t) = Some x"
      "io_db (ios (st_count st)) = all_done"
    and rt: "serve sv (ios (st_count st)) (\<lambda>s. s) files (route_of ''POST'' (path_of (dc_Base c) (dc_Base c @ path))) =
      auth sv (ios (st_count st)) h"
    and run: "\<And>rid. h (site_request (dc_Base c) host addr (st_jar st) (http_call_of c ''POST'' path [] b)
        \<lparr>r_request := rid, r_user := s_user_id x\<rparr>) (st_world st) = (w', write_json 201 (str_obj ms))"
    and ms: "\<forall>m \<in> set ms. utf8 (fst m) \<and> utf8 (snd m) \<and> length (fst m) \<le> 200 \<and> length (snd m) \<le> 200" "length ms \<le> 100"
  shows "Call nl (serve_call sv ios files (dc_Base c) host addr) c ''POST'' path [] (Some b) st =
    (\<lparr>st_world = w', st_jar = st_jar st, st_count = st_count st + 1\<rparr>, Inr (go_map (map (\<lambda>(k, v). (k, JStr v)) ms)))"
proof -
  let ?r = "site_request (dc_Base c) host addr (st_jar st) (http_call_of c ''POST'' path [] b)"
  have "r_Cookie (?r\<lparr>r_request := rid\<rparr>) ''pulseroute_session'' = Some t" for rid
    using url(2) st(1) by (simp add: site_request_def sent_cookie_def)
  from auth_runs [OF this st(3,2)] run
  have "auth sv (ios (st_count st)) h (?r\<lparr>r_request := rid\<rparr>) (st_world st) = (w', write_json 201 (str_obj ms))" for rid by simp
  moreover have "r_Method ?r = ''POST''" "r_Path ?r = path_of (dc_Base c) (dc_Base c @ path)" "r_Header ?r ''Origin'' = []" "r_Header ?r ''Sec-Fetch-Site'' = []"
    by (simp_all add: site_request_def http_call_of_def call_headers_def)
  ultimately have "\<exists>hs. Handler sv (ios (st_count st)) (\<lambda>s. s) files ?r (st_world st) = (w', (write_json 201 (str_obj ms))\<lparr>rsp_headers := hs\<rparr>)"
    unfolding Handler_def by (intro middleware_runs) (simp_all add: rt)
  then obtain hs where h: "Handler sv (ios (st_count st)) (\<lambda>s. s) files ?r (st_world st) = (w', (write_json 201 (str_obj ms))\<lparr>rsp_headers := hs\<rparr>)"
    by blast
  from Call_runs [where ios = ios and st = st and path = path, OF url(1) h _ _ ms] show ?thesis by (simp add: write_json_def kept_cookie_def)
qed

text \<open>The three handlers on a valid body.\<close>

lemma project_runs:
  assumes "name_body n = Some b" "r_Body r = json_print b" "\<not> r_BodyErr r" "utf8 n" "validName n"
    and "io_db i = all_done" "\<And>t. pg_text (sv_pg sv) t"
    and "insert_project \<lparr>p_id = new_token i 1 ''prj_'', p_owner_id = r_user r, p_name = trim_space n, p_created_at = io_now i\<rparr> (w_db w) = Inr s'"
  shows "createProject sv i r w = (w\<lparr>w_db := s'\<rparr>, write_json 201 (str_obj [(''id'', new_token i 1 ''prj_''), (''name'', n)]))"
proof -
  have "length n \<le> 1000" using assms(5) by (simp add: validName_def)
  from name_decoded [OF assms(1-4) this] show ?thesis
    using assms(5-8) by (simp add: createProject_def exec_def Let_def user_def apply_out_def list_all_iff)
qed

lemma owner_runs: "owns_project (w_db w) (r_user r) (r_ID r) \<Longrightarrow> (\<And>t. pg_text (sv_pg sv) t) \<Longrightarrow> owner sv Done r (w_db w) (r_ID r)"
  by (simp add: owner_def query_def user_def)

lemma key_runs:
  assumes "name_body n = Some b" "r_Body r = json_print b" "\<not> r_BodyErr r" "utf8 n" "validName n"
    and "io_db i = all_done" "\<And>t. pg_text (sv_pg sv) t" "owns_project (w_db w) (r_user r) (r_ID r)"
    and "insert_api_key \<lparr>k_id = new_token i 1 ''key_'', k_project_id = r_ID r, k_name = n,
      k_key_hash = Hash (sv_cr sv) (new_token i 2 ''pr_live_''), k_prefix = take 16 (new_token i 2 ''pr_live_''), k_revoked_at = None,
      k_created_at = io_now i\<rparr> (w_db w) = Inr s'"
  shows "createKey sv i r w = (w\<lparr>w_db := s'\<rparr>, write_json 201 (str_obj [(''id'', new_token i 1 ''key_''),
    (''key'', new_token i 2 ''pr_live_''), (''prefix'', take 16 (new_token i 2 ''pr_live_''))]))"
proof -
  have "length n \<le> 1000" using assms(5) by (simp add: validName_def)
  from name_decoded [OF assms(1-4) this] owner_runs [OF assms(8,7)] show ?thesis
    using assms(5-7,9) by (simp add: createKey_def exec_def Let_def apply_out_def list_all_iff)
qed

lemma endpoint_runs:
  assumes "endpoint_body n url secret = Some b" "r_Body r = json_print b" "\<not> r_BodyErr r" "utf8 n" "utf8 url" "utf8 secret"
    and "validName n" "length url \<le> 10000" "ValidateURL (sv_url sv) url (c_AllowPrivate (sv_Config sv)) = Inr ()"
      "16 \<le> length secret" "length secret \<le> 256"
    and "io_db i = all_done" "\<And>t. pg_text (sv_pg sv) t" "owns_project (w_db w) (r_user r) (r_ID r)"
    and "Encrypt (sv_cr sv) (c_EncryptionKey (sv_Config sv)) (Some (io_rand i 2)) secret = Inr cipher"
    and "insert_endpoint \<lparr>ep_id = new_token i 3 ''ep_'', ep_project_id = r_ID r, ep_name = n, ep_url = url, ep_secret_cipher = cipher,
      ep_active = True, ep_max_attempts = 5, ep_base_delay_seconds = 1, ep_rate_per_second = 10, ep_created_at = io_now i,
      ep_deleted_at = None\<rparr> (w_db w) = Inr s'"
  shows "createEndpoint sv i r w = (w\<lparr>w_db := s'\<rparr>, write_json 201 (str_obj [(''id'', new_token i 3 ''ep_''), (''secret'', secret)]))"
proof -
  have "length n \<le> 1000" "length secret \<le> 10000" "secret \<noteq> []" using assms(7,10,11) by (auto simp: validName_def)
  with endpoint_decoded [OF assms(1-6)] owner_runs [OF assms(14,13)] show ?thesis
    using assms(7-13,15,16) by (simp add: createEndpoint_def validateEndpoint_def exec_def Let_def apply_out_def list_all_iff)
qed

section \<open>The run\<close>

definition run_ios :: "nat \<Rightarrow> io" where
  "run_ios n = sample_io\<lparr>io_rand := (\<lambda>k. [char_of (65 + n), char_of (65 + k)])\<rparr>"

definition run_site :: site where
  "run_site = \<lparr>st_world = sample_world, st_jar = None, st_count = 0\<rparr>"

abbreviation run_do :: "site transport" where
  "run_do \<equiv> serve_call sample_server run_ios (\<lambda>_. write_header 404) (dc_Base (democlient_New ''https://x'')) ''x'' ''1.2.3.4:5''"

definition run_user :: user_row where
  "run_user = \<lparr>u_id = new_token (run_ios 0) 1 ''usr_'', u_email = ''d@x'', u_password_hash = ''password-long'', u_created_at = 50\<rparr>"

definition run_session :: session_row where
  "run_session = \<lparr>s_token_hash = Hash sample_crypto (new_token (run_ios 0) 2 ''ses_''), s_user_id = u_id run_user, s_expires_at = 50 + day\<rparr>"

definition run_db1 :: db where
  "run_db1 = sample_db\<lparr>users := users sample_db @ [run_user], sessions := sessions sample_db @ [run_session]\<rparr>"

lemma sample_hash_length: "length (Hash sample_crypto x) = 64"
  by (simp add: Hash_def hex_encode_length sample_crypto_def)

lemma sample_hash_neq: "length y < 64 \<Longrightarrow> Hash sample_crypto x \<noteq> y"
  using sample_hash_length [of x] by auto

lemma run_token_values:
  "new_token (run_ios 0) 1 ''usr_'' \<noteq> ''usr_1''" "new_token (run_ios 1) 1 ''prj_'' \<noteq> ''prj_1''" "new_token (run_ios 5) 1 ''key_'' \<noteq> ''key_1''"
  "distinct [new_token (run_ios 4) 3 ''ep_'', new_token (run_ios 3) 3 ''ep_'', new_token (run_ios 2) 3 ''ep_'', ''ep_1'', ''ep_2'']"
  by code_simp+

lemma run_insert_user: "insert_user run_user sample_db = Inr (sample_db\<lparr>users := users sample_db @ [run_user]\<rparr>)"
  using run_token_values(1) by (simp add: insert_user_def run_user_def sample_db_def)

lemma run_insert_session: "insert_session run_session (sample_db\<lparr>users := users sample_db @ [run_user]\<rparr>) = Inr run_db1"
  using sample_hash_neq by (simp add: insert_session_def run_session_def run_db1_def sample_db_def)

text \<open>Text that begins and ends with an identifier character is not trimmed.\<close>

lemma trim_left_plain:
  assumes "\<forall>p \<in> set ps. \<not> identifier_tail (hd p)" and "s \<noteq> []" "identifier_tail (hd s)"
  shows "trim_left ps s = s"
proof -
  have "find (\<lambda>p. p \<noteq> [] \<and> has_prefix s p) ps = None"
    using assms by (cases s) (auto simp: find_None_iff has_prefix_iff neq_Nil_conv)
  then show ?thesis by (subst trim_left.simps) simp
qed

lemma trim_space_plain:
  assumes "s \<noteq> []" "identifier_tail (hd s)" "identifier_tail (last s)"
  shows "trim_space s = s"
proof -
  have "list_all (\<lambda>p. \<not> identifier_tail (hd p) \<and> \<not> identifier_tail (hd (rev p))) space_runes" by code_simp
  then have p: "\<forall>p \<in> set space_runes. \<not> identifier_tail (hd p)" "\<forall>p \<in> set (map rev space_runes). \<not> identifier_tail (hd p)"
    by (auto simp: list_all_iff)
  have "trim_left space_runes s = s" by (rule trim_left_plain [OF p(1) assms(1,2)])
  moreover have "trim_left (map rev space_runes) (rev s) = rev s"
    by (rule trim_left_plain [OF p(2)]) (use assms in \<open>simp_all add: hd_rev\<close>)
  ultimately show ?thesis by (simp add: trim_space_def)
qed

lemma run_trims: "x \<in> {''Synthetic operations'', ''Synthetic seed'', ''d@x''} \<union> fst ` set demo_endpoints \<Longrightarrow> trim_space x = x"
  by (rule trim_space_plain) (auto simp: demo_endpoints_def identifier_tail_def identifier_head_def between_def)

lemma run_email: "Password sample_crypto ''password-long'' = Inr ''password-long''"
  by code_simp

lemma run_lower: "sv_lower sample_server x = x"
  by (simp add: sample_server_def)

lemma run_lib: "sv_mail sample_server e = Some e" "pg_text (sv_pg sample_server) t" "sv_cr sample_server = sample_crypto"
  by (simp_all add: sample_server_def sample_pg_def)

lemma run_register_user:
  "\<exists>rsp. register_user sample_server (run_ios 0) \<lparr>cr_Email = ''d@x'', cr_Password = ''password-long''\<rparr> r
      \<lparr>w_db = sample_db, w_limits = ls, w_cache = ca\<rparr> = (\<lparr>w_db = run_db1, w_limits = ls, w_cache = ca\<rparr>, rsp) \<and>
    rsp = (write_json 201 (str_obj [(''id'', u_id run_user)]))
      \<lparr>rsp_cookie := Some (session_cookie sample_server (new_token (run_ios 0) 2 ''ses_'') 86400)\<rparr>"
proof -
  have io: "io_db (run_ios 0) = all_done" "io_now (run_ios 0) = 50" "io_clock (run_ios 0) = 50"
    by (simp_all add: run_ios_def sample_io_def)
  show ?thesis
    using run_insert_user run_insert_session
    by (simp add: register_user_def run_email run_trims run_lower run_lib exec_def session_def Let_def io run_user_def run_session_def apply_out_def)
qed



definition run_token :: string where
  "run_token = new_token (run_ios 0) 2 ''ses_''"

definition run_pid :: string where
  "run_pid = new_token (run_ios 1) 1 ''prj_''"

definition run_project :: project_row where
  "run_project = \<lparr>p_id = run_pid, p_owner_id = u_id run_user, p_name = ''Synthetic operations'', p_created_at = 50\<rparr>"

definition run_secret :: string where
  "run_secret = ''secret-0123456789''"

definition run_endpoint :: "nat \<Rightarrow> string \<times> string \<Rightarrow> endpoint_row" where
  "run_endpoint n x = \<lparr>ep_id = new_token (run_ios n) 3 ''ep_'', ep_project_id = run_pid, ep_name = fst x, ep_url = ''https://r'' @ snd x,
     ep_secret_cipher = projr (Encrypt sample_crypto (c_EncryptionKey sample_config) (Some (io_rand (run_ios n) 2)) run_secret),
     ep_active = True, ep_max_attempts = 5, ep_base_delay_seconds = 1, ep_rate_per_second = 10, ep_created_at = 50, ep_deleted_at = None\<rparr>"

definition run_apikey :: string where
  "run_apikey = new_token (run_ios 5) 2 ''pr_live_''"

definition run_key :: api_key_row where
  "run_key = \<lparr>k_id = new_token (run_ios 5) 1 ''key_'', k_project_id = run_pid, k_name = ''Synthetic seed'', k_key_hash = Hash sample_crypto run_apikey,
     k_prefix = take 16 run_apikey, k_revoked_at = None, k_created_at = 50\<rparr>"

definition run_db :: "nat \<Rightarrow> db" where
  "run_db n = run_db1\<lparr>projects := projects run_db1 @ [run_project],
     endpoints := endpoints run_db1 @ take n [run_endpoint 2 (demo_endpoints ! 0), run_endpoint 3 (demo_endpoints ! 1), run_endpoint 4 (demo_endpoints ! 2)]\<rparr>"

lemmas run_rows = run_db_def run_db1_def sample_db_def sample_endpoint_def run_endpoint_def run_project_def run_pid_def run_key_def

lemma run_insert_project: "insert_project run_project run_db1 = Inr (run_db 0)"
  using run_token_values(2) by (simp add: insert_project_def run_rows)

lemma run_insert_endpoints:
  "insert_endpoint (run_endpoint 2 (demo_endpoints ! 0)) (run_db 0) = Inr (run_db 1)"
  "insert_endpoint (run_endpoint 3 (demo_endpoints ! 1)) (run_db 1) = Inr (run_db 2)"
  "insert_endpoint (run_endpoint 4 (demo_endpoints ! 2)) (run_db 2) = Inr (run_db 3)"
  using run_token_values(4) by (simp_all add: insert_endpoint_def policy_check_def run_rows numeral_2_eq_2 numeral_3_eq_3)

lemma run_insert_key: "insert_api_key run_key (run_db 3) = Inr ((run_db 3)\<lparr>api_keys := api_keys (run_db 3) @ [run_key]\<rparr>)"
  using run_token_values(3) sample_hash_neq by (simp add: insert_api_key_def run_rows)

lemma run_live: "sessions s = sessions run_db1 \<Longrightarrow> live_session 50 s (Hash sample_crypto run_token) = Some run_session"
  using sample_hash_neq [of "''sess''" "new_token (run_ios 0) 2 ''ses_''"]
  by (simp add: live_session_def run_db1_def sample_db_def run_session_def run_token_def day_def)

lemma run_names: "validName ''Synthetic operations''" "validName ''Synthetic seed''" "\<forall>x \<in> set demo_endpoints. validName (fst x)"
  using run_trims by (auto simp: validName_def demo_endpoints_def)

lemma run_urls:
  "\<forall>x \<in> set demo_endpoints. ValidateURL (sv_url sample_server) (''https://r'' @ snd x) (c_AllowPrivate (sv_Config sample_server)) = Inr ()"
  by (simp add: demo_endpoints_def ValidateURL_def sample_server_def sample_config_def)

lemma run_utf8: "utf8 ''Synthetic operations''" "utf8 ''Synthetic seed''" "utf8 run_secret"
    "\<forall>x \<in> set demo_endpoints. utf8 (fst x) \<and> utf8 (''https://r'' @ snd x) \<and> length (''https://r'' @ snd x) \<le> 10000"
    "utf8 ''d@x''" "utf8 ''password-long''"
  by (simp_all add: plain_utf8 plain_def escape_byte_def run_secret_def demo_endpoints_def)

lemma run_encrypts:
  "Encrypt (sv_cr sample_server) (c_EncryptionKey (sv_Config sample_server)) (Some (io_rand (run_ios n) 2)) run_secret =
     Inr (ep_secret_cipher (run_endpoint n x))"
proof -
  have "\<exists>c. Encrypt sample_crypto (c_EncryptionKey sample_config) (Some r) run_secret = Inr c" for r
    by (simp add: Encrypt_def sample_crypto_def aes_key_ok_def sample_config_def)
  from this [of "io_rand (run_ios n) 2"] show ?thesis by (auto simp: run_endpoint_def sample_server_def)
qed

definition run_state :: "nat \<Rightarrow> limits \<Rightarrow> db \<Rightarrow> site" where
  "run_state n ls s = \<lparr>st_world = \<lparr>w_db = s, w_limits = ls, w_cache = (\<lambda>_. None)\<rparr>, st_jar = Some (run_token, True), st_count = n\<rparr>"

lemma run_view: "io_db (run_ios n) = all_done" "io_redis (run_ios n) = all_done" "io_now (run_ios n) = 50" "io_redis_now (run_ios n) = 0"
  by (simp_all add: run_ios_def sample_io_def)

lemma run_owns: "projects s = projects (run_db 0) \<Longrightarrow> owns_project s (u_id run_user) run_pid"
  by (simp add: owns_project_def run_db_def run_project_def)

abbreviation run_client :: client where
  "run_client \<equiv> democlient_New ''https://x''"

lemma run_base: "nl_parses any_url u" "has_prefix (dc_Base run_client) ''https:''"
  by (simp_all add: any_url_def democlient_New_def has_prefix_def)

lemma run_slash: "CHR ''/'' \<notin> set run_pid" "clean_segment run_pid"
  unfolding run_pid_def by (rule token_plain(2) [OF demo_chars(1)]) (simp add: new_token_def Token_def clean_segment_def)

lemma run_project_call:
  "\<exists>m. Call any_url run_do run_client ''POST'' ''/api/projects'' [] (name_body ''Synthetic operations'') (run_state 1 ls run_db1) =
     (run_state 2 ls (run_db 0), Inr m) \<and> text_of m ''id'' = Some run_pid"
proof -
  obtain b where b: "name_body ''Synthetic operations'' = Some b" by (simp add: name_body_def obj_def)
  let ?ms = "[(''id'', run_pid), (''name'', ''Synthetic operations'')]"
  let ?st = "run_state 1 ls run_db1"
  let ?i = "run_ios (st_count ?st)"
  have pid: "utf8 run_pid" "length run_pid \<le> 200"
    using plain_utf8 [OF token_plain(1) [OF demo_chars(1)], of ?i 1] token_plain(3) [OF demo_chars(1), of ?i 1]
    by (simp_all add: run_pid_def run_state_def run_ios_def)
  have "Call any_url run_do run_client ''POST'' ''/api/projects'' [] (Some b) ?st =
    (\<lparr>st_world = (st_world ?st)\<lparr>w_db := run_db 0\<rparr>, st_jar = st_jar ?st, st_count = st_count ?st + 1\<rparr>,
     Inr (go_map (map (\<lambda>(k, v). (k, JStr v)) ?ms)))"
  proof (rule api_call_runs [where h = "createProject sample_server ?i" and t = run_token and sec = True and x = run_session])
    fix rid
    let ?r = "site_request (dc_Base run_client) ''x'' ''1.2.3.4:5'' (st_jar ?st) (http_call_of run_client ''POST'' ''/api/projects'' [] b)
      \<lparr>r_request := rid, r_user := s_user_id run_session\<rparr>"
    have "createProject sample_server ?i ?r (st_world ?st) = ((st_world ?st)\<lparr>w_db := run_db 0\<rparr>,
        write_json 201 (str_obj [(''id'', new_token ?i 1 ''prj_''), (''name'', ''Synthetic operations'')]))"
      by (rule project_runs [OF b _ _ run_utf8(1) run_names(1) run_view(1) run_lib(2)])
        (use run_insert_project in \<open>simp_all add: site_request_def http_call_of_def run_state_def run_project_def run_session_def
          run_trims run_view run_pid_def\<close>)
    then show "createProject sample_server ?i ?r (st_world ?st) = ((st_world ?st)\<lparr>w_db := run_db 0\<rparr>, write_json 201 (str_obj ?ms))"
      by (simp add: run_pid_def run_state_def)
  qed (use run_base pid plain_utf8 [OF demo_chars(4)] plain_utf8 [OF demo_chars(5)] run_utf8(1) in
      \<open>simp_all add: run_state_def run_view run_lib run_live path_projects demo_routes serve_def\<close>)
  moreover have "text_of (go_map (map (\<lambda>(k, v). (k, JStr v)) ?ms)) ''id'' = Some run_pid" by (simp only: text_of_strings) simp
  ultimately show ?thesis by (simp add: b run_state_def)
qed


lemma run_endpoint_call:
  assumes x: "x \<in> set demo_endpoints" and ins: "insert_endpoint (run_endpoint n x) s = Inr s'"
    and s: "projects s = projects (run_db 0)" "sessions s = sessions run_db1"
  shows "\<exists>m. Call any_url run_do run_client ''POST'' (''/api/projects/'' @ run_pid @ ''/endpoints'') []
      (endpoint_body (fst x) (''https://r'' @ snd x) run_secret) (run_state n ls s) = (run_state (n + 1) ls s', Inr m)"
proof -
  obtain b where b: "endpoint_body (fst x) (''https://r'' @ snd x) run_secret = Some b" by (simp add: endpoint_body_def obj_def)
  let ?st = "run_state n ls s" and ?i = "run_ios n"
  let ?ms = "[(''id'', new_token ?i 3 ''ep_''), (''secret'', run_secret)]"
  have ep: "\<forall>c \<in> set ''ep_''. plain c \<and> c \<noteq> CHR ''/''" "\<forall>c \<in> set ''secret''. plain c" by (simp_all add: plain_def escape_byte_def)
  have tok: "utf8 (new_token ?i 3 ''ep_'')" "length (new_token ?i 3 ''ep_'') \<le> 200"
    using plain_utf8 [OF token_plain(1) [OF ep(1)], of ?i 3] token_plain(3) [OF ep(1), of ?i 3] by (simp_all add: run_ios_def)
  have "Call any_url run_do run_client ''POST'' (''/api/projects/'' @ run_pid @ ''/endpoints'') [] (Some b) ?st =
    (\<lparr>st_world = (st_world ?st)\<lparr>w_db := s'\<rparr>, st_jar = st_jar ?st, st_count = st_count ?st + 1\<rparr>,
     Inr (go_map (map (\<lambda>(k, v). (k, JStr v)) ?ms)))"
  proof (rule api_call_runs [where h = "with_id run_pid (createEndpoint sample_server ?i)" and t = run_token and sec = True and x = run_session])
    fix rid
    let ?r = "site_request (dc_Base run_client) ''x'' ''1.2.3.4:5'' (st_jar ?st) (http_call_of run_client ''POST'' (''/api/projects/'' @ run_pid @ ''/endpoints'') [] b)
      \<lparr>r_request := rid, r_user := s_user_id run_session\<rparr>"
    have "createEndpoint sample_server ?i (?r\<lparr>r_ID := run_pid\<rparr>) (st_world ?st) = ((st_world ?st)\<lparr>w_db := s'\<rparr>, write_json 201 (str_obj ?ms))"
    proof (rule endpoint_runs [OF b _ _ _ _ run_utf8(3) _ _ _ _ _ run_view(1) run_lib(2) _ run_encrypts [of n x]])
      show "insert_endpoint
          \<lparr>ep_id = new_token ?i 3 ''ep_'', ep_project_id = r_ID (?r\<lparr>r_ID := run_pid\<rparr>), ep_name = fst x, ep_url = ''https://r'' @ snd x,
           ep_secret_cipher = ep_secret_cipher (run_endpoint n x), ep_active = True, ep_max_attempts = 5, ep_base_delay_seconds = 1,
           ep_rate_per_second = 10, ep_created_at = io_now ?i, ep_deleted_at = None\<rparr> (w_db (st_world ?st)) = Inr s'"
        using ins by (simp add: run_endpoint_def run_state_def run_view)
    qed (use x run_utf8(4) run_names(3) run_urls run_owns [OF s(1)] in
        \<open>simp_all add: site_request_def http_call_of_def run_state_def run_session_def run_secret_def del: append.append_Cons\<close>)
    then show "with_id run_pid (createEndpoint sample_server ?i) ?r (st_world ?st) = ((st_world ?st)\<lparr>w_db := s'\<rparr>, write_json 201 (str_obj ?ms))"
      by (simp add: with_id_def)
  next
    show "serve sample_server (run_ios (st_count ?st)) (\<lambda>s. s) (\<lambda>_. write_header 404)
        (route_of ''POST'' (path_of (dc_Base run_client) (dc_Base run_client @ ''/api/projects/'' @ run_pid @ ''/endpoints''))) =
      auth sample_server (run_ios (st_count ?st)) (with_id run_pid (createEndpoint sample_server ?i))"
      unfolding path_below_project(1) [OF run_slash(1)] by (simp add: demo_routes run_slash serve_def run_state_def)
  qed (use run_base tok plain_utf8 [OF demo_chars(4)] plain_utf8 [OF ep(2)] run_utf8(3) run_live [OF s(2)] in
      \<open>simp_all add: run_state_def run_view run_lib run_secret_def\<close>)
  then show ?thesis by (simp add: b run_state_def del: append.append_Cons)
qed

lemma run_key_call:
  assumes ins: "insert_api_key run_key s = Inr s'" and s: "projects s = projects (run_db 0)" "sessions s = sessions run_db1"
  shows "\<exists>m. Call any_url run_do run_client ''POST'' (''/api/projects/'' @ run_pid @ ''/api-keys'') [] (name_body ''Synthetic seed'') (run_state 5 ls s) =
      (run_state 6 ls s', Inr m) \<and> text_of m ''key'' = Some run_apikey"
proof -
  obtain b where b: "name_body ''Synthetic seed'' = Some b" by (simp add: name_body_def obj_def)
  let ?st = "run_state 5 ls s" and ?i = "run_ios 5"
  let ?ms = "[(''id'', new_token ?i 1 ''key_''), (''key'', run_apikey), (''prefix'', take 16 run_apikey)]"
  have kid: "utf8 (new_token ?i 1 ''key_'')" "length (new_token ?i 1 ''key_'') \<le> 200"
    using plain_utf8 [OF token_plain(1) [OF demo_chars(2)], of ?i 1] token_plain(3) [OF demo_chars(2), of ?i 1] by (simp_all add: run_ios_def)
  have "\<forall>c \<in> set run_apikey. plain c" unfolding run_apikey_def by (rule token_plain(1) [OF demo_chars(3)])
  then have key: "utf8 run_apikey" "utf8 (take 16 run_apikey)" using plain_utf8 by (blast, metis in_set_takeD)
  have len: "length run_apikey \<le> 200" using token_plain(3) [OF demo_chars(3), of ?i 2] by (simp add: run_apikey_def run_ios_def)
  have "Call any_url run_do run_client ''POST'' (''/api/projects/'' @ run_pid @ ''/api-keys'') [] (Some b) ?st =
    (\<lparr>st_world = (st_world ?st)\<lparr>w_db := s'\<rparr>, st_jar = st_jar ?st, st_count = st_count ?st + 1\<rparr>,
     Inr (go_map (map (\<lambda>(k, v). (k, JStr v)) ?ms)))"
  proof (rule api_call_runs [where h = "with_id run_pid (createKey sample_server ?i)" and t = run_token and sec = True and x = run_session])
    fix rid
    let ?r = "site_request (dc_Base run_client) ''x'' ''1.2.3.4:5'' (st_jar ?st) (http_call_of run_client ''POST'' (''/api/projects/'' @ run_pid @ ''/api-keys'') [] b)
      \<lparr>r_request := rid, r_user := s_user_id run_session\<rparr>"
    have "createKey sample_server ?i (?r\<lparr>r_ID := run_pid\<rparr>) (st_world ?st) = ((st_world ?st)\<lparr>w_db := s'\<rparr>, write_json 201 (str_obj
        [(''id'', new_token ?i 1 ''key_''), (''key'', new_token ?i 2 ''pr_live_''), (''prefix'', take 16 (new_token ?i 2 ''pr_live_''))]))"
      by (rule key_runs [OF b _ _ run_utf8(2) run_names(2) run_view(1) run_lib(2)])
        (use ins run_owns [OF s(1)] in \<open>simp_all add: site_request_def http_call_of_def run_state_def run_session_def run_key_def
          run_view run_lib run_apikey_def\<close>)
    then show "with_id run_pid (createKey sample_server ?i) ?r (st_world ?st) = ((st_world ?st)\<lparr>w_db := s'\<rparr>, write_json 201 (str_obj ?ms))"
      by (simp add: with_id_def run_apikey_def)
  next
    show "serve sample_server (run_ios (st_count ?st)) (\<lambda>s. s) (\<lambda>_. write_header 404)
        (route_of ''POST'' (path_of (dc_Base run_client) (dc_Base run_client @ ''/api/projects/'' @ run_pid @ ''/api-keys''))) =
      auth sample_server (run_ios (st_count ?st)) (with_id run_pid (createKey sample_server ?i))"
      unfolding path_below_project(2) [OF run_slash(1)] by (simp add: demo_routes run_slash serve_def run_state_def)
  qed (use run_base kid key len plain_utf8 [OF demo_chars(4)] plain_utf8 [OF demo_chars(6)] plain_utf8 [OF demo_chars(7)] run_live [OF s(2)] in
      \<open>simp_all add: run_state_def run_view run_lib\<close>)
  moreover have "text_of (go_map (map (\<lambda>(k, v). (k, JStr v)) ?ms)) ''key'' = Some run_apikey" by (simp only: text_of_strings) simp
  ultimately show ?thesis by (simp add: b run_state_def del: append.append_Cons)
qed

lemma credentials_decoded:
  assumes "credentials_body e p = Some b" and "r_Body r = json_print b" "\<not> r_BodyErr r"
    and utf: "utf8 e" "utf8 p" and len: "length e \<le> 1000" "length p \<le> 1000"
  shows "decode r credential_names put_credentials \<lparr>cr_Email = [], cr_Password = []\<rparr> = Inr \<lparr>cr_Email = e, cr_Password = p\<rparr>"
proof -
  let ?ms = "[(''email'', JStr e), (''password'', JStr p)]"
  have b: "b = JObj ?ms" using assms(1) by (simp add: credentials_body_def obj_def go_map_def)
  have key: "\<forall>c \<in> set ''email''. plain c" "\<forall>c \<in> set ''password''. plain c" by (simp_all add: plain_def escape_byte_def)
  show ?thesis
  proof (rule decode_print [of _ ?ms])
    show "length (json_print (JObj ?ms)) \<le> max_body"
      using len print_string_length [of e] print_string_length [of p]
      by (simp add: print_string_plain [OF key(1)] print_string_plain [OF key(2)] max_body_def)
    show "wf_json (JObj ?ms)" "nests max_nesting (JObj ?ms)" using key utf by (simp_all add: max_nesting_def plain_utf8)
    show "set_fields credential_names put_credentials (map raw_member ?ms) \<lparr>cr_Email = [], cr_Password = []\<rparr> =
      Some \<lparr>cr_Email = e, cr_Password = p\<rparr>"
      by (simp add: credential_names_def put_credentials_def field_of_def text_field_def)
  qed (simp_all add: assms(2,3) b)
qed


lemma run_register_call:
  "\<exists>ls m. Call any_url run_do run_client ''POST'' ''/api/auth/register'' [] (credentials_body ''d@x'' ''password-long'') run_site =
    (run_state 1 ls run_db1, Inr m)"
proof -
  obtain b where b: "credentials_body ''d@x'' ''password-long'' = Some b" by (simp add: credentials_body_def obj_def)
  let ?r = "site_request (dc_Base run_client) ''x'' ''1.2.3.4:5'' (st_jar run_site) (http_call_of run_client ''POST'' ''/api/auth/register'' [] b)"
  let ?rsp = "(write_json 201 (str_obj [(''id'', u_id run_user)]))\<lparr>rsp_cookie := Some (session_cookie sample_server (new_token (run_ios 0) 2 ''ses_'') 86400)\<rparr>"
  have usr: "\<forall>c \<in> set ''usr_''. plain c \<and> c \<noteq> CHR ''/''" by (simp add: plain_def escape_byte_def)
  have uid: "utf8 (u_id run_user)" "length (u_id run_user) \<le> 200"
    using plain_utf8 [OF token_plain(1) [OF usr], of "run_ios 0" 1] token_plain(3) [OF usr, of "run_ios 0" 1]
    by (simp_all add: run_user_def run_ios_def)
  have addr: "SplitHostPort ''1.2.3.4:5'' = Some (''1.2.3.4'', ''5'')" by code_simp
  have "\<exists>ls. Allow 0 Done x 1 10 (\<lambda>_. None) = (ls, Inr True)" for x
    by (simp add: Allow_def bucket_script_def live_bucket_def refill_def Let_def)
  then obtain ls where ls: "Allow 0 Done (''auth:'' @ ''1.2.3.4'') 1 10 (\<lambda>_. None) = (ls, Inr True)" by blast
  have lim: "authLimit (run_ios 0) (?r\<lparr>r_request := rid\<rparr>) (st_world run_site) =
      (\<lparr>w_db = sample_db, w_limits = ls, w_cache = (\<lambda>_. None)\<rparr>, Inr ())" for rid
    using ls addr by (simp add: authLimit_def site_request_def run_view run_site_def sample_world_def Let_def)
  have dec: "decode (?r\<lparr>r_request := rid\<rparr>) credential_names put_credentials \<lparr>cr_Email = [], cr_Password = []\<rparr> =
      Inr \<lparr>cr_Email = ''d@x'', cr_Password = ''password-long''\<rparr>" for rid
    by (rule credentials_decoded [OF b _ _ run_utf8(5,6)]) (simp_all add: site_request_def http_call_of_def)
  have reg: "register sample_server (run_ios 0) (?r\<lparr>r_request := rid\<rparr>) (st_world run_site) =
      (\<lparr>w_db = run_db1, w_limits = ls, w_cache = (\<lambda>_. None)\<rparr>, ?rsp)" for rid
    using run_register_user [of "?r\<lparr>r_request := rid\<rparr>" ls "\<lambda>_. None"] by (simp add: register_def lim dec)
  have path: "path_of (dc_Base run_client) (dc_Base run_client @ ''/api/auth/register'') = [''api'', ''auth'', ''register'']"
    by (simp add: path_of_def)
  have "route_of ''POST'' [''api'', ''auth'', ''register''] = Register" by (simp add: route_of_def post_route_def moved_def clean_segment_def)
  moreover have "r_Method ?r = ''POST''" "r_Path ?r = [''api'', ''auth'', ''register'']" "r_Header ?r ''Origin'' = []" "r_Header ?r ''Sec-Fetch-Site'' = []"
    using path by (simp_all add: site_request_def http_call_of_def call_headers_def)
  ultimately have "\<exists>hs. Handler sample_server (run_ios 0) (\<lambda>s. s) (\<lambda>_. write_header 404) ?r (st_world run_site) =
      (\<lparr>w_db = run_db1, w_limits = ls, w_cache = (\<lambda>_. None)\<rparr>, ?rsp\<lparr>rsp_headers := hs\<rparr>)"
    unfolding Handler_def by (intro middleware_runs) (simp_all add: serve_def reg)
  then obtain hs where "Handler sample_server (run_ios 0) (\<lambda>s. s) (\<lambda>_. write_header 404) ?r (st_world run_site) =
      (\<lparr>w_db = run_db1, w_limits = ls, w_cache = (\<lambda>_. None)\<rparr>, ?rsp\<lparr>rsp_headers := hs\<rparr>)" by blast
  moreover have "st_count run_site = 0" by (simp add: run_site_def)
  ultimately have h: "Handler sample_server (run_ios (st_count run_site)) (\<lambda>s. s) (\<lambda>_. write_header 404) ?r (st_world run_site) =
      (\<lparr>w_db = run_db1, w_limits = ls, w_cache = (\<lambda>_. None)\<rparr>, ?rsp\<lparr>rsp_headers := hs\<rparr>)" by (simp only:)
  have "Call any_url run_do run_client ''POST'' ''/api/auth/register'' [] (Some b) run_site = (run_state 1 ls run_db1, Inr (go_map (map (\<lambda>(k, v). (k, JStr v)) [(''id'', u_id run_user)])))"
    using Call_runs [where ios = run_ios and st = run_site and path = "''/api/auth/register''" and ms = "[(''id'', u_id run_user)]", OF run_base(1) h]
      uid plain_utf8 [OF demo_chars(4)]
    by (simp add: write_json_def kept_cookie_def run_state_def run_site_def session_cookie_def run_token_def sample_server_def sample_config_def)
  then show ?thesis unfolding b by blast
qed

lemma run_boots:
  "snd (Bootstrap any_url run_do run_client ''d@x'' ''password-long'' ''https://r'' run_secret run_site) = Booted run_pid run_apikey"
proof -
  obtain ls m where 1: "Call any_url run_do run_client ''POST'' ''/api/auth/register'' [] (credentials_body ''d@x'' ''password-long'') run_site =
    (run_state 1 ls run_db1, Inr m)" using run_register_call by blast
  obtain m' where 2: "Call any_url run_do run_client ''POST'' ''/api/projects'' [] (name_body ''Synthetic operations'') (run_state 1 ls run_db1) =
     (run_state 2 ls (run_db 0), Inr m')" "text_of m' ''id'' = Some run_pid" using run_project_call by blast
  have s: "projects (run_db n) = projects (run_db 0)" "sessions (run_db n) = sessions run_db1" for n
    by (simp_all add: run_db_def)
  have mem: "demo_endpoints ! 0 \<in> set demo_endpoints" "demo_endpoints ! 1 \<in> set demo_endpoints" "demo_endpoints ! 2 \<in> set demo_endpoints"
    by (simp_all add: demo_endpoints_def)
  have all: "demo_endpoints = [demo_endpoints ! 0, demo_endpoints ! 1, demo_endpoints ! 2]" by (simp add: demo_endpoints_def)
  obtain m3 m4 m5 where 3:
    "Call any_url run_do run_client ''POST'' (''/api/projects/'' @ run_pid @ ''/endpoints'') []
      (endpoint_body (fst (demo_endpoints ! 0)) (''https://r'' @ snd (demo_endpoints ! 0)) run_secret) (run_state 2 ls (run_db 0)) = (run_state 3 ls (run_db 1), Inr m3)"
    "Call any_url run_do run_client ''POST'' (''/api/projects/'' @ run_pid @ ''/endpoints'') []
      (endpoint_body (fst (demo_endpoints ! 1)) (''https://r'' @ snd (demo_endpoints ! 1)) run_secret) (run_state 3 ls (run_db 1)) = (run_state 4 ls (run_db 2), Inr m4)"
    "Call any_url run_do run_client ''POST'' (''/api/projects/'' @ run_pid @ ''/endpoints'') []
      (endpoint_body (fst (demo_endpoints ! 2)) (''https://r'' @ snd (demo_endpoints ! 2)) run_secret) (run_state 4 ls (run_db 2)) = (run_state 5 ls (run_db 3), Inr m5)"
    using run_endpoint_call [OF mem(1) run_insert_endpoints(1) s, of ls] run_endpoint_call [OF mem(2) run_insert_endpoints(2) s, of ls]
      run_endpoint_call [OF mem(3) run_insert_endpoints(3) s, of ls] by (auto simp del: append.append_Cons)
  have "add_endpoints any_url run_do run_client run_pid ''https://r'' run_secret [demo_endpoints ! 0, demo_endpoints ! 1, demo_endpoints ! 2] (run_state 2 ls (run_db 0)) =
      (run_state 5 ls (run_db 3), Inr ())"
    by (cases "demo_endpoints ! 0"; cases "demo_endpoints ! 1"; cases "demo_endpoints ! 2")
      (use 3 in \<open>simp del: append.append_Cons\<close>)
  then have "add_endpoints any_url run_do run_client run_pid ''https://r'' run_secret demo_endpoints (run_state 2 ls (run_db 0)) =
      (run_state 5 ls (run_db 3), Inr ())" by (simp only: all [symmetric])
  moreover obtain m6 s6 where "Call any_url run_do run_client ''POST'' (''/api/projects/'' @ run_pid @ ''/api-keys'') [] (name_body ''Synthetic seed'') (run_state 5 ls (run_db 3)) =
      (s6, Inr m6)" "text_of m6 ''key'' = Some run_apikey"
    using run_key_call [OF run_insert_key s, of ls] by blast
  ultimately show ?thesis
    using 1 2 by (simp add: Bootstrap_def sign_in_def set_up_def new_key_def del: append.append_Cons)
qed

text \<open>
  C16: the demo's set-up, client and server together. Run against the modelled server, whatever its state, its configuration and
  the failures of its calls, \<open>Bootstrap\<close> never hits its unchecked type assertions; and when it reports a project and a
  key, the server's database holds that project, the three demo endpoints, live and under the receiver's secret, and
  the key opens exactly this project for ingestion.
\<close>

theorem bootstrap_sets_up:
  assumes boot: "Bootstrap nl (serve_call sv ios files (dc_Base c) host addr) c email password endpoint secret st = (st', res)"
    and rand: "\<And>i k. length (io_rand (ios i) k) \<le> 64"
    and args: "utf8 endpoint" "length endpoint \<le> 9000" "utf8 secret" "length secret \<le> 10000" "16 \<le> length secret"
  shows "res \<noteq> BootPanic \<and>
    (\<forall>pid key. res = Booted pid key \<longrightarrow>
       (\<exists>p \<in> set (projects (w_db (st_world st'))). p_id p = pid) \<and>
       (\<forall>x \<in> set demo_endpoints. \<exists>e \<in> set (endpoints (w_db (st_world st'))). demo_endpoint sv pid (fst x) (endpoint @ snd x) secret e) \<and>
       (\<exists>k. live_key (w_db (st_world st')) (Hash (sv_cr sv) key) = Some k \<and> k_project_id k = pid))"
proof -
  let ?do = "serve_call sv ios files (dc_Base c) host addr"
  have items: "\<forall>x \<in> set demo_endpoints. utf8 (fst x) \<and> utf8 (snd x) \<and> length (fst x) \<le> 1000 \<and> length (snd x) \<le> 1000"
    by (simp add: demo_endpoints_def plain_utf8 plain_def escape_byte_def)
  consider (failed) e where "res = BootFailed e" | (up) st1 where "set_up nl ?do c endpoint secret st1 = (st', res)"
    using boot by (auto simp: Bootstrap_def split: prod.splits sum.splits)
  then show ?thesis
  proof cases
    case up
    consider e where "res = BootFailed e" | st2 m where
      "Call nl ?do c ''POST'' ''/api/projects'' [] (name_body ''Synthetic operations'') st1 = (st2, Inr m)"
      using up by (auto simp: set_up_def split: prod.splits sum.splits)
    then show ?thesis
    proof cases
      case (2 st2 m)
      from project_call [OF 2 rand] obtain pid where pid: "text_of m ''id'' = Some pid" "clean_segment pid" "CHR ''/'' \<notin> set pid"
        "\<exists>p \<in> set (projects (w_db (st_world st2))). p_id p = pid" by blast
      consider e where "res = BootFailed e" | st3 u m' where
        "add_endpoints nl ?do c pid endpoint secret demo_endpoints st2 = (st3, Inr u)"
        "Call nl ?do c ''POST'' (''/api/projects/'' @ pid @ ''/api-keys'') [] (name_body ''Synthetic seed'') st3 = (st', Inr m')"
        "res = (case text_of m' ''key'' of None \<Rightarrow> BootPanic | Some key \<Rightarrow> Booted pid key)"
        using up 2 pid(1) by (auto simp: set_up_def new_key_def split: prod.splits sum.splits)
      then show ?thesis
      proof cases
        case (2 st3 u m')
        have secret: "secret \<noteq> []" using args(5) by auto
        note e = add_endpoints_ok [OF 2(1) pid(2,3) args(1,3,2,4) secret items]
        note k = key_call [OF 2(2) rand pid(2,3)]
        from k obtain key x where key: "text_of m' ''key'' = Some key" "live_key (w_db (st_world st')) (Hash (sv_cr sv) key) = Some x"
          "k_project_id x = pid" by blast
        have "grows (w_db (st_world st2)) (w_db (st_world st'))" "grows (w_db (st_world st3)) (w_db (st_world st'))"
          using e k grows_trans by blast+
        with e pid(4) key show ?thesis by (simp add: 2(3) grows_def) blast
      qed simp
    qed simp
  qed simp
qed

text \<open>The run above: it registers, and ends with a project and a key that opens it.\<close>

theorem bootstrap_sets_up_witness:
  "\<exists>st' k. Bootstrap any_url run_do run_client ''d@x'' ''password-long'' ''https://r'' run_secret run_site = (st', Booted run_pid run_apikey) \<and>
    live_key (w_db (st_world st')) (Hash sample_crypto run_apikey) = Some k \<and> k_project_id k = run_pid"
proof -
  obtain st' where boot: "Bootstrap any_url run_do run_client ''d@x'' ''password-long'' ''https://r'' run_secret run_site = (st', Booted run_pid run_apikey)"
    using run_boots by (metis prod.collapse)
  have "utf8 ''https://r''" "length run_secret = 17" "\<And>i k. length (io_rand (run_ios i) k) \<le> 64"
    by (simp_all add: plain_utf8 plain_def escape_byte_def run_secret_def run_ios_def)
  with bootstrap_sets_up [OF boot] run_utf8(3) boot show ?thesis by (auto simp: run_lib)
qed

end
