(* ===== verification/Spec2Isabelle.thy ===== *)
theory Spec2Isabelle
  imports Api_History Api_Types Paging Leases Cluster Progress Demo_Run
begin

text \<open>
  \<^bold>\<open>PulseRoute\<close>, a webhook delivery service in Go over PostgreSQL and Redis, in Isabelle/HOL.

  \<^bold>\<open>The program.\<close> API processes (\<^verbatim>\<open>src/internal/api\<close>) accept events over HTTP and keep accounts, projects, keys and
  endpoints. An accepted event is stored with one row in \<^verbatim>\<open>deliveries\<close> per live endpoint of its project, in one
  transaction; that table is the queue. Worker processes (\<^verbatim>\<open>src/internal/delivery\<close>) claim due rows under a lease with a
  random token, send the payload signed to the endpoint's URL, and record the attempt: succeeded, to be retried after a
  backoff, or dead. Redis holds token buckets and a short cache. Everything the processes share is in the database
  and in Redis; within a worker process goroutines share two channels. Around the service: a receiver for the demo, a client
  (\<^verbatim>\<open>src/internal/democlient\<close>) and the programs of \<^verbatim>\<open>src/cmd\<close>, among them a seeding and a load-testing tool over that client.

  \<^bold>\<open>How it is modelled.\<close> The database is a record of tables, a table the list of its rows, an SQL statement a function on
  it with its constraints as errors; a transaction is \<open>run_tx\<close>. A handler is a function from its request, its
  view of the outside (\<open>io\<close>: clocks, random bytes, the outcome of its n-th call) and the state to the new state and the
  response. Every call may succeed, fail without effect, or take effect while its answer is lost (\<open>outcome\<close>), so
  every early return of the code is a branch. Concurrency is interleaving of steps: \<open>sys_step\<close> for the processes over the
  database, \<open>cluster_step\<close> for their goroutines, \<open>pool_step\<close> for the goroutines of one worker, \<open>app_step\<close> for a whole process, \<open>lt_step\<close> for the load test, \<open>rx_step\<close> for the receiver. Go's integers are integers with the
  64-bit wrap-around written out where the code computes; a string is a list of bytes.

  \<^bold>\<open>The theories\<close>, each with the source it models and what it shows:
  \<^item> \<open>Prelude\<close>: types, 64-bit arithmetic, results, outcomes, tables, transactions; the locales \<open>tx_invariant\<close>, \<open>pk_update\<close> and
    \<open>row_order\<close>. \<open>Runs\<close>: the locale \<open>draining\<close>, an invariant, a measure and progress give an end of every run, for \<open>pool_step\<close> and
    \<open>lt_step\<close>; and \<open>simulates\<close>, a forward simulation.
  \<^item> \<open>Go_Text\<close>, \<open>Json\<close>: what the code uses of \<^verbatim>\<open>strings\<close>, \<^verbatim>\<open>strconv\<close>, \<^verbatim>\<open>hex\<close>, \<^verbatim>\<open>base64\<close> and \<^verbatim>\<open>encoding/json\<close>. \<open>Json_Text\<close>,
    \<open>Json_Props\<close>: reading back what was printed, well-formed results, enough fuel, Go maps independent of order. \<open>Json_Fields\<close>: a
    printed object read into a struct.
  \<^item> \<open>Schema\<close> (\<^verbatim>\<open>migrations/001_initial.sql\<close>): the tables, their constraints \<open>db_wf\<close> and inserts; \<open>Migrate\<close>
    (\<^verbatim>\<open>migrations/migrate.go\<close>): every migration runs once, all or nothing.
  \<^item> \<open>Retry\<close> (\<^verbatim>\<open>delivery/retry.go\<close>), \<open>Queue\<close> (\<^verbatim>\<open>delivery/queue.go\<close>): backoff, \<open>Claim\<close>, \<open>Defer\<close>, \<open>Finish\<close> and the invariant
    \<open>queue_inv\<close>. \<open>Queue_Props\<close>: what a claim hands out, fencing by lease token, the outcome of \<open>Finish\<close> per HTTP status.
    \<open>Sample\<close>: a small database for closed instances.
  \<^item> \<open>Doubles\<close>, \<open>Redisx\<close> (\<^verbatim>\<open>redisx/redis.go\<close>): the rounding of Lua's numbers; the Lua bucket's rate bound with the error of its roundings,
    and two instances that show the error is there; its expiry never changes a decision.
  \<^item> \<open>Security\<close>, \<open>Transport\<close> (\<^verbatim>\<open>security/\<close>): tokens, signatures, secrets at rest; which URLs and addresses are admitted and that a
    connection goes only to an address that was checked.
  \<^item> \<open>Config\<close> (\<^verbatim>\<open>config/config.go\<close>), \<open>Events\<close> (\<^verbatim>\<open>events/events.go\<close>): the bounds of a loaded configuration; the canonical form decides
    equality of events.
  \<^item> \<open>Api_Server\<close>, \<open>Api_Auth\<close>, \<open>Api_Projects\<close> (with \<^verbatim>\<open>endpoints.go\<close>), \<open>Api_Ingest\<close>, \<open>Api_Inspection\<close>, \<open>Api_Handler\<close>
    (\<^verbatim>\<open>internal/api\<close>): the helpers, every handler, the middleware and the router. \<open>Api_Props\<close>: every handler makes a \<open>db_step\<close>
    (constraints and invariant kept, leased rows untouched, only dead rows replayed, history untouched), through the locales
    \<open>plain_insert\<close> and \<open>endpoint_update\<close>. \<open>Api_Claims\<close>: ingestion is atomic, idempotent and fans out exactly, and replay, both against a column-by-column account of what they store (\<open>store_event\<close>, \<open>replayed\<close>); no management route
    without a session. \<open>Api_Access\<close>: users are isolated; sessions, bodies, origins. \<open>Api_History\<close>: the shown history is complete. \<open>Api_Types\<close>: which
    statuses, bodies, cookies and headers an answer can have. \<open>Paging\<close>: reading a list page by page shows everything once.
  \<^item> \<open>Worker\<close> (\<^verbatim>\<open>delivery/worker.go\<close>, \<open>process\<close>), \<open>Pool\<close> (\<open>Run\<close>): one job; the pool's bounds, conservation of jobs and shutdown.
    \<open>Receiver\<close> (\<^verbatim>\<open>receiver/receiver.go\<close>): a worker's request is accepted by the holder of the secret.
  \<^item> \<open>Lifecycle\<close>: the abstract life of a delivery, \<open>life_step\<close>, its phases a \<open>preorder\<close>, and that the queue's operations and all requests follow it.
    \<open>Delivery_System\<close>: the whole system, its invariant, refinement of the life machine, no delivery lost.
    \<open>Cluster\<close>: worker processes goroutine by goroutine over the database, by \<open>simulates\<close> an implementation of that system; their leases
    exclude each other. \<open>Leases\<close>: a lease outlives the requests made under it, from \<open>Load\<close> to the running system. \<open>Progress\<close>: one worker round end to
    end, and that nothing gets stuck.
  \<^item> \<open>App\<close> (\<^verbatim>\<open>app/app.go\<close>, \<^verbatim>\<open>database/database.go\<close>): what each mode starts; a process stops cleanly and can always stop.
  \<^item> \<open>Democlient\<close> (\<^verbatim>\<open>democlient/client.go\<close>), \<open>Loadtest\<close> (\<^verbatim>\<open>cmd/loadtest\<close>), \<open>Commands\<close> (the other programs of \<^verbatim>\<open>cmd\<close>): \<open>Call\<close>, \<open>Bootstrap\<close>,
    the goroutines and the report of the load test, what each \<^verbatim>\<open>main\<close> does; a run of the load test ends with a faithful report.
    \<open>Client_Server\<close>, \<open>Demo_Setup\<close>, \<open>Demo_Events\<close>, \<open>Demo_Run\<close>: the modelled server put behind the modelled client (\<open>serve_call\<close>): what the
    tools send is valid, \<open>Bootstrap\<close> sets up what it reports, posts can be repeated; a complete concrete run.

  \<^bold>\<open>Parameters.\<close> SHA-256, HMAC, AES-GCM and bcrypt (\<open>crypto\<close>); PostgreSQL's rendering of intervals, times, numbers and \<^verbatim>\<open>jsonb\<close>, its
  collation and which texts it stores (\<open>pg\<close>); the parsers of URLs, mail addresses and RFC 3339 times, lower-casing, the static
  files and redirects \<^verbatim>\<open>net/http\<close> answers by itself (\<open>server\<close>, \<open>Handler\<close>); the client's transport and cookie jar (\<open>transport\<close>, instantiated by the server) and the range check
  of \<^verbatim>\<open>strconv.ParseFloat\<close> (\<open>net_lib\<close>); DNS; the SQL a migration file runs. What a property needs of them is a hypothesis
  of it. A property about the whole system assumes of lease tokens only that one is not drawn twice.

  \<^bold>\<open>Fuel.\<close> \<open>json_next\<close> reads with fuel \<open>2 * length s + 1\<close> and a string literal with the length of its text; \<open>json_next_fuel\<close> and
  \<open>json_string_fuel\<close> show that more makes no difference. Everything else is total. The reader has Go's nesting limit of 10000.

  \<^bold>\<open>Not modelled.\<close> Logging and log output; HTTP framing, TLS and the
  Go runtime; the order in which \<^verbatim>\<open>SKIP LOCKED\<close> meets locks is the argument \<open>locked\<close> of \<open>Claim\<close>. Of the commands: flag
  parsing, printing, sleeping, and the elapsed time and throughput of the load-test report. Of the repository: the React
  dashboard (TypeScript, it only calls the API), build, deployment and test files.
\<close>

end
